(* ===== verification/Binary_Float.thy ===== *)
theory Binary_Float
  imports Prelude Complex_Main "HOL-Library.Log_Nat"
begin

text \<open>
  The floating-point arithmetic of the sources (\<^verbatim>\<open>f32\<close>, \<^verbatim>\<open>f64\<close>): a finite value is the
  rational number it denotes, every operation is the exact operation followed by rounding to
  nearest, ties to even, in the format's precision, subnormal numbers included, and results
  beyond the largest finite value become infinite.  The two zeros are identified: the sources
  never divide by a value that could be a negative zero (they divide by constants and by
  converted unsigned integers only).
  Rounding is monotone and leaves representable numbers alone; the locale \<open>rounding_mode\<close>
  states these two laws and derives what the clients need, and the interpretation discharges
  them for binary64.
\<close>

datatype fp = NaN | PInf | NInf | Fin rat

type_synonym f64 = fp
type_synonym f32 = fp

section \<open>Rounding\<close>

text \<open>The exponent of the leading binary digit of a positive rational.\<close>

definition ilog2 :: "rat \<Rightarrow> int" where
  "ilog2 x = (let (n, d) = quotient_of x; k = bitlen n - bitlen d
              in if 2 powi k \<le> x then k else k - 1)"

text \<open>Rounding to the nearest integer, ties to even.\<close>

definition rne :: "rat \<Rightarrow> int" where
  "rne x = (let f = \<lfloor>x\<rfloor>; r = x - of_int f
            in if r < 1 / 2 then f else if 1 / 2 < r then f + 1 else if even f then f else f + 1)"

text \<open>
  \<open>round_pos p e x\<close> rounds a non-negative rational to \<open>p\<close> significant binary digits, with
  \<open>2 powi e\<close> the smallest distance between two representable numbers.
\<close>

definition ulp_exp :: "nat \<Rightarrow> int \<Rightarrow> rat \<Rightarrow> int" where
  "ulp_exp p e x = max (ilog2 x - int p + 1) e"

definition round_pos :: "nat \<Rightarrow> int \<Rightarrow> rat \<Rightarrow> rat" where
  "round_pos p e x = (if x \<le> 0 then 0
     else of_int (rne (x / 2 powi (ulp_exp p e x))) * 2 powi (ulp_exp p e x))"

definition round_fp :: "nat \<Rightarrow> int \<Rightarrow> rat \<Rightarrow> rat" where
  "round_fp p e x = (if x < 0 then - round_pos p e (- x) else round_pos p e x)"

definition round64 :: "rat \<Rightarrow> rat" where
  "round64 x = round_fp 53 (- 1074) x"

section \<open>Operations\<close>

definition f64_of_rat :: "rat \<Rightarrow> f64" where
  "f64_of_rat x = (let r = round64 x
     in if 2 ^ 1024 \<le> r then PInf else if r \<le> - (2 ^ 1024) then NInf else Fin r)"

text \<open>\<^verbatim>\<open>n as f64\<close> for an unsigned integer.\<close>

definition f64_of_nat :: "nat \<Rightarrow> f64" where
  "f64_of_nat n = f64_of_rat (of_nat n)"

fun fp_neg :: "fp \<Rightarrow> bool" where
  "fp_neg (Fin x) = (x < 0)"
| "fp_neg NInf = True"
| "fp_neg _ = False"

fun f64_add :: "f64 \<Rightarrow> f64 \<Rightarrow> f64" where
  "f64_add (Fin x) (Fin y) = f64_of_rat (x + y)"
| "f64_add NaN _ = NaN"
| "f64_add _ NaN = NaN"
| "f64_add PInf NInf = NaN"
| "f64_add NInf PInf = NaN"
| "f64_add PInf _ = PInf"
| "f64_add _ PInf = PInf"
| "f64_add NInf _ = NInf"
| "f64_add _ NInf = NInf"

fun is_zero :: "fp \<Rightarrow> bool" where
  "is_zero (Fin x) = (x = 0)"
| "is_zero _ = False"

fun f64_mul :: "f64 \<Rightarrow> f64 \<Rightarrow> f64" where
  "f64_mul (Fin x) (Fin y) = f64_of_rat (x * y)"
| "f64_mul a b = (if a = NaN \<or> b = NaN \<or> is_zero a \<or> is_zero b then NaN
     else if fp_neg a \<longleftrightarrow> fp_neg b then PInf else NInf)"

text \<open>Division; a zero divisor is the positive zero.\<close>

fun f64_div :: "f64 \<Rightarrow> f64 \<Rightarrow> f64" where
  "f64_div (Fin x) (Fin y) =
     (if y \<noteq> 0 then f64_of_rat (x / y) else if x = 0 then NaN else if x < 0 then NInf else PInf)"
| "f64_div (Fin x) PInf = Fin 0"
| "f64_div (Fin x) NInf = Fin 0"
| "f64_div PInf (Fin y) = (if y < 0 then NInf else PInf)"
| "f64_div NInf (Fin y) = (if y < 0 then PInf else NInf)"
| "f64_div _ _ = NaN"

text \<open>Single precision: 24 significant digits, smallest distance \<open>2 powi (-149)\<close>.\<close>

definition f32_of_rat :: "rat \<Rightarrow> f32" where
  "f32_of_rat x = (let r = round_fp 24 (- 149) x
     in if 2 ^ 128 \<le> r then PInf else if r \<le> - (2 ^ 128) then NInf else Fin r)"

fun f32_div :: "f32 \<Rightarrow> f32 \<Rightarrow> f32" where
  "f32_div (Fin x) (Fin y) =
     (if y \<noteq> 0 then f32_of_rat (x / y) else if x = 0 then NaN else if x < 0 then NInf else PInf)"
| "f32_div (Fin x) PInf = Fin 0"
| "f32_div (Fin x) NInf = Fin 0"
| "f32_div PInf (Fin y) = (if y < 0 then NInf else PInf)"
| "f32_div NInf (Fin y) = (if y < 0 then PInf else NInf)"
| "f32_div _ _ = NaN"

fun f32_add :: "f32 \<Rightarrow> f32 \<Rightarrow> f32" where
  "f32_add (Fin x) (Fin y) = f32_of_rat (x + y)"
| "f32_add NaN _ = NaN"
| "f32_add _ NaN = NaN"
| "f32_add PInf NInf = NaN"
| "f32_add NInf PInf = NaN"
| "f32_add PInf _ = PInf"
| "f32_add _ PInf = PInf"
| "f32_add NInf _ = NInf"
| "f32_add _ NInf = NInf"

fun f32_mul :: "f32 \<Rightarrow> f32 \<Rightarrow> f32" where
  "f32_mul (Fin x) (Fin y) = f32_of_rat (x * y)"
| "f32_mul a b = (if a = NaN \<or> b = NaN \<or> is_zero a \<or> is_zero b then NaN
     else if fp_neg a \<longleftrightarrow> fp_neg b then PInf else NInf)"

text \<open>The values an \<^verbatim>\<open>f32\<close> can have.\<close>

definition is_f32 :: "fp \<Rightarrow> bool" where
  "is_f32 v = (case v of Fin x \<Rightarrow> round_fp 24 (- 149) x = x \<and> - (2 ^ 128) < x \<and> x < 2 ^ 128 | _ \<Rightarrow> True)"

fun fp_negate :: "fp \<Rightarrow> fp" where
  "fp_negate (Fin x) = Fin (- x)"
| "fp_negate PInf = NInf"
| "fp_negate NInf = PInf"
| "fp_negate NaN = NaN"

definition f32_sub :: "f32 \<Rightarrow> f32 \<Rightarrow> f32" where
  "f32_sub a b = f32_add a (fp_negate b)"

text \<open>\<^verbatim>\<open>partial_cmp\<close> restricted to "less than": false as soon as one side is not a number.\<close>

fun fp_lt :: "fp \<Rightarrow> fp \<Rightarrow> bool" where
  "fp_lt (Fin x) (Fin y) = (x < y)"
| "fp_lt NInf (Fin y) = True"
| "fp_lt NInf PInf = True"
| "fp_lt (Fin x) PInf = True"
| "fp_lt _ _ = False"

definition fp_le :: "fp \<Rightarrow> fp \<Rightarrow> bool" where
  "fp_le a b \<longleftrightarrow> fp_lt a b \<or> (a = b \<and> a \<noteq> NaN)"

text \<open>\<^verbatim>\<open>f64::min\<close> and \<^verbatim>\<open>f64::max\<close>: the other operand when one is not a number.\<close>

definition fp_min :: "fp \<Rightarrow> fp \<Rightarrow> fp" where
  "fp_min a b = (if a = NaN then b else if b = NaN then a else if fp_lt b a then b else a)"

definition fp_max :: "fp \<Rightarrow> fp \<Rightarrow> fp" where
  "fp_max a b = (if a = NaN then b else if b = NaN then a else if fp_lt a b then b else a)"

text \<open>\<^verbatim>\<open>x as uN\<close>: truncation towards zero, saturating, zero for \<^verbatim>\<open>NaN\<close>.\<close>

fun fp_to_uint :: "nat \<Rightarrow> fp \<Rightarrow> nat" where
  "fp_to_uint w (Fin x) = (if x \<le> 0 then 0 else min (nat \<lfloor>x\<rfloor>) (2 ^ w - 1))"
| "fp_to_uint w PInf = 2 ^ w - 1"
| "fp_to_uint w NInf = 0"
| "fp_to_uint w NaN = 0"

section \<open>The order\<close>

lemma fp_lt_irrefl [simp]: "\<not> fp_lt a a"
  by (cases a) auto

lemma fp_lt_asym: "fp_lt a b \<Longrightarrow> \<not> fp_lt b a"
  by (cases a; cases b) auto

lemma fp_lt_trans: "fp_lt a b \<Longrightarrow> fp_lt b c \<Longrightarrow> fp_lt a c"
  by (cases a; cases b; cases c) auto

lemma fp_lt_linear: "a \<noteq> NaN \<Longrightarrow> b \<noteq> NaN \<Longrightarrow> \<not> fp_lt a b \<Longrightarrow> \<not> fp_lt b a \<Longrightarrow> a = b"
  by (cases a; cases b) auto

lemma fp_not_lt_trans: "\<not> fp_lt a b \<Longrightarrow> \<not> fp_lt b c \<Longrightarrow> b \<noteq> NaN \<Longrightarrow> \<not> fp_lt a c"
  by (cases a; cases b; cases c) auto

lemma fp_lt_not_NaN: "fp_lt a b \<Longrightarrow> a \<noteq> NaN \<and> b \<noteq> NaN"
  by (cases a; cases b) auto

lemma fp_lt_if_not_greater: "fp_lt m x \<Longrightarrow> \<not> fp_lt m y \<Longrightarrow> y = NaN \<or> fp_lt y x"
  by (cases m; cases x; cases y) auto

section \<open>The laws of rounding\<close>

lemma rne_of_int [simp]: "rne (of_int k) = k"
  by (simp add: rne_def)

lemma rne_bounds: "\<lfloor>x\<rfloor> \<le> rne x \<and> rne x \<le> \<lfloor>x\<rfloor> + 1"
  by (simp add: rne_def Let_def)

lemma rne_mono: "x \<le> y \<Longrightarrow> rne x \<le> rne y"
proof (cases "\<lfloor>x\<rfloor> = \<lfloor>y\<rfloor>")
  case True
  assume "x \<le> y"
  then show ?thesis using True by (simp add: rne_def Let_def)
next
  case False
  assume "x \<le> y"
  then have "\<lfloor>x\<rfloor> \<le> \<lfloor>y\<rfloor>" by (rule floor_mono)
  with False have "\<lfloor>x\<rfloor> + 1 \<le> \<lfloor>y\<rfloor>" by simp
  with rne_bounds [of x] rne_bounds [of y] show ?thesis by linarith
qed

lemma rne_ge_int: "of_int k \<le> x \<Longrightarrow> k \<le> rne x"
  using rne_mono [of "of_int k" x] by simp

lemma rne_le_int: "x \<le> of_int k \<Longrightarrow> rne x \<le> k"
  using rne_mono [of x "of_int k"] by simp

lemma bitlen_powi_bounds:
  assumes "0 < (n::int)"
  shows "(2::rat) powi (bitlen n - 1) \<le> of_int n" and "of_int n < (2::rat) powi (bitlen n)"
proof -
  have b: "2 ^ nat (bitlen n - 1) \<le> n" "n < 2 ^ nat (bitlen n)" and p: "0 < bitlen n"
    using assms bitlen_bounds [of n] bitlen_nonneg [of n] bitlen_eq_zero_iff [of n] by auto
  have "(2::rat) powi (bitlen n - 1) = of_int (2 ^ nat (bitlen n - 1))"
    using p by (simp add: power_int_def)
  also have "\<dots> \<le> of_int n" using b(1) by (simp only: of_int_le_iff)
  finally show "(2::rat) powi (bitlen n - 1) \<le> of_int n" .
  have "of_int n < (of_int (2 ^ nat (bitlen n)) :: rat)" using b(2) by (simp only: of_int_less_iff)
  also have "\<dots> = 2 powi (bitlen n)" using p by (simp add: power_int_def)
  finally show "of_int n < (2::rat) powi (bitlen n)" .
qed

lemma ilog2_bounds:
  assumes "0 < x"
  shows "2 powi (ilog2 x) \<le> x" and "x < 2 powi (ilog2 x + 1)"
proof -
  obtain n d where q: "quotient_of x = (n, d)" by (cases "quotient_of x")
  define k where "k = bitlen n - bitlen d"
  have d: "0 < d" and x: "x = of_int n / of_int d"
    using q by (auto intro: quotient_of_denom_pos quotient_of_div)
  with assms have n: "0 < n" by (simp add: zero_less_divide_iff)
  note bn = bitlen_powi_bounds [OF n] and bd = bitlen_powi_bounds [OF d]
  have "x < 2 powi (bitlen n) / 2 powi (bitlen d - 1)"
    unfolding x using bn bd by (intro frac_less) (use n in auto)
  then have up: "x < 2 powi (k + 1)"
    by (simp add: k_def power_int_diff [symmetric] algebra_simps)
  have "2 powi (bitlen n - 1) / 2 powi (bitlen d) < x"
    unfolding x using bn bd d n by (intro frac_less2) auto
  then have lo: "2 powi (k - 1) < x"
    by (simp add: k_def power_int_diff [symmetric] algebra_simps)
  have eq: "ilog2 x = (if 2 powi k \<le> x then k else k - 1)"
    by (simp add: ilog2_def q k_def)
  show "2 powi (ilog2 x) \<le> x" using lo by (simp add: eq)
  show "x < 2 powi (ilog2 x + 1)" using up by (simp add: eq)
qed

lemma powi_le_mono: "j \<le> k \<Longrightarrow> (2::rat) powi j \<le> 2 powi k"
  by (intro power_int_increasing) auto

lemma ilog2_unique: "0 < x \<Longrightarrow> 2 powi k \<le> x \<Longrightarrow> x < 2 powi (k + 1) \<Longrightarrow> ilog2 x = k"
proof (rule antisym)
  assume a: "0 < x" "2 powi k \<le> x" "x < 2 powi (k + 1)"
  show "ilog2 x \<le> k"
  proof (rule ccontr)
    assume "\<not> ilog2 x \<le> k"
    then have "(2::rat) powi (k + 1) \<le> 2 powi (ilog2 x)" by (intro powi_le_mono) simp
    with a ilog2_bounds [of x] show False by linarith
  qed
  show "k \<le> ilog2 x"
  proof (rule ccontr)
    assume "\<not> k \<le> ilog2 x"
    then have "(2::rat) powi (ilog2 x + 1) \<le> 2 powi k" by (intro powi_le_mono) simp
    with a ilog2_bounds [of x] show False by linarith
  qed
qed

lemma ilog2_mono: "0 < x \<Longrightarrow> x \<le> y \<Longrightarrow> ilog2 x \<le> ilog2 y"
proof (rule ccontr)
  assume a: "0 < x" "x \<le> y" and "\<not> ilog2 x \<le> ilog2 y"
  then have "(2::rat) powi (ilog2 y + 1) \<le> 2 powi (ilog2 x)" by (intro powi_le_mono) simp
  with a ilog2_bounds [of x] ilog2_bounds [of y] show False by linarith
qed

lemma powi_grid: "e \<le> k \<Longrightarrow> \<exists>m::int. (2::rat) powi k = of_int m * 2 powi e"
proof -
  assume "e \<le> k"
  then have "k = e + int (nat (k - e))" by simp
  then have "(2::rat) powi k = 2 powi e * 2 powi int (nat (k - e))"
    by (metis power_int_add zero_neq_numeral)
  then have "(2::rat) powi k = of_int (2 ^ nat (k - e)) * 2 powi e"
    by (simp add: power_int_of_nat del: int_nat_eq)
  then show ?thesis by blast
qed

lemma round_pos_nonneg: "0 \<le> round_pos p e x"
proof (cases "x \<le> 0")
  case False
  then have "0 \<le> x / 2 powi (ulp_exp p e x)" by simp
  then have "0 \<le> rne (x / 2 powi (ulp_exp p e x))" using rne_ge_int [of 0] by simp
  then show ?thesis using False by (simp add: round_pos_def)
qed (simp add: round_pos_def)

lemma round_pos_le_grid:
  assumes "0 < x" "x \<le> t" "t = of_int m * 2 powi (ulp_exp p e x)"
  shows "round_pos p e x \<le> t"
proof -
  have "rne (x / 2 powi (ulp_exp p e x)) \<le> m"
    using assms(2,3) by (intro rne_le_int) (simp add: field_simps)
  then show ?thesis using assms by (simp add: round_pos_def)
qed

lemma round_pos_ge_grid:
  assumes "0 < x" "t \<le> x" "t = of_int m * 2 powi (ulp_exp p e x)"
  shows "t \<le> round_pos p e x"
proof -
  have "m \<le> rne (x / 2 powi (ulp_exp p e x))"
    using assms(2,3) by (intro rne_ge_int) (simp add: field_simps)
  then show ?thesis using assms by (simp add: round_pos_def)
qed

lemma round_pos_mono:
  assumes p: "0 < p" and "x \<le> y"
  shows "round_pos p e x \<le> round_pos p e y"
proof (cases "0 < x")
  case False
  then have "round_pos p e x = 0" by (simp add: round_pos_def)
  then show ?thesis using round_pos_nonneg by simp
next
  case x: True
  with assms have y: "0 < y" by simp
  have l: "ilog2 x \<le> ilog2 y" using x assms by (intro ilog2_mono)
  show ?thesis
  proof (cases "ulp_exp p e x = ulp_exp p e y")
    case True
    have "rne (x / 2 powi (ulp_exp p e y)) \<le> rne (y / 2 powi (ulp_exp p e y))"
      using assms by (intro rne_mono divide_right_mono) auto
    then show ?thesis using x y True by (simp add: round_pos_def)
  next
    case False
    let ?T = "2 powi (ilog2 y) :: rat"
    from False l have ey: "ulp_exp p e y = ilog2 y - int p + 1" and lt: "ilog2 x < ilog2 y"
      and ex: "ulp_exp p e x < ulp_exp p e y"
      by (auto simp: ulp_exp_def max_def split: if_splits)
    obtain m1 where m1: "?T = of_int m1 * 2 powi (ulp_exp p e x)"
      using powi_grid [of "ulp_exp p e x" "ilog2 y"] ex ey p by auto
    obtain m2 where m2: "?T = of_int m2 * 2 powi (ulp_exp p e y)"
      using powi_grid [of "ulp_exp p e y" "ilog2 y"] ey p by auto
    have "x < 2 powi (ilog2 x + 1)" using x by (rule ilog2_bounds)
    also have "\<dots> \<le> ?T" using lt by (intro powi_le_mono) simp
    finally have "x \<le> ?T" by simp
    then have "round_pos p e x \<le> ?T" using x m1 by (intro round_pos_le_grid)
    also have "\<dots> \<le> round_pos p e y"
      using y m2 ilog2_bounds(1) [OF y] by (intro round_pos_ge_grid)
    finally show ?thesis .
  qed
qed

lemma round_fp_mono: "0 < p \<Longrightarrow> x \<le> y \<Longrightarrow> round_fp p e x \<le> round_fp p e y"
  using round_pos_nonneg [of p e y] round_pos_nonneg [of p e "- x"]
  by (auto simp: round_fp_def intro: round_pos_mono order_trans [of _ 0])

text \<open>A number with at most \<open>p\<close> significant digits is left alone.\<close>

lemma round_pos_exact:
  assumes p: "0 < p" and m: "0 \<le> m" "m \<le> 2 ^ p" and k: "e \<le> k" and x: "x = of_int m * 2 powi k"
  shows "round_pos p e x = x"
proof (cases "m = 0")
  case True
  then show ?thesis using x by (simp add: round_pos_def)
next
  case False
  with m x have pos: "0 < x" by simp
  have "\<exists>m'. x = of_int m' * 2 powi (ulp_exp p e x)"
  proof (cases "m = 2 ^ p")
    case True
    then have x2: "x = 2 powi (int p + k)" using x by (simp add: power_int_add)
    have "ilog2 x = int p + k"
      using pos by (rule ilog2_unique) (simp_all add: x2 power_int_add)
    then have "ulp_exp p e x \<le> int p + k" using k p by (simp add: ulp_exp_def)
    then show ?thesis unfolding x2 by (rule powi_grid)
  next
    case False
    with m have "m < 2 ^ p" by simp
    then have "x < of_int (2 ^ p) * 2 powi k" unfolding x by simp
    then have "x < 2 powi (int p + k)" by (simp add: power_int_add)
    moreover have "2 powi (ilog2 x) \<le> x" using pos by (rule ilog2_bounds)
    ultimately have "(2::rat) powi (ilog2 x) < 2 powi (int p + k)" by linarith
    then have "ilog2 x < int p + k"
      by (metis linorder_not_less powi_le_mono)
    then have "ulp_exp p e x \<le> k" using k by (simp add: ulp_exp_def)
    then obtain m' where "(2::rat) powi k = of_int m' * 2 powi (ulp_exp p e x)"
      using powi_grid by blast
    then have "x = of_int (m * m') * 2 powi (ulp_exp p e x)" using x by simp
    then show ?thesis by blast
  qed
  then obtain m' where m': "x = of_int m' * 2 powi (ulp_exp p e x)" ..
  have "round_pos p e x \<le> x" using pos m' by (intro round_pos_le_grid) auto
  moreover have "x \<le> round_pos p e x" using pos m' by (intro round_pos_ge_grid) auto
  ultimately show ?thesis by simp
qed

section \<open>The interface of rounding\<close>

text \<open>
  What the clients of floating point rely on: rounding is monotone and exact on the half
  integers up to \<open>2 ^ 53\<close>.  From the two laws: a product with a factor in \<open>[0, 1]\<close>, a halving
  and a sum of two values below a half stay below the integer bound they started from, however
  the intermediate results are rounded.
\<close>

locale rounding_mode =
  fixes rnd :: "rat \<Rightarrow> rat"
  assumes rnd_mono: "x \<le> y \<Longrightarrow> rnd x \<le> rnd y"
    and rnd_half_int: "m \<le> 2 ^ 53 \<Longrightarrow> rnd (of_nat m / 2) = of_nat m / 2"
begin

lemma rnd_zero: "rnd 0 = 0"
  using rnd_half_int [of 0] by simp

lemma rnd_nat: "m \<le> 2 ^ 52 \<Longrightarrow> rnd (of_nat m) = of_nat m"
  using rnd_half_int [of "2 * m"] by simp

lemma rnd_le_nat: "m \<le> 2 ^ 52 \<Longrightarrow> x \<le> of_nat m \<Longrightarrow> rnd x \<le> of_nat m"
  using rnd_mono [of x "of_nat m"] rnd_nat [of m] by simp

lemma rnd_nonneg: "0 \<le> x \<Longrightarrow> 0 \<le> rnd x"
  using rnd_mono [of 0 x] rnd_zero by simp

lemma rnd_nonpos: "x \<le> 0 \<Longrightarrow> rnd x \<le> 0"
  using rnd_mono [of x 0] rnd_zero by simp

lemma rnd_scale_le:
  assumes "m \<le> 2 ^ 52" "x \<le> of_nat m" "0 \<le> r" "r \<le> 1"
  shows "rnd (x * r) \<le> of_nat m"
proof (rule rnd_le_nat [OF assms(1)])
  have "x * r \<le> max x 0" using assms(3,4) mult_left_le [of r x]
    by (cases "0 \<le> x") (auto simp: mult_nonpos_nonneg)
  also have "\<dots> \<le> of_nat m" using assms(2) by simp
  finally show "x * r \<le> of_nat m" .
qed

lemma rnd_half_le: "m \<le> 2 ^ 52 \<Longrightarrow> x \<le> of_nat m \<Longrightarrow> rnd (x / 2) \<le> of_nat m / 2"
  using rnd_mono [of "x / 2" "of_nat m / 2"] rnd_half_int [of m] by simp

lemma rnd_sum_halves_le:
  assumes "m \<le> 2 ^ 52" "a \<le> of_nat m / 2" "b \<le> of_nat m / 2"
  shows "rnd (a + b) \<le> of_nat m"
  using assms by (intro rnd_le_nat) simp_all

end

lemma round64_exact:
  assumes "m \<le> 2 ^ 53" shows "round64 (of_nat m / 2) = of_nat m / 2"
proof -
  have "round_pos 53 (- 1074) (of_nat m / 2) = of_nat m / 2"
    by (rule round_pos_exact [where m = "int m" and k = "- 1"])
       (use assms in \<open>simp_all add: power_int_minus field_simps\<close>)
  then show ?thesis by (simp add: round64_def round_fp_def)
qed

interpretation r64: rounding_mode round64
proof
  show "x \<le> y \<Longrightarrow> round64 x \<le> round64 y" for x y
    by (simp add: round64_def round_fp_mono)
  show "m \<le> 2 ^ 53 \<Longrightarrow> round64 (of_nat m / 2) = of_nat m / 2" for m
    by (rule round64_exact)
qed

section \<open>Bounds of the operations\<close>

text \<open>\<open>fp_le_nat v m\<close>: the value is a number that does not exceed \<open>m\<close>, or not a number.\<close>

definition fp_le_nat :: "fp \<Rightarrow> nat \<Rightarrow> bool" where
  "fp_le_nat v m \<longleftrightarrow> v = NaN \<or> v = NInf \<or> (\<exists>x. v = Fin x \<and> x \<le> of_nat m)"

lemma big_power: "(2::rat) ^ 52 < 2 ^ 1024"
  by simp

lemma f64_of_rat_le:
  assumes "m \<le> 2 ^ 52" "round64 x \<le> of_nat m"
  shows "fp_le_nat (f64_of_rat x) m"
proof -
  have "(of_nat m :: rat) \<le> 2 ^ 52" using assms(1) by (metis of_nat_le_iff of_nat_numeral of_nat_power)
  then have "\<not> 2 ^ 1024 \<le> round64 x" using assms(2) big_power by linarith
  then show ?thesis using assms(2) by (simp add: fp_le_nat_def f64_of_rat_def Let_def)
qed

lemma f64_of_nat_exact: "m \<le> 2 ^ 52 \<Longrightarrow> f64_of_nat m = Fin (of_nat m)"
proof -
  assume m: "m \<le> 2 ^ 52"
  then have "(of_nat m :: rat) \<le> 2 ^ 52" by (metis of_nat_le_iff of_nat_numeral of_nat_power)
  then have "(of_nat m :: rat) < 2 ^ 1024" using big_power by linarith
  moreover have "\<not> (of_nat m :: rat) \<le> - (2 ^ 1024)"
    by (meson neg_0_less_iff_less not_le of_nat_0_le_iff order_less_le_trans zero_less_numeral zero_less_power neg_less_0_iff_less)
  ultimately show ?thesis using r64.rnd_nat [OF m] by (simp add: f64_of_nat_def f64_of_rat_def Let_def)
qed

lemma fp_min_le: "fp_le_nat b m \<Longrightarrow> b \<noteq> NaN \<Longrightarrow> fp_le_nat (fp_min a b) m \<and> fp_min a b \<noteq> NaN"
  by (cases a; cases b) (auto simp: fp_le_nat_def fp_min_def)

lemma fp_to_uint_le: "fp_le_nat v m \<Longrightarrow> fp_to_uint w (fp_max v (Fin 0)) \<le> m"
  by (cases v) (auto simp: fp_le_nat_def fp_max_def nat_le_iff floor_le_iff min_le_iff_disj
     intro: order_le_less_trans)

lemma f64_mul_le:
  assumes "m \<le> 2 ^ 52" "fp_le_nat v m" "0 \<le> r" "r \<le> 1"
  shows "fp_le_nat (f64_mul v (Fin r)) m"
proof (cases v)
  case (Fin x)
  then have "x \<le> of_nat m" using assms(2) by (simp add: fp_le_nat_def)
  then show ?thesis using Fin assms r64.rnd_scale_le by (simp add: f64_of_rat_le)
qed (use assms in \<open>auto simp: fp_le_nat_def\<close>)

section \<open>Monotone single-precision operations\<close>

lemma f32_of_rat_mono: "x \<le> y \<Longrightarrow> fp_le (f32_of_rat x) (f32_of_rat y)"
  using round_fp_mono [of 24 x y "- 149"] by (auto simp: f32_of_rat_def Let_def fp_le_def)

lemma f32_of_rat_num [simp]: "f32_of_rat z \<noteq> NaN"
  by (simp add: f32_of_rat_def Let_def)

lemma fp_le_refl [simp]: "fp_le a a \<longleftrightarrow> a \<noteq> NaN"
  by (simp add: fp_le_def)

lemma f32_mul_mono:
  assumes "fp_le a b" "0 < k"
  shows "fp_le (f32_mul a (Fin k)) (f32_mul b (Fin k))"
proof -
  have top: "fp_le v PInf \<and> fp_le NInf v" if "v \<noteq> NaN" for v using that by (cases v) (auto simp: fp_le_def)
  show ?thesis
  proof (cases "\<exists>x y. a = Fin x \<and> b = Fin y")
    case True
    then obtain x y where "a = Fin x" "b = Fin y" "x \<le> y" using assms(1) by (auto simp: fp_le_def)
    then show ?thesis using f32_of_rat_mono [of "x * k" "y * k"] assms(2) by simp
  next
    case False
    with assms top show ?thesis by (cases a; cases b) (auto simp: fp_le_def)
  qed
qed

lemma f32_add_nonneg:
  assumes "is_f32 a" "fp_le (Fin 0) d" "a \<noteq> NaN" "f32_add a d \<noteq> NaN"
  shows "fp_le a (f32_add a d)"
proof (cases "(a, d)" rule: f32_add.cases)
  case (1 x y)
  then have "0 \<le> y" using assms(2) by (simp add: fp_le_def order_le_less)
  then have "fp_le (f32_of_rat x) (f32_of_rat (x + y))" by (intro f32_of_rat_mono) simp
  moreover have "f32_of_rat x = Fin x" using assms(1) 1 by (simp add: is_f32_def f32_of_rat_def Let_def)
  ultimately show ?thesis using 1 by simp
qed (use assms in \<open>auto simp: fp_le_def\<close>)

lemma fp_to_uint_mono: "fp_le a b \<Longrightarrow> fp_to_uint w a \<le> fp_to_uint w b"
  by (cases a; cases b) (auto simp: fp_le_def nat_mono floor_mono min.coboundedI1 intro: min.mono)

lemma fp_max_mono: "fp_le a b \<Longrightarrow> c \<noteq> NaN \<Longrightarrow> fp_le (fp_max a c) (fp_max b c)"
  by (cases a; cases b; cases c) (auto simp: fp_le_def fp_max_def)

end
