(* ===== verification/Core_Runtime.thy ===== *)
theory Core_Runtime
  imports Prelude
begin

text \<open>
  \<^verbatim>\<open>inference-core/src/runtime.rs\<close> and \<^verbatim>\<open>registry.rs\<close>: the taxonomy of runtimes, transports and
  providers, the per-deployment runtime configuration, and the default runtime inferred from a
  model name.  A JSON body (\<^verbatim>\<open>serde_json::Value\<close>) is opaque to this code and is the type
  variable \<open>'j\<close>.  The lemmas: the three views of a runtime kind (remote, audio, transport)
  agree; the inference is case-insensitive and its branches are characterised by the model name.
\<close>

section \<open>Taxonomy\<close>

datatype provider_kind =
    OpenAi | Anthropic | Gemini | LiteLlm | Deepgram | AssemblyAi | ElevenLabs | NvidiaA2F
  | Custom string

datatype transport_kind = LocalGpu | LocalCpu | RemoteNetwork provider_kind | UnknownTransport

datatype runtime_kind =
    Vllm | TensorRt | Ort | Candle | Cudarc | MistralRs | Python string
  | OpenAi | Anthropic | Gemini | LiteLlm
  | SpeechToText | TextToSpeech | RealtimeSpeech | Audio2Face
  | Custom string

fun is_remote :: "runtime_kind \<Rightarrow> bool" where
  "is_remote runtime_kind.OpenAi = True"
| "is_remote runtime_kind.Anthropic = True"
| "is_remote runtime_kind.Gemini = True"
| "is_remote runtime_kind.LiteLlm = True"
| "is_remote _ = False"

definition is_local :: "runtime_kind \<Rightarrow> bool" where
  "is_local k \<longleftrightarrow> \<not> is_remote k"

fun is_audio :: "runtime_kind \<Rightarrow> bool" where
  "is_audio SpeechToText = True"
| "is_audio TextToSpeech = True"
| "is_audio RealtimeSpeech = True"
| "is_audio Audio2Face = True"
| "is_audio _ = False"

text \<open>\<^verbatim>\<open>impl From<&RuntimeKind> for TransportKind\<close>.\<close>

fun transport_of_runtime :: "runtime_kind \<Rightarrow> transport_kind" where
  "transport_of_runtime runtime_kind.OpenAi = RemoteNetwork provider_kind.OpenAi"
| "transport_of_runtime runtime_kind.Anthropic = RemoteNetwork provider_kind.Anthropic"
| "transport_of_runtime runtime_kind.Gemini = RemoteNetwork provider_kind.Gemini"
| "transport_of_runtime runtime_kind.LiteLlm = RemoteNetwork provider_kind.LiteLlm"
| "transport_of_runtime Vllm = LocalGpu"
| "transport_of_runtime TensorRt = LocalGpu"
| "transport_of_runtime Ort = LocalGpu"
| "transport_of_runtime Candle = LocalGpu"
| "transport_of_runtime Cudarc = LocalGpu"
| "transport_of_runtime MistralRs = LocalGpu"
| "transport_of_runtime (Python _) = LocalGpu"
| "transport_of_runtime SpeechToText = UnknownTransport"
| "transport_of_runtime TextToSpeech = UnknownTransport"
| "transport_of_runtime RealtimeSpeech = UnknownTransport"
| "transport_of_runtime Audio2Face = UnknownTransport"
| "transport_of_runtime (runtime_kind.Custom _) = UnknownTransport"

section \<open>Runtime configuration\<close>

datatype 'j runtime_config =
    Vllm 'j | TensorRt 'j | Ort 'j | Candle 'j | Cudarc 'j | MistralRs 'j
  | OpenAi 'j | Anthropic 'j | Gemini 'j | LiteLlm 'j
  | SpeechToText 'j | TextToSpeech 'j | RealtimeSpeech 'j | Audio2Face 'j
  | Custom string 'j

fun config_runtime_kind :: "'j runtime_config \<Rightarrow> runtime_kind" where
  "config_runtime_kind (runtime_config.Vllm _) = runtime_kind.Vllm"
| "config_runtime_kind (runtime_config.TensorRt _) = runtime_kind.TensorRt"
| "config_runtime_kind (runtime_config.Ort _) = runtime_kind.Ort"
| "config_runtime_kind (runtime_config.Candle _) = runtime_kind.Candle"
| "config_runtime_kind (runtime_config.Cudarc _) = runtime_kind.Cudarc"
| "config_runtime_kind (runtime_config.MistralRs _) = runtime_kind.MistralRs"
| "config_runtime_kind (runtime_config.OpenAi _) = runtime_kind.OpenAi"
| "config_runtime_kind (runtime_config.Anthropic _) = runtime_kind.Anthropic"
| "config_runtime_kind (runtime_config.Gemini _) = runtime_kind.Gemini"
| "config_runtime_kind (runtime_config.LiteLlm _) = runtime_kind.LiteLlm"
| "config_runtime_kind (runtime_config.SpeechToText _) = runtime_kind.SpeechToText"
| "config_runtime_kind (runtime_config.TextToSpeech _) = runtime_kind.TextToSpeech"
| "config_runtime_kind (runtime_config.RealtimeSpeech _) = runtime_kind.RealtimeSpeech"
| "config_runtime_kind (runtime_config.Audio2Face _) = runtime_kind.Audio2Face"
| "config_runtime_kind (runtime_config.Custom kind _) = runtime_kind.Custom kind"

definition config_transport_kind :: "'j runtime_config \<Rightarrow> transport_kind" where
  "config_transport_kind c = transport_of_runtime (config_runtime_kind c)"

record circuit_breaker_config =
  failure_threshold :: u32
  open_duration :: duration
  half_open_max_probes :: u32

definition default_circuit_breaker_config :: circuit_breaker_config where
  "default_circuit_breaker_config =
     \<lparr>failure_threshold = 10, open_duration = from_secs 30, half_open_max_probes = 1\<rparr>"

datatype jitter_kind = NoJitter | Equal | Full

text \<open>
  \<^verbatim>\<open>humantime_serde_ms\<close>: a duration is stored as its whole milliseconds truncated to 64 bits.
\<close>

definition duration_to_ms :: "duration \<Rightarrow> u64" where
  "duration_to_ms d = u64_of_nat (as_millis d)"

definition duration_of_ms :: "u64 \<Rightarrow> duration" where
  "duration_of_ms ms = from_millis (unat ms)"

section \<open>Default runtime selection\<close>

definition matches_any :: "string \<Rightarrow> string list \<Rightarrow> bool" where
  "matches_any model prefixes \<longleftrightarrow> (\<exists>p \<in> set prefixes. starts_with model p)"

definition openai_prefixes :: "string list" where
  "openai_prefixes =
     [''gpt-4'', ''gpt-4o'', ''gpt-4-turbo'', ''gpt-3.5'', ''o1-'', ''o3-'', ''chatgpt-'']"

definition infer_runtime :: "string \<Rightarrow> runtime_kind" where
  "infer_runtime model =
     (let m = to_ascii_lowercase model in
      if matches_any m openai_prefixes then runtime_kind.OpenAi
      else if starts_with m ''claude-'' \<or> starts_with m ''anthropic/'' then runtime_kind.Anthropic
      else if starts_with m ''gemini-'' \<or> starts_with m ''google/gemini'' then runtime_kind.Gemini
      else if contains m ''via-litellm'' \<or> starts_with m ''litellm/'' then runtime_kind.LiteLlm
      else if contains m ''mistral'' then runtime_kind.MistralRs
      else runtime_kind.Vllm)"

section \<open>Properties\<close>

lemma remote_iff_network: "is_remote k \<longleftrightarrow> (\<exists>p. transport_of_runtime k = RemoteNetwork p)"
  by (cases k) auto

lemma audio_unknown_transport: "is_audio k \<Longrightarrow> transport_of_runtime k = UnknownTransport"
  by (cases k) auto

lemma never_local_cpu: "transport_of_runtime k \<noteq> LocalCpu"
  by (cases k) auto

lemma infer_runtime_range:
  "infer_runtime m \<in> {runtime_kind.OpenAi, runtime_kind.Anthropic, runtime_kind.Gemini,
     runtime_kind.LiteLlm, runtime_kind.MistralRs, runtime_kind.Vllm}"
  by (simp add: infer_runtime_def Let_def)

lemma infer_runtime_not_audio: "\<not> is_audio (infer_runtime m)"
  using infer_runtime_range [of m] by auto

lemma infer_runtime_placeable: "transport_of_runtime (infer_runtime m) \<noteq> UnknownTransport"
  using infer_runtime_range [of m] by auto

lemma infer_runtime_case_insensitive: "infer_runtime (to_ascii_lowercase m) = infer_runtime m"
  by (simp add: infer_runtime_def)

lemma infer_runtime_OpenAi_iff:
  "infer_runtime m = runtime_kind.OpenAi \<longleftrightarrow> matches_any (to_ascii_lowercase m) openai_prefixes"
  by (simp add: infer_runtime_def Let_def)

lemma duration_ms_roundtrip: "duration_to_ms (duration_of_ms ms) = ms"
  by (simp add: duration_to_ms_def duration_of_ms_def u64_of_nat_def)

lemma duration_ms_truncates:
  assumes "as_millis d < 2 ^ 64"
  shows "duration_of_ms (duration_to_ms d) = d - d mod 1000000"
proof -
  have "unat (duration_to_ms d) = as_millis d"
    using assms by (simp add: duration_to_ms_def unat_u64_of_nat)
  then show ?thesis
    by (simp add: duration_of_ms_def from_millis_def as_millis_def minus_mod_eq_div_mult)
qed

end
