(* ===== verification/Core_Types.thy ===== *)
theory Core_Types
  imports Core_Runtime Binary_Float
begin

text \<open>
  The value objects of \<^verbatim>\<open>inference-core\<close>: the typed error surface (\<^verbatim>\<open>error.rs\<close>), batches and
  messages (\<^verbatim>\<open>batch.rs\<close>), the deployment object with its policies (\<^verbatim>\<open>deployment.rs\<close>), token
  chunks and their accumulation (\<^verbatim>\<open>tokens.rs\<close>) and the cost estimate (\<^verbatim>\<open>cost.rs\<close>).  The lemmas
  relate the two error classifications, characterise validation, and show that accumulating a
  stream of chunks is concatenation of the texts, pointwise addition of the usages and the last
  finish reason.
\<close>

section \<open>Errors\<close>

datatype inference_error =
    RateLimited provider_kind "duration option"
  | CircuitOpen provider_kind u64 u64
  | ContentFiltered string
  | ContextLengthExceeded u32 u32
  | BadRequest string
  | Unauthorized string
  | Forbidden string
  | Backpressure string
  | BudgetExceeded string
  | NetworkError string
  | ServerError u16 "string option"
  | Timeout u64
  | CudaContextPoisoned string
  | Unsupported string runtime_kind
  | UnsupportedAudioFormat string
  | RealtimeClosed string
  | Internal string

type_synonym 'a inference_result = "inference_error + 'a"

fun is_retryable :: "inference_error \<Rightarrow> bool" where
  "is_retryable (RateLimited _ _) = True"
| "is_retryable (ServerError _ _) = True"
| "is_retryable (Timeout _) = True"
| "is_retryable (NetworkError _) = True"
| "is_retryable _ = False"

fun counts_as_circuit_failure :: "inference_error \<Rightarrow> bool" where
  "counts_as_circuit_failure (ServerError _ _) = True"
| "counts_as_circuit_failure (Timeout _) = True"
| "counts_as_circuit_failure (NetworkError _) = True"
| "counts_as_circuit_failure _ = False"

text \<open>\<^verbatim>\<open>duration_opt_ms\<close>: the optional retry-after as milliseconds.\<close>

definition retry_after_to_ms :: "duration option \<Rightarrow> u64 option" where
  "retry_after_to_ms d = map_option duration_to_ms d"

definition retry_after_of_ms :: "u64 option \<Rightarrow> duration option" where
  "retry_after_of_ms m = map_option duration_of_ms m"

section \<open>Batches\<close>

datatype role = System | User | Assistant | Tool

datatype content_part = Text string | ImageBase64 string string | ImageUrl string

datatype message_content = Text string | Parts "content_part list"

record message =
  role :: role
  content :: message_content

record sampling_params =
  temperature :: "f32 option"
  top_p :: "f32 option"
  top_k :: "u32 option"
  max_tokens :: "u32 option"
  stop :: "string list"
  presence_penalty :: "f32 option"
  frequency_penalty :: "f32 option"
  seed :: "u64 option"

definition default_sampling_params :: sampling_params where
  "default_sampling_params = \<lparr>temperature = None, top_p = None, top_k = None, max_tokens = None,
     stop = [], presence_penalty = None, frequency_penalty = None, seed = None\<rparr>"

record execute_batch =
  request_id :: string
  model :: string
  messages :: "message list"
  sampling :: sampling_params
  stream :: bool
  estimated_tokens_field :: u32

definition estimated_tokens :: "execute_batch \<Rightarrow> u32" where
  "estimated_tokens b = max (estimated_tokens_field b) 1"

section \<open>Deployments\<close>

datatype capacity_policy = Reject | Queue | Fallback

record serving =
  max_concurrent :: u32
  on_capacity_exhausted :: capacity_policy

definition default_serving :: serving where
  "default_serving = \<lparr>max_concurrent = 32, on_capacity_exhausted = Queue\<rparr>"

datatype budget_action = Reject | Warn | Throttle

record budget =
  max_spend_per_hour_usd :: "f64 option"
  max_spend_per_day_usd :: "f64 option"
  on_exceeded :: budget_action

record 'j deployment =
  dep_name :: string
  dep_model :: string
  dep_runtime :: "runtime_kind option"
  dep_runtime_config :: "'j runtime_config option"
  dep_gpus :: "u32 option"
  dep_replicas :: u32
  dep_serving :: serving
  dep_budget :: "budget option"
  dep_idempotent :: bool

definition default_replicas :: u32 where
  "default_replicas = 1"

definition default_idempotent :: bool where
  "default_idempotent = True"

datatype deployment_validation_error =
    EmptyName | EmptyModel | ZeroReplicas | RateLimitTooHigh string

text \<open>The explicit runtime wins, then the configuration's, then the one inferred from the model.\<close>

definition effective_runtime :: "'j deployment \<Rightarrow> runtime_kind" where
  "effective_runtime d =
     (case dep_runtime d of
        Some k \<Rightarrow> k
      | None \<Rightarrow> (case map_option config_runtime_kind (dep_runtime_config d) of
          Some k \<Rightarrow> k
        | None \<Rightarrow> infer_runtime (dep_model d)))"

definition validate :: "'j deployment \<Rightarrow> deployment_validation_error + unit" where
  "validate d =
     (if dep_name d = [] then Inl EmptyName
      else if dep_model d = [] then Inl EmptyModel
      else if dep_replicas d = 0 then Inl ZeroReplicas
      else Inr ())"

text \<open>The \<^verbatim>\<open>Display\<close> text of a validation error.\<close>

fun show_validation_error :: "deployment_validation_error \<Rightarrow> string" where
  "show_validation_error EmptyName = ''deployment name must not be empty''"
| "show_validation_error EmptyModel = ''deployment model must not be empty''"
| "show_validation_error ZeroReplicas = ''deployment must have at least one replica''"
| "show_validation_error (RateLimitTooHigh s) = ''rate limits exceed known provider tier: '' @ s"

record replica =
  rep_deployment :: string
  replica_index :: u32
  rep_node :: "string option"
  gpu_indices :: "u32 list"

record rate_limits =
  requests_per_minute :: "u64 option"
  tokens_per_minute :: "u64 option"
  concurrent_requests :: "u32 option"
  strict :: bool

record retry_policy =
  max_retries :: u32
  initial_backoff :: duration
  max_backoff :: duration
  backoff_multiplier :: f64
  jitter :: jitter_kind
  respect_retry_after :: bool

definition default_retry_policy :: retry_policy where
  "default_retry_policy = \<lparr>max_retries = 3, initial_backoff = from_millis 1000,
     max_backoff = from_millis 60000, backoff_multiplier = Fin 2, jitter = Equal,
     respect_retry_after = True\<rparr>"

record timeouts =
  request_timeout :: duration
  read_timeout :: duration

definition default_timeouts :: timeouts where
  "default_timeouts = \<lparr>request_timeout = from_millis 30000, read_timeout = from_millis 10000\<rparr>"

section \<open>Token chunks\<close>

datatype finish_reason = Stop | Length | ToolCalls | ContentFilter | Error

record token_usage =
  input_tokens :: u32
  output_tokens :: u32
  reasoning_tokens :: u32
  cached_tokens :: u32

definition default_token_usage :: token_usage where
  "default_token_usage =
     \<lparr>input_tokens = 0, output_tokens = 0, reasoning_tokens = 0, cached_tokens = 0\<rparr>"

text \<open>\<^verbatim>\<open>TokenUsage::add\<close>; the additions wrap, as in a build without overflow checks.\<close>

definition usage_add :: "token_usage \<Rightarrow> token_usage \<Rightarrow> token_usage" where
  "usage_add self other = self\<lparr>
     input_tokens := input_tokens self + input_tokens other,
     output_tokens := output_tokens self + output_tokens other,
     reasoning_tokens := reasoning_tokens self + reasoning_tokens other,
     cached_tokens := cached_tokens self + cached_tokens other\<rparr>"

record 'j token_chunk =
  tc_request_id :: string
  text_delta :: string
  tool_call_delta :: "'j option"
  tc_usage :: "token_usage option"
  tc_finish_reason :: "finish_reason option"

record tokens =
  tk_request_id :: string
  tk_text :: string
  tk_usage :: token_usage
  tk_finish_reason :: "finish_reason option"

definition default_tokens :: tokens where
  "default_tokens = \<lparr>tk_request_id = [], tk_text = [], tk_usage = default_token_usage,
     tk_finish_reason = None\<rparr>"

definition tokens_append :: "tokens \<Rightarrow> 'j token_chunk \<Rightarrow> tokens" where
  "tokens_append t c =
     (let t1 = t\<lparr>tk_text := tk_text t @ text_delta c\<rparr>;
          t2 = (case tc_usage c of
                  Some u \<Rightarrow> t1\<lparr>tk_usage := usage_add (tk_usage t1) u\<rparr>
                | None \<Rightarrow> t1)
      in (case tc_finish_reason c of
            Some r \<Rightarrow> t2\<lparr>tk_finish_reason := Some r\<rparr>
          | None \<Rightarrow> t2))"

text \<open>The texts of the data chunks of an answer, in order.\<close>

definition answer_text :: "(inference_error + 'j token_chunk) list \<Rightarrow> string" where
  "answer_text items = concat (map (\<lambda>x. case x of Inr c \<Rightarrow> text_delta c | Inl _ \<Rightarrow> []) items)"

lemma answer_text_simps [simp]:
  "answer_text [] = []" "answer_text (Inr c # xs) = text_delta c @ answer_text xs"
  "answer_text (Inl e # xs) = answer_text xs" "answer_text (xs @ ys) = answer_text xs @ answer_text ys"
  by (simp_all add: answer_text_def)

section \<open>Cost\<close>

record cost_estimate =
  usd :: f64
  input_tokens_reserved :: u32
  output_tokens_max :: u32

text \<open>\<^verbatim>\<open>from_rates\<close>: four fifths of the estimate are input, the rest output.\<close>

definition from_rates :: "f64 \<Rightarrow> f64 \<Rightarrow> execute_batch \<Rightarrow> cost_estimate" where
  "from_rates input_per_mtok output_per_mtok b =
     (let in_t = estimated_tokens b;
          in_share = (word_of_nat (fp_to_uint 32 (f64_mul (f64_of_nat (unat in_t)) (f64_of_rat (4 / 5)))) :: u32);
          out_share = in_t - in_share;
          million = Fin 1000000;
          total = f64_add (f64_div (f64_mul (f64_of_nat (unat in_share)) input_per_mtok) million)
                          (f64_div (f64_mul (f64_of_nat (unat out_share)) output_per_mtok) million)
      in \<lparr>usd = total, input_tokens_reserved = in_share, output_tokens_max = out_share\<rparr>)"

section \<open>Properties\<close>

lemma circuit_failure_retryable: "counts_as_circuit_failure e \<Longrightarrow> is_retryable e"
  by (cases e) auto

lemma retryable_not_circuit_iff:
  "is_retryable e \<and> \<not> counts_as_circuit_failure e \<longleftrightarrow> (\<exists>p d. e = RateLimited p d)"
  by (cases e) auto

lemma estimated_tokens_pos: "0 < unat (estimated_tokens b)"
  by (auto simp: estimated_tokens_def max_def word_le_nat_alt)

lemma validate_ok_iff:
  "validate d = Inr () \<longleftrightarrow> dep_name d \<noteq> [] \<and> dep_model d \<noteq> [] \<and> dep_replicas d \<noteq> 0"
  by (simp add: validate_def)

lemma usage_add_assoc: "usage_add (usage_add a b) c = usage_add a (usage_add b c)"
  by (simp add: usage_add_def add.assoc)

lemma usage_add_default [simp]: "usage_add u default_token_usage = u"
  by (simp add: usage_add_def default_token_usage_def)

lemma usage_add_default_left: "usage_add default_token_usage u = u"
  by (simp add: usage_add_def default_token_usage_def)

text \<open>The usages of a chunk list in order, and the last finish reason it carries.\<close>

definition usages :: "'j token_chunk list \<Rightarrow> token_usage list" where
  "usages cs = List.map_filter tc_usage cs"

definition finish_reasons :: "'j token_chunk list \<Rightarrow> finish_reason list" where
  "finish_reasons cs = List.map_filter tc_finish_reason cs"

lemma usages_simps [simp]:
  "usages [] = []"
  "usages (c # cs) = (case tc_usage c of None \<Rightarrow> usages cs | Some u \<Rightarrow> u # usages cs)"
  by (simp_all add: usages_def split: option.splits)

lemma finish_reasons_simps [simp]:
  "finish_reasons [] = []"
  "finish_reasons (c # cs) =
     (case tc_finish_reason c of None \<Rightarrow> finish_reasons cs | Some r \<Rightarrow> r # finish_reasons cs)"
  by (simp_all add: finish_reasons_def split: option.splits)

lemma tokens_append_fields:
  "tk_request_id (tokens_append t c) = tk_request_id t"
  "tk_text (tokens_append t c) = tk_text t @ text_delta c"
  "tk_usage (tokens_append t c) =
     (case tc_usage c of None \<Rightarrow> tk_usage t | Some u \<Rightarrow> usage_add (tk_usage t) u)"
  "tk_finish_reason (tokens_append t c) =
     (case tc_finish_reason c of None \<Rightarrow> tk_finish_reason t | Some r \<Rightarrow> Some r)"
  by (simp_all add: tokens_append_def Let_def split: option.splits)

lemma tokens_accumulate:
  "tk_request_id (foldl tokens_append t cs) = tk_request_id t \<and>
   tk_text (foldl tokens_append t cs) = tk_text t @ concat (map text_delta cs) \<and>
   tk_usage (foldl tokens_append t cs) = foldl usage_add (tk_usage t) (usages cs) \<and>
   tk_finish_reason (foldl tokens_append t cs) =
     (if finish_reasons cs = [] then tk_finish_reason t else Some (last (finish_reasons cs)))"
  by (induction cs arbitrary: t) (simp_all add: tokens_append_fields split: option.splits)

lemma round64_four_fifths: "0 \<le> round64 (4 / 5)" "round64 (4 / 5) \<le> 1"
  using r64.rnd_mono [of "4 / 5" 1] r64.rnd_nat [of 1] r64.rnd_nonneg [of "4 / 5"] by simp_all

lemma f64_four_fifths: "f64_of_rat (4 / 5) = Fin (round64 (4 / 5))"
  using round64_four_fifths by (simp add: f64_of_rat_def Let_def)

lemma fp_to_uint_le_nat: "fp_le_nat v m \<Longrightarrow> fp_to_uint w v \<le> m"
  by (cases v) (auto simp: fp_le_nat_def nat_le_iff floor_le_iff min_le_iff_disj
     intro: order_le_less_trans)

lemma input_share_le:
  "fp_to_uint 32 (f64_mul (f64_of_nat (unat (t :: u32))) (f64_of_rat (4 / 5))) \<le> unat t"
proof -
  have t: "unat t \<le> 2 ^ 52" using unat_u32_bound [of t] by simp
  have "fp_le_nat (f64_of_nat (unat t)) (unat t)"
    by (simp add: f64_of_nat_exact [OF t] fp_le_nat_def)
  then have "fp_le_nat (f64_mul (f64_of_nat (unat t)) (f64_of_rat (4 / 5))) (unat t)"
    unfolding f64_four_fifths using t round64_four_fifths by (intro f64_mul_le)
  then show ?thesis by (rule fp_to_uint_le_nat)
qed

lemma from_rates_split:
  "unat (input_tokens_reserved (from_rates i out b)) + unat (output_tokens_max (from_rates i out b))
     = unat (estimated_tokens b)"
proof -
  let ?t = "estimated_tokens b"
  let ?n = "fp_to_uint 32 (f64_mul (f64_of_nat (unat ?t)) (f64_of_rat (4 / 5)))"
  have le: "?n \<le> unat ?t" by (rule input_share_le)
  then have n: "unat (word_of_nat ?n :: u32) = ?n"
    using unat_u32_bound [of ?t] by (simp add: unat_of_nat)
  then have "unat (?t - word_of_nat ?n) = unat ?t - ?n"
    using le by (simp add: unat_sub word_le_nat_alt)
  then show ?thesis using le n by (simp add: from_rates_def Let_def)
qed

end
