(* ===== verification/Base64.thy ===== *)
theory Base64
  imports Prelude
begin

text \<open>
  The module \<^verbatim>\<open>base64_compat\<close> of \<^verbatim>\<open>inference-core/src/audio.rs\<close> and the serde adapter
  \<^verbatim>\<open>bytes_b64\<close> over it: the self-contained base64 codec through which audio bytes are persisted.
  The 24-bit group and the decoder's bit buffer are 32-bit words with the source's shifts and masks;
  the number of buffered bits, at most twelve, is a natural number.
\<close>

unbundle bit_operations_syntax

section \<open>Definitions\<close>

definition b64_table :: string where
  "b64_table = ''ABCDEFGHIJKLMNOPQRSTUVWXYZabcdefghijklmnopqrstuvwxyz0123456789+/''"

definition b64_char :: "u32 \<Rightarrow> char" where
  "b64_char v = b64_table ! unat v"

definition sextet :: "nat \<Rightarrow> u32 \<Rightarrow> u32" where
  "sextet k n = drop_bit k n AND 63"

text \<open>\<^verbatim>\<open>encode\<close>: the exact chunks of three, then the remainder.\<close>

fun b64_encode :: "u8 list \<Rightarrow> string" where
  "b64_encode (a # b # c # rest) =
     (let n = push_bit 16 (ucast a) OR push_bit 8 (ucast b) OR ucast c in
      [b64_char (sextet 18 n), b64_char (sextet 12 n), b64_char (sextet 6 n), b64_char (n AND 63)] @ b64_encode rest)"
| "b64_encode [a] =
     (let n = push_bit 16 (ucast a) in
      [b64_char (sextet 18 n), b64_char (sextet 12 n), CHR ''='', CHR ''=''])"
| "b64_encode [a, b] =
     (let n = push_bit 16 (ucast a) OR push_bit 8 (ucast b) in
      [b64_char (sextet 18 n), b64_char (sextet 12 n), b64_char (sextet 6 n), CHR ''=''])"
| "b64_encode [] = []"

definition b64_value :: "char \<Rightarrow> u8 option" where
  "b64_value ch = (let c = (word_of_nat (byte_of ch) :: u8) in
     if 65 \<le> c \<and> c \<le> 90 then Some (c - 65)
     else if 97 \<le> c \<and> c \<le> 122 then Some (c - 97 + 26)
     else if 48 \<le> c \<and> c \<le> 57 then Some (c - 48 + 52)
     else if c = 43 then Some 62
     else if c = 47 then Some 63
     else None)"

fun decode_loop :: "u32 \<Rightarrow> nat \<Rightarrow> u8 list \<Rightarrow> string \<Rightarrow> string + u8 list" where
  "decode_loop buf bits out [] = Inr out"
| "decode_loop buf bits out (c # cs) = (case b64_value c of
     None \<Rightarrow> Inl ''invalid base64 character''
   | Some v \<Rightarrow>
       (let buf1 = push_bit 6 buf OR ucast v; bits1 = bits + 6 in
        if 8 \<le> bits1
        then let bits2 = bits1 - 8 in
          decode_loop (buf1 AND mask bits2) bits2 (out @ [ucast (drop_bit bits2 buf1)]) cs
        else decode_loop buf1 bits1 out cs))"

definition trim_end_eq :: "string \<Rightarrow> string" where
  "trim_end_eq s = rev (dropWhile (\<lambda>c. c = CHR ''='') (rev s))"

definition b64_decode :: "string \<Rightarrow> string + u8 list" where
  "b64_decode s = decode_loop 0 0 [] (trim_end_eq s)"

text \<open>\<^verbatim>\<open>bytes_b64\<close>: the serde adapter of the \<^verbatim>\<open>Bytes\<close> fields.\<close>

definition bytes_serialize :: "u8 list \<Rightarrow> string" where
  "bytes_serialize b = b64_encode b"

definition bytes_deserialize :: "string \<Rightarrow> string + u8 list" where
  "bytes_deserialize s = b64_decode s"

section \<open>The alphabet\<close>

lemma length_b64_table [simp]: "length b64_table = 64"
  by (simp add: b64_table_def)

lemma b64_table_values: "map b64_value b64_table = map (\<lambda>k. Some (word_of_nat k)) [0 ..< 64]"
  by (simp add: b64_table_def b64_value_def byte_of_def upt_rec)

lemma b64_table_no_pad: "CHR ''='' \<notin> set b64_table"
  by (simp add: b64_table_def)

lemma and_63: "v AND 63 = take_bit 6 (v :: u32)"
proof -
  have "(63 :: u32) = mask 6" by (simp add: mask_eq_exp_minus_1)
  then show ?thesis by (simp add: take_bit_eq_mask)
qed

lemma sextet_less: "unat (v AND 63 :: u32) < 64"
proof -
  have "unat (take_bit 6 v) = take_bit 6 (unat v)" by (simp add: unsigned_take_bit_eq)
  also have "\<dots> < 2 ^ 6" by (rule take_bit_nat_less_exp)
  finally show ?thesis by (simp add: and_63)
qed

lemma b64_char_sextet:
  "b64_value (b64_char (v AND 63)) = Some (ucast (v AND 63))" "b64_char (v AND 63) \<noteq> CHR ''=''"
proof -
  let ?k = "unat (v AND 63)"
  have "map b64_value b64_table ! ?k = Some (word_of_nat ?k)"
    unfolding b64_table_values using sextet_less [of v] by simp
  then show "b64_value (b64_char (v AND 63)) = Some (ucast (v AND 63))"
    using sextet_less [of v] by (simp add: b64_char_def)
  show "b64_char (v AND 63) \<noteq> CHR ''=''"
    using sextet_less [of v] b64_table_no_pad by (metis b64_char_def length_b64_table nth_mem)
qed

section \<open>Groups of bits\<close>

text \<open>Reassembling the bytes of a group from its sextets, as the decoder's buffer does.\<close>

lemma less_8_cases: "i < 8 \<Longrightarrow> i = 0 \<or> i = 1 \<or> i = 2 \<or> i = 3 \<or> i = 4 \<or> i = 5 \<or> i = 6 \<or> i = (7::nat)"
  by auto

lemma ucast_sextet: "ucast (ucast (v AND 63 :: u32) :: u8) = v AND 63"
  by (rule bit_word_eqI) (auto simp: bit_simps and_63)

lemma first_byte:
  fixes a :: u8 and n :: u32
  assumes "\<And>i. i < 8 \<Longrightarrow> bit n (i + 16) = bit a i"
  shows "ucast (drop_bit 4 (push_bit 6 (sextet 18 n) OR sextet 12 n)) = a"
proof (rule bit_word_eqI)
  fix i assume i: "i < LENGTH(8)"
  then show "bit (ucast (drop_bit 4 (push_bit 6 (sextet 18 n) OR sextet 12 n)) :: u8) i = bit a i"
    using assms [of i] less_8_cases [of i] by (auto simp: sextet_def and_63 bit_simps)
qed

lemma second_byte:
  fixes b :: u8 and n :: u32
  assumes "\<And>i. i < 8 \<Longrightarrow> bit n (i + 8) = bit b i" "\<And>i. i < 4 \<Longrightarrow> \<not> bit x i"
  shows "ucast (drop_bit 2 (push_bit 6 ((x OR sextet 12 n) AND mask 4) OR sextet 6 n)) = b"
proof (rule bit_word_eqI)
  fix i assume i: "i < LENGTH(8)"
  then show "bit (ucast (drop_bit 2 (push_bit 6 ((x OR sextet 12 n) AND mask 4) OR sextet 6 n)) :: u8) i = bit b i"
    using assms(1) [of i] assms(2) less_8_cases [of i] by (auto simp: sextet_def and_63 bit_simps)
qed

lemma third_byte:
  fixes c :: u8 and n :: u32
  assumes "\<And>i. i < 8 \<Longrightarrow> bit n i = bit c i" "\<And>i. i < 2 \<Longrightarrow> \<not> bit x i"
  shows "ucast (push_bit 6 ((x OR sextet 6 n) AND mask 2) OR (n AND 63)) = c"
proof (rule bit_word_eqI)
  fix i assume i: "i < LENGTH(8)"
  then show "bit (ucast (push_bit 6 ((x OR sextet 6 n) AND mask 2) OR (n AND 63)) :: u8) i = bit c i"
    using assms(1) [of i] assms(2) less_8_cases [of i] by (auto simp: sextet_def and_63 bit_simps)
qed

lemma b64_value_sextet:
  "b64_value (b64_char (sextet k n)) = Some (ucast (sextet k n))" "ucast (ucast (sextet k n) :: u8) = sextet k n"
  "b64_value (b64_char (n AND 63)) = Some (ucast (n AND 63))" "ucast (ucast (n AND 63) :: u8) = n AND 63"
  by (simp_all add: sextet_def b64_char_sextet ucast_sextet)

lemma low_bits_push: "i < 6 \<Longrightarrow> \<not> bit (push_bit 6 (x :: u32)) i"
  by (simp add: bit_simps)

text \<open>Decoding the sextets of one group: three bytes and an empty buffer, two bytes, one byte.\<close>

lemma decode_step:
  assumes "b64_value c = Some v" "ucast v = s" "2 \<le> bits"
  shows "decode_loop buf bits out (c # cs) =
    decode_loop ((push_bit 6 buf OR s) AND mask (bits - 2)) (bits - 2) (out @ [ucast (drop_bit (bits - 2) (push_bit 6 buf OR s))]) cs"
proof -
  have "bits + 6 - 8 = bits - 2" "8 \<le> bits + 6" using assms(3) by simp_all
  then show ?thesis using assms(1,2) by (simp only: decode_loop.simps option.case Let_def if_True)
qed

lemma decode_first: "b64_value c = Some v \<Longrightarrow> decode_loop 0 0 out (c # cs) = decode_loop (ucast v) 6 out cs"
  by simp

lemma b64_char_not_pad [simp]:
  "b64_char (sextet k n) \<noteq> CHR ''=''" "CHR ''='' \<noteq> b64_char (sextet k n)"
  "b64_char (n AND 63) \<noteq> CHR ''=''" "CHR ''='' \<noteq> b64_char (n AND 63)"
  using b64_char_sextet(2) by (metis sextet_def)+

lemma decode_two_sextets:
  fixes a :: u8 and n :: u32
  assumes "\<And>i. i < 8 \<Longrightarrow> bit n (i + 16) = bit a i"
  shows "decode_loop 0 0 out (b64_char (sextet 18 n) # b64_char (sextet 12 n) # cs) =
    decode_loop ((push_bit 6 (sextet 18 n) OR sextet 12 n) AND mask 4) 4 (out @ [a]) cs"
proof -
  have "decode_loop 0 0 out (b64_char (sextet 18 n) # b64_char (sextet 12 n) # cs) =
      decode_loop (sextet 18 n) 6 out (b64_char (sextet 12 n) # cs)"
    using decode_first [OF b64_value_sextet(1) [of 18 n]] by (simp only: b64_value_sextet(2))
  also have "\<dots> = decode_loop ((push_bit 6 (sextet 18 n) OR sextet 12 n) AND mask 4) 4 (out @ [a]) cs"
    using decode_step [OF b64_value_sextet(1) b64_value_sextet(2), of 6 "sextet 18 n" out 12 n cs] first_byte [of n a, OF assms]
    by (simp del: decode_loop.simps drop_bit_or)
  finally show ?thesis .
qed

lemma decode_three_sextets:
  fixes a b :: u8 and n :: u32
  assumes "\<And>i. i < 8 \<Longrightarrow> bit n (i + 16) = bit a i" "\<And>i. i < 8 \<Longrightarrow> bit n (i + 8) = bit b i"
  shows "\<exists>x. decode_loop 0 0 out (b64_char (sextet 18 n) # b64_char (sextet 12 n) # b64_char (sextet 6 n) # cs) =
    decode_loop ((push_bit 6 x OR sextet 6 n) AND mask 2) 2 (out @ [a, b]) cs"
proof -
  have "ucast (drop_bit 2 (push_bit 6 ((push_bit 6 (sextet 18 n) OR sextet 12 n) AND mask 4) OR sextet 6 n)) = b"
    using assms(2) by (rule second_byte) (simp_all add: low_bits_push)
  then show ?thesis
    using decode_step [OF b64_value_sextet(1) b64_value_sextet(2),
        of 4 "(push_bit 6 (sextet 18 n) OR sextet 12 n) AND mask 4" "out @ [a]" 6 n cs]
    by (intro exI [of _ "(push_bit 6 (sextet 18 n) OR sextet 12 n) AND mask 4"])
      (simp only: decode_two_sextets [OF assms(1)] append_assoc append_Cons append_Nil diff_numeral_simps, simp)
qed

lemma decode_group:
  fixes a b c :: u8 and n :: u32
  assumes "\<And>i. i < 8 \<Longrightarrow> bit n (i + 16) = bit a i" "\<And>i. i < 8 \<Longrightarrow> bit n (i + 8) = bit b i"
    "\<And>i. i < 8 \<Longrightarrow> bit n i = bit c i"
  shows "decode_loop 0 0 out (b64_char (sextet 18 n) # b64_char (sextet 12 n) # b64_char (sextet 6 n) # b64_char (n AND 63) # cs) =
    decode_loop 0 0 (out @ [a, b, c]) cs"
proof -
  obtain x where x: "decode_loop 0 0 out (b64_char (sextet 18 n) # b64_char (sextet 12 n) # b64_char (sextet 6 n) # b64_char (n AND 63) # cs) =
    decode_loop ((push_bit 6 x OR sextet 6 n) AND mask 2) 2 (out @ [a, b]) (b64_char (n AND 63) # cs)"
    using decode_three_sextets [OF assms(1,2)] by blast
  have "ucast (push_bit 6 ((push_bit 6 x OR sextet 6 n) AND mask 2) OR (n AND 63)) = c"
    using assms(3) by (rule third_byte) (simp_all add: low_bits_push)
  then show ?thesis unfolding x
    using decode_step [OF b64_value_sextet(3) b64_value_sextet(4), of 2 "(push_bit 6 x OR sextet 6 n) AND mask 2" "out @ [a, b]" n cs]
    by simp
qed

section \<open>The round trip\<close>

text \<open>The encoding without its padding.\<close>

fun b64_body :: "u8 list \<Rightarrow> string" where
  "b64_body (a # b # c # rest) = take 4 (b64_encode [a, b, c]) @ b64_body rest"
| "b64_body [a] = take 2 (b64_encode [a])"
| "b64_body [a, b] = take 3 (b64_encode [a, b])"
| "b64_body [] = []"

lemma b64_encode_body:
  "\<exists>k. b64_encode xs = b64_body xs @ replicate k (CHR ''='') \<and> CHR ''='' \<notin> set (b64_body xs)"
proof (induction xs rule: b64_encode.induct)
  case (1 a b c rest)
  then obtain k where "b64_encode rest = b64_body rest @ replicate k (CHR ''='')" "CHR ''='' \<notin> set (b64_body rest)"
    by auto
  then show ?case by (intro exI [of _ k]) (simp add: Let_def)
next
  case (2 a)
  then show ?case by (intro exI [of _ 2]) (simp add: Let_def numeral_2_eq_2)
next
  case (3 a b)
  then show ?case by (intro exI [of _ 1]) (simp add: Let_def numeral_3_eq_3)
next
  case 4
  then show ?case by simp
qed

lemma trim_end_eq_encode: "trim_end_eq (b64_encode xs) = b64_body xs"
proof -
  obtain k where k: "b64_encode xs = b64_body xs @ replicate k (CHR ''='')" "CHR ''='' \<notin> set (b64_body xs)"
    using b64_encode_body by blast
  have "dropWhile (\<lambda>c. c = x) (replicate k x @ ys) = dropWhile (\<lambda>c. c = x) ys" for x :: char and ys
    by (induction k) auto
  moreover have "dropWhile (\<lambda>c. c = CHR ''='') (rev (b64_body xs)) = rev (b64_body xs)"
    using k(2) hd_in_set [of "rev (b64_body xs)"] by (subst dropWhile_eq_self_iff) auto
  ultimately show ?thesis by (simp add: trim_end_eq_def k(1))
qed

lemma not_bit_u8 [simp]: "8 \<le> k \<Longrightarrow> \<not> bit (b :: u8) k"
  by (auto dest: bit_imp_le_length)

lemma decode_body: "decode_loop 0 0 out (b64_body xs) = Inr (out @ xs)"
proof (induction xs arbitrary: out rule: b64_encode.induct)
  case (1 a b c rest)
  let ?n = "push_bit 16 (ucast a) OR push_bit 8 (ucast b) OR ucast c :: u32"
  have n: "bit ?n (i + 16) = bit a i" "bit ?n (i + 8) = bit b i" "bit ?n i = bit c i" if "i < 8" for i
    using that by (auto simp: bit_simps)
  have "decode_loop 0 0 out (b64_body (a # b # c # rest)) = decode_loop 0 0 (out @ [a, b, c]) (b64_body rest)"
    using decode_group [of ?n a b c out "b64_body rest", OF n] by (simp add: Let_def del: decode_loop.simps)
  with 1 show ?case by (simp add: Let_def)
next
  case (2 a)
  have n: "bit (push_bit 16 (ucast a) :: u32) (i + 16) = bit a i" if "i < 8" for i using that by (auto simp: bit_simps)
  show ?case using decode_two_sextets [of "push_bit 16 (ucast a)" a out "[]", OF n]
    by (simp add: Let_def numeral_2_eq_2 del: decode_loop.simps(2))
next
  case (3 a b)
  let ?n = "push_bit 16 (ucast a) OR push_bit 8 (ucast b) :: u32"
  have n: "bit ?n (i + 16) = bit a i" "bit ?n (i + 8) = bit b i" if "i < 8" for i
    using that by (auto simp: bit_simps)
  show ?case using decode_three_sextets [of ?n a b out "[]", OF n]
    by (auto simp: Let_def numeral_3_eq_3 simp del: decode_loop.simps(2))
next
  case 4
  then show ?case by simp
qed

lemma length_b64_encode: "length (b64_encode xs) = 4 * ((length xs + 2) div 3)"
proof (induction xs rule: b64_encode.induct)
  case (1 a b c rest)
  have "(5 + m) div 3 = Suc ((2 + m) div 3)" for m :: nat by presburger
  with 1 show ?case by (simp add: Let_def)
qed (simp_all add: Let_def)

text \<open>C18: audio bytes survive persistence.  Decoding the base64 text of any byte sequence gives back
  exactly that sequence, for every length of the last group, and the text is four characters per started
  group of three bytes.\<close>

theorem base64_roundtrip:
  "bytes_deserialize (bytes_serialize xs) = Inr xs \<and> length (bytes_serialize xs) = 4 * ((length xs + 2) div 3)"
  by (simp add: bytes_deserialize_def bytes_serialize_def b64_decode_def trim_end_eq_encode decode_body length_b64_encode)

end
