(* ===== verification/Audio_Types.thy ===== *)
theory Audio_Types
  imports Core_Types Base64
begin

text \<open>
  The shared vocabulary of the audio modalities, \<^verbatim>\<open>inference-core/src/audio.rs\<close>: formats and container
  parameters with their range check, static payloads and live inputs, the option blobs, batches and output
  chunks of the four modalities, timings with their validity check, voices, the messages of a realtime
  session, and the serde adapter of the 52 blendshape weights.  Ends of channels are opaque types
  (\<open>'rx\<close>, \<open>'tx\<close>); paths and URLs are their strings.
\<close>

section \<open>Primitives\<close>

datatype audio_format = Pcm16Le | Pcm24Le | PcmF32Le | OggOpus | Mp3 | Flac | Wav

fun is_pcm :: "audio_format \<Rightarrow> bool" where
  "is_pcm Pcm16Le = True"
| "is_pcm Pcm24Le = True"
| "is_pcm PcmF32Le = True"
| "is_pcm _ = False"

definition requires_decode :: "audio_format \<Rightarrow> bool" where
  "requires_decode f \<longleftrightarrow> \<not> is_pcm f \<and> f \<noteq> Wav"

record audio_params =
  sample_rate_hz :: u32
  channels :: u8
  ap_format :: audio_format

definition new_audio_params :: "u32 \<Rightarrow> u8 \<Rightarrow> audio_format \<Rightarrow> audio_params" where
  "new_audio_params rate ch fmt = \<lparr>sample_rate_hz = rate, channels = ch, ap_format = fmt\<rparr>"

definition params_valid :: "audio_params \<Rightarrow> bool" where
  "params_valid p \<longleftrightarrow> 8000 \<le> sample_rate_hz p \<and> sample_rate_hz p \<le> 96000 \<and> 1 \<le> channels p \<and> channels p \<le> 8"

datatype audio_payload =
    Bytes "u8 list" audio_params
  | Path string audio_params
  | Url string audio_params

fun payload_params :: "audio_payload \<Rightarrow> audio_params" where
  "payload_params (Bytes d p) = p"
| "payload_params (Path f p) = p"
| "payload_params (Url u p) = p"

datatype 'rx audio_input = Static audio_payload | Stream audio_params 'rx

fun input_params :: "'rx audio_input \<Rightarrow> audio_params" where
  "input_params (Static pl) = payload_params pl"
| "input_params (Stream p rx) = p"

section \<open>Options\<close>

record transcribe_options =
  to_language :: "string option"
  interim_results :: bool
  word_timestamps :: bool
  diarize :: bool
  prompt :: "string option"
  to_temperature :: "f32 option"

definition default_transcribe_options :: transcribe_options where
  "default_transcribe_options = \<lparr>to_language = None, interim_results = False, word_timestamps = False,
     diarize = False, prompt = None, to_temperature = None\<rparr>"

record synth_options =
  speed :: "f32 option"
  pitch_semitones :: "f32 option"
  so_sample_rate_hz :: "u32 option"
  so_format :: "audio_format option"
  so_emotion :: "string option"
  so_language :: "string option"

definition default_synth_options :: synth_options where
  "default_synth_options = \<lparr>speed = None, pitch_semitones = None, so_sample_rate_hz = None, so_format = None,
     so_emotion = None, so_language = None\<rparr>"

record a2f_options =
  fps :: "u32 option"
  ao_emotion :: "string option"
  smoothing_ms :: "u32 option"
  strength :: "f32 option"

definition default_a2f_options :: a2f_options where
  "default_a2f_options = \<lparr>fps = None, ao_emotion = None, smoothing_ms = None, strength = None\<rparr>"

datatype audio_options = Transcribe transcribe_options | Audio2Face a2f_options

section \<open>Batches\<close>

datatype voice_ref = Named string | Id string | ClonedFrom audio_payload

record 'rx audio_batch =
  ab_request_id :: string
  ab_model :: string
  ab_input :: "'rx audio_input"
  ab_stream :: bool
  ab_options :: audio_options
  estimated_units :: u32

record speech_batch =
  sb_request_id :: string
  sb_model :: string
  sb_text :: string
  sb_voice :: voice_ref
  sb_options :: synth_options
  sb_stream :: bool
  emit_alignment :: bool
  estimated_characters :: u32

record ('rx, 'tx) realtime_batch =
  rb_request_id :: string
  rb_model :: string
  rb_voice :: voice_ref
  rb_options :: synth_options
  inbound :: 'rx
  outbound :: 'tx

definition new_realtime_batch :: "string \<Rightarrow> string \<Rightarrow> voice_ref \<Rightarrow> synth_options \<Rightarrow> 'rx \<Rightarrow> 'tx \<Rightarrow> ('rx, 'tx) realtime_batch" where
  "new_realtime_batch rid m v opts rx tx = \<lparr>rb_request_id = rid, rb_model = m, rb_voice = v, rb_options = opts,
     inbound = rx, outbound = tx\<rparr>"

section \<open>Timings and chunks\<close>

record word_timing =
  wt_text :: string
  wt_start_ms :: u32
  wt_end_ms :: u32
  confidence :: "f32 option"

definition timing_valid :: "word_timing \<Rightarrow> bool" where
  "timing_valid w \<longleftrightarrow> wt_start_ms w \<le> wt_end_ms w \<and>
     (case confidence w of None \<Rightarrow> True | Some c \<Rightarrow> fp_le (Fin 0) c \<and> fp_le c (Fin 1))"

record viseme =
  vi_id :: u8
  vi_start_ms :: u32
  vi_end_ms :: u32
  vi_weight :: f32

record alignment_delta =
  ad_words :: "word_timing list"
  visemes :: "viseme list"

definition default_alignment_delta :: alignment_delta where
  "default_alignment_delta = \<lparr>ad_words = [], visemes = []\<rparr>"

record transcript_chunk =
  tr_request_id :: string
  tr_is_final :: bool
  tr_text :: string
  tr_start_ms :: u32
  tr_end_ms :: u32
  speaker_id :: "string option"
  tr_words :: "word_timing list"
  tr_usage :: "cost_estimate option"

record speech_chunk =
  sp_request_id :: string
  sp_is_final :: bool
  audio_pcm_chunk :: "u8 list"
  sp_params :: audio_params
  alignment :: "alignment_delta option"
  sp_usage :: "cost_estimate option"

text \<open>The weights are an array of exactly 52 numbers; their serde adapter checks the length.\<close>

record blendshape_chunk =
  bs_request_id :: string
  bs_is_final :: bool
  timestamp_ms :: u32
  weights :: "f32 list"

definition serialize_weights :: "f32 list \<Rightarrow> f32 list" where
  "serialize_weights arr = arr"

definition deserialize_weights :: "f32 list \<Rightarrow> string + f32 list" where
  "deserialize_weights v =
     (if length v \<noteq> 52 then Inl (''expected 52 blendshape weights, got '' @ show_nat (length v)) else Inr v)"

section \<open>Realtime sessions\<close>

datatype transcript_role = TrUser | TrAssistant

datatype realtime_in =
    InAudioFrame "u8 list" audio_params
  | InText string
  | Commit
  | Interrupt
  | InClose

datatype realtime_out =
    OutAudioFrame "u8 list" audio_params
  | Transcript transcript_role string bool
  | Alignment alignment_delta
  | OutError inference_error
  | Done

section \<open>Facts\<close>

text \<open>Three classes of formats: linear PCM, the WAV container, and what must be decoded first.\<close>

lemma format_classes: "requires_decode f \<longleftrightarrow> f \<in> {OggOpus, Mp3, Flac}" "is_pcm f \<longleftrightarrow> f \<in> {Pcm16Le, Pcm24Le, PcmF32Le}"
  by (cases f; simp add: requires_decode_def)+

lemma timing_valid_confidence: "timing_valid w \<Longrightarrow> confidence w = Some c \<Longrightarrow> \<exists>x. c = Fin x \<and> 0 \<le> x \<and> x \<le> 1"
  by (cases c) (auto simp: timing_valid_def fp_le_def)

lemma weights_roundtrip: "length v = 52 \<Longrightarrow> deserialize_weights (serialize_weights v) = Inr v"
  by (simp add: deserialize_weights_def serialize_weights_def)

lemma deserialize_weights_length: "deserialize_weights v = Inr w \<Longrightarrow> length w = 52"
  by (auto simp: deserialize_weights_def split: if_splits)

end
