(* ===== verification/Backoff.thy ===== *)
theory Backoff
  imports Core_Types
begin

text \<open>
  \<^verbatim>\<open>inference-remote-core/src/backoff.rs\<close> and \<^verbatim>\<open>retry.rs\<close>: the exponential backoff with jitter
  and the retry decision.  The precision of \<^verbatim>\<open>f64::powi\<close> is unspecified by the standard library,
  so it is an argument \<open>pw\<close> of the definitions; \<open>powi_sq\<close> is the square-and-multiply
  implementation used to evaluate them.  The lemmas bound every delay by the configured maximum,
  whatever \<open>pw\<close> returns, and characterise the decision.
\<close>

section \<open>Definitions\<close>

type_synonym powi_fn = "f64 \<Rightarrow> int \<Rightarrow> f64"

record backoff_policy =
  bp_initial :: duration
  bp_max :: duration
  bp_multiplier :: f64
  bp_jitter :: jitter_kind

definition backoff_policy_from :: "retry_policy \<Rightarrow> backoff_policy" where
  "backoff_policy_from p = \<lparr>bp_initial = initial_backoff p, bp_max = max_backoff p,
     bp_multiplier = backoff_multiplier p, bp_jitter = jitter p\<rparr>"

text \<open>\<^verbatim>\<open>pseudo_random_01\<close>: the product wraps in 32 bits.\<close>

definition pseudo_random_01 :: "u32 \<Rightarrow> f64" where
  "pseudo_random_01 s = f64_div (f64_of_nat (unat ((s * 2654435761) mod 10000))) (Fin 10000)"

text \<open>\<^verbatim>\<open>attempt as i32\<close> reinterprets the bits.\<close>

definition compute_backoff :: "powi_fn \<Rightarrow> backoff_policy \<Rightarrow> u32 \<Rightarrow> duration" where
  "compute_backoff pw policy attempt =
     (let base_ms = f64_mul (f64_of_nat (as_millis (bp_initial policy)))
                            (pw (bp_multiplier policy) (sint attempt));
          capped = fp_min base_ms (f64_of_nat (as_millis (bp_max policy)));
          with_jitter = (case bp_jitter policy of
              NoJitter \<Rightarrow> capped
            | Equal \<Rightarrow> f64_add (f64_mul capped (Fin (1 / 2)))
                              (f64_mul (f64_mul capped (pseudo_random_01 attempt)) (Fin (1 / 2)))
            | Full \<Rightarrow> f64_mul capped (pseudo_random_01 attempt))
      in from_millis (fp_to_uint 64 (fp_max with_jitter (Fin 0))))"

text \<open>Square-and-multiply, each product rounded; a negative exponent takes the reciprocal.\<close>

fun powi_nat :: "f64 \<Rightarrow> nat \<Rightarrow> f64 \<Rightarrow> f64" where
  "powi_nat a n r = (let r' = (if odd n then f64_mul r a else r)
     in if n div 2 = 0 then r' else powi_nat (f64_mul a a) (n div 2) r')"

declare powi_nat.simps [simp del]

definition powi_sq :: powi_fn where
  "powi_sq a n = (let r = powi_nat a (nat \<bar>n\<bar>) (Fin 1) in if n < 0 then f64_div (Fin 1) r else r)"

datatype retry_decision = Retry duration | GiveUp

record retry_engine =
  re_policy :: retry_policy
  re_backoff :: backoff_policy
  re_idempotent :: bool

definition new_retry_engine :: "retry_policy \<Rightarrow> bool \<Rightarrow> retry_engine" where
  "new_retry_engine p idem =
     \<lparr>re_policy = p, re_backoff = backoff_policy_from p, re_idempotent = idem\<rparr>"

fun server_retry_after :: "inference_error \<Rightarrow> duration option" where
  "server_retry_after (RateLimited _ (Some d)) = Some d"
| "server_retry_after _ = None"

definition decide :: "powi_fn \<Rightarrow> retry_engine \<Rightarrow> u32 \<Rightarrow> inference_error \<Rightarrow> retry_decision" where
  "decide pw e attempt err =
     (if \<not> re_idempotent e then GiveUp
      else if max_retries (re_policy e) \<le> attempt then GiveUp
      else if \<not> is_retryable err then GiveUp
      else (case server_retry_after err of
              Some server_ra \<Rightarrow>
                if respect_retry_after (re_policy e) then Retry server_ra
                else Retry (compute_backoff pw (re_backoff e) attempt)
            | None \<Rightarrow> Retry (compute_backoff pw (re_backoff e) attempt)))"

section \<open>The delay is bounded\<close>

lemma pseudo_random_unit: "\<exists>r. pseudo_random_01 s = Fin r \<and> 0 \<le> r \<and> r \<le> 1"
proof -
  define n where "n = unat ((s * 2654435761) mod 10000)"
  have "n < 10000"
    using word_mod_less_divisor [of 10000 "s * 2654435761"] by (simp add: n_def word_less_nat_alt)
  then have le: "of_nat n / 10000 \<le> (1::rat)" by simp
  have nat: "f64_of_nat n = Fin (of_nat n)"
    using \<open>n < 10000\<close> by (intro f64_of_nat_exact) simp
  have b: "0 \<le> round64 (of_nat n / 10000)" "round64 (of_nat n / 10000) \<le> 1"
    using r64.rnd_nonneg [of "of_nat n / 10000"] r64.rnd_le_nat [of 1 "of_nat n / 10000"] le
    by simp_all
  then have "f64_of_rat (of_nat n / 10000) = Fin (round64 (of_nat n / 10000))"
    by (simp add: f64_of_rat_def Let_def)
  then show ?thesis using b nat by (simp add: pseudo_random_01_def n_def)
qed

lemma f64_half_le:
  assumes "m \<le> 2 ^ 52" "fp_le_nat v m"
  shows "f64_mul v (Fin (1 / 2)) = NaN \<or> f64_mul v (Fin (1 / 2)) = NInf \<or>
    (\<exists>x. f64_mul v (Fin (1 / 2)) = Fin x \<and> x \<le> of_nat m / 2)"
proof (cases v)
  case (Fin x)
  then have "x \<le> of_nat m" using assms(2) by (simp add: fp_le_nat_def)
  then have le: "round64 (x / 2) \<le> of_nat m / 2" by (rule r64.rnd_half_le [OF assms(1)])
  have "(of_nat m :: rat) \<le> 2 ^ 52" using assms(1) by (metis of_nat_le_iff of_nat_numeral of_nat_power)
  with le have "\<not> 2 ^ 1024 \<le> round64 (x / 2)" using big_power by linarith
  then show ?thesis using Fin le by (simp add: f64_of_rat_def Let_def)
qed (use assms in \<open>auto simp: fp_le_nat_def\<close>)

lemma f64_sum_halves_le:
  assumes "m \<le> 2 ^ 52"
    and "a = NaN \<or> a = NInf \<or> (\<exists>x. a = Fin x \<and> x \<le> of_nat m / 2)"
    and "b = NaN \<or> b = NInf \<or> (\<exists>x. b = Fin x \<and> x \<le> of_nat m / 2)"
  shows "fp_le_nat (f64_add a b) m"
proof -
  consider "a = NaN \<or> b = NaN" | "a \<noteq> NaN" "b \<noteq> NaN" "a = NInf \<or> b = NInf"
    | x y where "a = Fin x" "b = Fin y" "x \<le> of_nat m / 2" "y \<le> of_nat m / 2"
    using assms by auto
  then show ?thesis
  proof cases
    case 1
    then show ?thesis by (cases a; cases b) (auto simp: fp_le_nat_def)
  next
    case 2
    then show ?thesis using assms(2,3) by (cases a; cases b) (auto simp: fp_le_nat_def)
  next
    case 3
    then show ?thesis using assms(1) by (simp add: f64_of_rat_le r64.rnd_sum_halves_le)
  qed
qed

lemma jittered_le:
  assumes m: "m \<le> 2 ^ 52" and v: "fp_le_nat v m"
  shows "fp_le_nat (case j of
      NoJitter \<Rightarrow> v
    | Equal \<Rightarrow> f64_add (f64_mul v (Fin (1 / 2)))
        (f64_mul (f64_mul v (pseudo_random_01 s)) (Fin (1 / 2)))
    | Full \<Rightarrow> f64_mul v (pseudo_random_01 s)) m"
proof -
  obtain r where r: "pseudo_random_01 s = Fin r" "0 \<le> r" "r \<le> 1"
    using pseudo_random_unit by blast
  have scaled: "fp_le_nat (f64_mul v (pseudo_random_01 s)) m"
    unfolding r(1) using m v r(2,3) by (rule f64_mul_le)
  show ?thesis
  proof (cases j)
    case Equal
    then show ?thesis
      using f64_sum_halves_le [OF m f64_half_le [OF m v] f64_half_le [OF m scaled]] by simp
  qed (use v scaled in simp_all)
qed

lemma compute_backoff_bounded:
  assumes "as_millis (bp_max p) \<le> 2 ^ 52"
  shows "compute_backoff pw p attempt \<le> bp_max p"
proof -
  let ?m = "as_millis (bp_max p)"
  let ?base = "f64_mul (f64_of_nat (as_millis (bp_initial p))) (pw (bp_multiplier p) (sint attempt))"
  have "fp_le_nat (fp_min ?base (f64_of_nat ?m)) ?m"
    by (rule fp_min_le [THEN conjunct1]) (simp_all add: f64_of_nat_exact [OF assms] fp_le_nat_def)
  note * = fp_to_uint_le [OF jittered_le [OF assms this], of 64 attempt "bp_jitter p"]
  have "compute_backoff pw p attempt \<le> from_millis ?m"
    unfolding compute_backoff_def Let_def from_millis_def using * by simp
  also have "\<dots> \<le> bp_max p" by (rule from_millis_as_millis_le)
  finally show ?thesis .
qed

section \<open>The retry decision\<close>

lemma decide_Retry_iff:
  "(\<exists>d. decide pw e a err = Retry d) \<longleftrightarrow>
     re_idempotent e \<and> a < max_retries (re_policy e) \<and> is_retryable err"
  by (auto simp: decide_def not_le split: option.splits)

lemma decide_GiveUp_iff:
  "decide pw e a err = GiveUp \<longleftrightarrow>
     \<not> re_idempotent e \<or> max_retries (re_policy e) \<le> a \<or> \<not> is_retryable err"
  by (auto simp: decide_def split: option.splits)

lemma decide_retry_lt: "decide pw e a err = Retry d \<Longrightarrow> a < max_retries (re_policy e)"
  using decide_Retry_iff by blast

lemma decide_delay_bounded:
  assumes "decide pw (new_retry_engine p idem) a err = Retry d"
    and "as_millis (max_backoff p) \<le> 2 ^ 52"
    and "server_retry_after err = None \<or> \<not> respect_retry_after p"
  shows "d \<le> max_backoff p"
proof -
  have "d = compute_backoff pw (backoff_policy_from p) a"
    using assms(1,3) by (auto simp: decide_def new_retry_engine_def split: if_splits option.splits)
  then show ?thesis
    using compute_backoff_bounded [of "backoff_policy_from p" pw a] assms(2)
    by (simp add: backoff_policy_from_def)
qed

lemma decide_server_wins:
  "re_idempotent e \<Longrightarrow> a < max_retries (re_policy e) \<Longrightarrow> respect_retry_after (re_policy e) \<Longrightarrow>
   decide pw e a (RateLimited p (Some d)) = Retry d"
  by (simp add: decide_def not_le)

section \<open>Properties\<close>

text \<open>C37: the backoff is bounded.  For every attempt number, multiplier (also a negative, infinite or
  not-a-number one), jitter kind and result of \<^verbatim>\<open>powi\<close>, the computed delay is at most the configured
  maximum, provided the maximum in milliseconds is an exactly representable \<^verbatim>\<open>f64\<close> below \<open>2^52\<close>: no
  rounding of the jitter arithmetic, overflow or cast can exceed it.\<close>

theorem backoff_within_maximum:
  assumes "as_millis (bp_max p) \<le> 2 ^ 52"
  shows "compute_backoff pw p attempt \<le> bp_max p"
  using assms by (rule compute_backoff_bounded)

theorem backoff_within_maximum_witness:
  "compute_backoff powi_sq (backoff_policy_from default_retry_policy) 40 \<le> from_millis 60000"
  using backoff_within_maximum [of "backoff_policy_from default_retry_policy" powi_sq 40]
  by (simp add: backoff_policy_from_def default_retry_policy_def)

end
