(* ===== verification/Circuit_Breaker.thy ===== *)
theory Circuit_Breaker
  imports Core_Types
begin

text \<open>
  \<^verbatim>\<open>inference-remote-core/src/circuit_breaker.rs\<close>.  The handle's atomics and its mutex are the
  fields of a record; every operation takes the instant \<open>now\<close> at which it runs (and \<^verbatim>\<open>check\<close>
  also the wall clock in Unix milliseconds) and is one step.  A nanosecond count is the elapsed
  time since the handle's epoch truncated to 64 bits, as the code stores it; zero encodes
  "not open".
  The lemmas: the window arithmetic of \<^verbatim>\<open>state\<close>, the counting of consecutive failures, the four
  outcomes of \<^verbatim>\<open>run\<close>, and what a failing half-open probe does.
\<close>

section \<open>State and operations\<close>

datatype circuit_state = Closed | Open | HalfOpen

record circuit_breaker =
  provider :: provider_kind
  config :: circuit_breaker_config
  failures :: u32
  opened_at_ns :: u64
  epoch :: instant
  forced_open_until :: "instant option"

definition new_circuit_breaker :: "provider_kind \<Rightarrow> circuit_breaker_config \<Rightarrow> instant \<Rightarrow> circuit_breaker" where
  "new_circuit_breaker p c now =
     \<lparr>provider = p, config = c, failures = 0, opened_at_ns = 0, epoch = now, forced_open_until = None\<rparr>"

text \<open>\<^verbatim>\<open>self.epoch.elapsed().as_nanos() as u64\<close>.\<close>

definition elapsed_ns :: "circuit_breaker \<Rightarrow> instant \<Rightarrow> u64" where
  "elapsed_ns h now = u64_of_nat (duration_since now (epoch h))"

definition forced_open :: "circuit_breaker \<Rightarrow> instant \<Rightarrow> bool" where
  "forced_open h now = (case forced_open_until h of None \<Rightarrow> False | Some until \<Rightarrow> now < until)"

definition state :: "circuit_breaker \<Rightarrow> instant \<Rightarrow> circuit_state" where
  "state h now =
     (if forced_open h now then Open
      else if opened_at_ns h = 0 then Closed
      else if u64_of_nat (open_duration (config h)) \<le> saturating_sub (elapsed_ns h now) (opened_at_ns h)
      then HalfOpen else Open)"

text \<open>
  The report of an open breaker.  \<^verbatim>\<open>as i64\<close> reinterprets the nanoseconds as signed, \<^verbatim>\<open>/\<close>
  truncates towards zero, \<^verbatim>\<open>saturating_sub\<close> clamps to the 64-bit range, \<^verbatim>\<open>as u64\<close> reinterprets.
\<close>

definition i64_clamp :: "int \<Rightarrow> int" where
  "i64_clamp x = max (- (2 ^ 63)) (min x (2 ^ 63 - 1))"

definition trunc_div :: "int \<Rightarrow> int \<Rightarrow> int" where
  "trunc_div a b = (if 0 \<le> a then a div b else - ((- a) div b))"

definition opened_at_unix_ms :: "circuit_breaker \<Rightarrow> instant \<Rightarrow> int \<Rightarrow> u64" where
  "opened_at_unix_ms h now unix_ms =
     word_of_int (i64_clamp (unix_ms
       - trunc_div (sint (saturating_sub (elapsed_ns h now) (opened_at_ns h))) 1000000))"

definition retry_at_unix_ms :: "circuit_breaker \<Rightarrow> instant \<Rightarrow> int \<Rightarrow> u64" where
  "retry_at_unix_ms h now unix_ms =
     saturating_add (opened_at_unix_ms h now unix_ms) (u64_of_nat (as_millis (open_duration (config h))))"

definition check :: "circuit_breaker \<Rightarrow> instant \<Rightarrow> int \<Rightarrow> unit inference_result" where
  "check h now unix_ms =
     (case state h now of
        Open \<Rightarrow> Inl (CircuitOpen (provider h) (opened_at_unix_ms h now unix_ms)
                                  (retry_at_unix_ms h now unix_ms))
      | _ \<Rightarrow> Inr ())"

definition record_success :: "circuit_breaker \<Rightarrow> circuit_breaker" where
  "record_success h = h\<lparr>failures := 0, opened_at_ns := 0\<rparr>"

definition record_failure :: "circuit_breaker \<Rightarrow> instant \<Rightarrow> circuit_breaker" where
  "record_failure h now =
     (let n = failures h + 1; h1 = h\<lparr>failures := n\<rparr>
      in if failure_threshold (config h) \<le> n \<and> opened_at_ns h = 0
         then h1\<lparr>opened_at_ns := elapsed_ns h now\<rparr> else h1)"

text \<open>
  \<^verbatim>\<open>run\<close>: \<open>f\<close> is the outcome of the wrapped future, \<open>done\<close> the instant at which it resolves.
  The first component says whether the future was run at all.
\<close>

definition cb_run :: "circuit_breaker \<Rightarrow> instant \<Rightarrow> int \<Rightarrow> instant \<Rightarrow> 'a inference_result \<Rightarrow>
    bool \<times> 'a inference_result \<times> circuit_breaker" where
  "cb_run h now unix_ms done f =
     (case check h now unix_ms of
        Inl e \<Rightarrow> (False, Inl e, h)
      | Inr _ \<Rightarrow> (case f of
          Inr v \<Rightarrow> (True, Inr v, record_success h)
        | Inl e \<Rightarrow> (True, Inl e,
            if counts_as_circuit_failure e then record_failure h done else h)))"

definition force_open :: "circuit_breaker \<Rightarrow> instant \<Rightarrow> duration \<Rightarrow> circuit_breaker" where
  "force_open h now d = h\<lparr>forced_open_until := Some (now + d)\<rparr>"

section \<open>The actor\<close>

datatype circuit_breaker_msg = Check | GetState | ForceOpen duration

datatype circuit_breaker_reply =
    CheckReply "unit inference_result" | StateReply circuit_state | NoReply

definition cb_handle ::
    "circuit_breaker \<Rightarrow> instant \<Rightarrow> int \<Rightarrow> circuit_breaker_msg \<Rightarrow> circuit_breaker \<times> circuit_breaker_reply" where
  "cb_handle h now unix_ms msg =
     (case msg of
        Check \<Rightarrow> (h, CheckReply (check h now unix_ms))
      | GetState \<Rightarrow> (h, StateReply (state h now))
      | ForceOpen d \<Rightarrow> (force_open h now d, NoReply))"

section \<open>Consecutive failures\<close>

text \<open>A burst of failures, each at its own instant.\<close>

definition record_failures :: "circuit_breaker \<Rightarrow> instant list \<Rightarrow> circuit_breaker" where
  "record_failures h ts = foldl record_failure h ts"

lemma record_failure_fields [simp]:
  "config (record_failure h t) = config h"
  "epoch (record_failure h t) = epoch h"
  "provider (record_failure h t) = provider h"
  "forced_open_until (record_failure h t) = forced_open_until h"
  "failures (record_failure h t) = failures h + 1"
  by (simp_all add: record_failure_def Let_def)

lemma record_failure_opened:
  "opened_at_ns (record_failure h t) =
     (if failure_threshold (config h) \<le> failures h + 1 \<and> opened_at_ns h = 0
      then elapsed_ns h t else opened_at_ns h)"
  by (simp add: record_failure_def Let_def)

lemma record_failures_append [simp]:
  "record_failures h (ts @ [t]) = record_failure (record_failures h ts) t"
  by (simp add: record_failures_def)

lemma record_failures_fields [simp]:
  "config (record_failures h ts) = config h"
  "epoch (record_failures h ts) = epoch h"
  "provider (record_failures h ts) = provider h"
  "forced_open_until (record_failures h ts) = forced_open_until h"
  by (induction ts rule: rev_induct) (simp_all add: record_failures_def)

lemma record_failures_count: "failures (record_failures h ts) = failures h + of_nat (length ts)"
  by (induction ts rule: rev_induct) (simp_all add: record_failures_def)

lemma record_failures_count_nat:
  "failures h = 0 \<Longrightarrow> length ts < 2 ^ 32 \<Longrightarrow> unat (failures (record_failures h ts)) = length ts"
  by (simp add: record_failures_count unat_of_nat)

text \<open>
  The breaker opens at the failure that reaches the threshold (a threshold of zero acts as one)
  and keeps that instant.
\<close>

lemma record_failures_opened:
  assumes fresh: "failures h = 0" "opened_at_ns h = 0"
    and len: "length ts < 2 ^ 32"
    and ticks: "\<forall>t \<in> set ts. elapsed_ns h t \<noteq> 0"
    and n: "n = max 1 (unat (failure_threshold (config h)))"
  shows "opened_at_ns (record_failures h ts) =
    (if length ts < n then 0 else elapsed_ns h (ts ! (n - 1)))"
  using len ticks
proof (induction ts rule: rev_induct)
  case Nil
  then show ?case using fresh n by (simp add: record_failures_def)
next
  case (snoc t ts)
  let ?h = "record_failures h ts"
  have c: "unat (failures ?h + 1) = Suc (length ts)"
    using snoc.prems record_failures_count_nat [OF fresh(1), of ts]
    by (simp add: word_nat_simps)
  have IH: "opened_at_ns ?h = (if length ts < n then 0 else elapsed_ns h (ts ! (n - 1)))"
    using snoc by simp
  have thr: "failure_threshold (config h) \<le> failures ?h + 1 \<longleftrightarrow> n \<le> Suc (length ts)"
    using c n by (auto simp: word_le_nat_alt)
  have e: "elapsed_ns ?h t = elapsed_ns h t" by (simp add: elapsed_ns_def)
  show ?case
  proof (cases "length ts < n")
    case True
    then show ?thesis using IH thr e by (auto simp: record_failure_opened nth_append)
  next
    case False
    then have "opened_at_ns ?h \<noteq> 0" using IH snoc.prems n by (auto simp: not_less)
    then show ?thesis using IH False n by (auto simp: record_failure_opened nth_append)
  qed
qed

section \<open>The window\<close>

lemma state_Closed_iff: "state h now = Closed \<longleftrightarrow> \<not> forced_open h now \<and> opened_at_ns h = 0"
  by (simp add: state_def)

lemma check_ok_iff: "check h now u = Inr () \<longleftrightarrow> state h now \<noteq> Open"
  by (simp add: check_def split: circuit_state.splits)

lemma state_window:
  assumes "\<not> forced_open h now" "opened_at_ns h = elapsed_ns h t" "elapsed_ns h t \<noteq> 0"
    and "epoch h \<le> t" "t \<le> now" "now - epoch h < 2 ^ 64" "open_duration (config h) < 2 ^ 64"
  shows "state h now = (if now < t + open_duration (config h) then Open else HalfOpen)"
proof -
  have "unat (elapsed_ns h now) = now - epoch h" "unat (elapsed_ns h t) = t - epoch h"
    using assms by (simp_all add: elapsed_ns_def duration_since_def unat_u64_of_nat)
  then have "unat (saturating_sub (elapsed_ns h now) (elapsed_ns h t)) = now - t"
    using assms(4,5) by (simp add: unat_saturating_sub)
  moreover have "unat (u64_of_nat (open_duration (config h))) = open_duration (config h)"
    using assms(7) by (simp add: unat_u64_of_nat)
  ultimately show ?thesis
    using assms by (simp add: state_def word_le_nat_alt) linarith
qed

lemma elapsed_record_failure [simp]: "elapsed_ns (record_failure h t) = elapsed_ns h"
  by (simp add: fun_eq_iff elapsed_ns_def)

lemma record_failure_open_id:
  "opened_at_ns h \<noteq> 0 \<Longrightarrow> record_failure h t = h\<lparr>failures := failures h + 1\<rparr>"
  by (simp add: record_failure_def Let_def)

lemma state_failures_update [simp]: "state (h\<lparr>failures := n\<rparr>) now = state h now"
  by (simp add: state_def forced_open_def elapsed_ns_def)

lemma record_failures_open_state:
  "opened_at_ns h \<noteq> 0 \<Longrightarrow> state (record_failures h ts) now = state h now \<and> opened_at_ns (record_failures h ts) = opened_at_ns h"
  by (induction ts rule: rev_induct)
     (simp_all add: record_failures_def record_failure_open_id)

lemma half_open_opened: "state h now = HalfOpen \<Longrightarrow> opened_at_ns h \<noteq> 0"
  by (auto simp: state_def split: if_splits)

lemma half_open_persists:
  assumes "state h now = HalfOpen" "now \<le> later" "later - epoch h < 2 ^ 64"
  shows "state h later = HalfOpen"
proof -
  have f: "\<not> forced_open h now" and o: "opened_at_ns h \<noteq> 0"
    and w: "u64_of_nat (open_duration (config h)) \<le> saturating_sub (elapsed_ns h now) (opened_at_ns h)"
    using assms(1) by (auto simp: state_def split: if_splits)
  have "\<not> forced_open h later" using f assms(2) by (simp add: forced_open_def split: option.splits)
  moreover have "unat (elapsed_ns h now) \<le> unat (elapsed_ns h later)"
    using assms(2,3) by (simp add: elapsed_ns_def duration_since_def unat_u64_of_nat)
  then have "saturating_sub (elapsed_ns h now) (opened_at_ns h)
      \<le> saturating_sub (elapsed_ns h later) (opened_at_ns h)"
    by (simp add: word_le_nat_alt unat_saturating_sub)
  ultimately show ?thesis using o w by (simp add: state_def)
qed

lemma elapsed_pos:
  "epoch h < t \<Longrightarrow> t - epoch h < 2 ^ 64 \<Longrightarrow> elapsed_ns h t \<noteq> 0"
proof -
  assume a: "epoch h < t" "t - epoch h < 2 ^ 64"
  then have "unat (elapsed_ns h t) = t - epoch h"
    by (simp add: elapsed_ns_def duration_since_def unat_u64_of_nat)
  then show ?thesis using a by auto
qed

lemma saturating_report:
  assumes "epoch h \<le> t" "t \<le> now" "now - epoch h < 2 ^ 63" "opened_at_ns h = elapsed_ns h t"
    and "int ((now - t) div 1000000) \<le> unix_ms" "unix_ms < 2 ^ 63"
  shows "unat (opened_at_unix_ms h now unix_ms) = nat unix_ms - (now - t) div 1000000"
proof -
  have "unat (elapsed_ns h now) = now - epoch h" "unat (elapsed_ns h t) = t - epoch h"
    using assms by (simp_all add: elapsed_ns_def duration_since_def unat_u64_of_nat)
  then have u: "unat (saturating_sub (elapsed_ns h now) (opened_at_ns h)) = now - t"
    using assms by (simp add: unat_saturating_sub)
  have "uint (saturating_sub (elapsed_ns h now) (opened_at_ns h)) =
      int (unat (saturating_sub (elapsed_ns h now) (opened_at_ns h)))" by simp
  also have "\<dots> = int (now - t)" by (simp only: u)
  finally have "uint (saturating_sub (elapsed_ns h now) (opened_at_ns h)) = int (now - t)" .
  then have "sint (saturating_sub (elapsed_ns h now) (opened_at_ns h)) = int (now - t)"
    using assms(1,2,3) by (simp add: sint_uint signed_take_bit_int_eq_self)
  then have "opened_at_unix_ms h now unix_ms = word_of_int (unix_ms - int ((now - t) div 1000000))"
    using assms(5,6) by (simp add: opened_at_unix_ms_def i64_clamp_def trunc_div_def zdiv_int)
  also have "unix_ms - int ((now - t) div 1000000) = int (nat unix_ms - (now - t) div 1000000)"
    using assms(5) by linarith
  finally have "opened_at_unix_ms h now unix_ms = word_of_nat (nat unix_ms - (now - t) div 1000000)"
    by (simp only: of_int_of_nat_eq)
  then show ?thesis using assms(6) by (simp add: unat_of_nat)
qed

section \<open>Properties\<close>

text \<open>
  C13: A fresh breaker that records failures at the instants \<open>ts\<close> stays closed while there are
  fewer of them than the configured threshold (a threshold of zero acts as one), and once the
  threshold is reached it is open for exactly \<^verbatim>\<open>open_duration\<close> from the failure that reached it
  and half-open afterwards, however many further failures follow.
\<close>
theorem breaker_opens_at_threshold:
  assumes "h = new_circuit_breaker p c t0" "length ts < 2 ^ 32" "open_duration c < 2 ^ 64"
    and "\<forall>t \<in> set ts. t0 < t \<and> t - t0 < 2 ^ 64"
    and "n = max 1 (unat (failure_threshold c))"
  shows "(length ts < n \<longrightarrow> state (record_failures h ts) now = Closed) \<and>
    (n \<le> length ts \<and> ts ! (n - 1) \<le> now \<and> now - t0 < 2 ^ 64 \<longrightarrow>
       state (record_failures h ts) now =
         (if now < ts ! (n - 1) + open_duration c then Open else HalfOpen))"
proof (intro conjI impI)
  let ?r = "record_failures h ts"
  have h: "failures h = 0" "opened_at_ns h = 0" "config h = c" "epoch h = t0" "forced_open_until h = None"
    by (simp_all add: assms(1) new_circuit_breaker_def)
  have ticks: "\<forall>t \<in> set ts. elapsed_ns h t \<noteq> 0"
    using assms(4) h(4) by (intro ballI elapsed_pos) auto
  note op = record_failures_opened [OF h(1,2) assms(2) ticks, of n]
  have nf: "\<not> forced_open ?r now" by (simp add: forced_open_def h)
  {
    assume "length ts < n"
    then show "state ?r now = Closed" using op assms(5) h nf by (simp add: state_Closed_iff)
  next
    assume a: "n \<le> length ts \<and> ts ! (n - 1) \<le> now \<and> now - t0 < 2 ^ 64"
    let ?t = "ts ! (n - 1)"
    have mem: "?t \<in> set ts" using a assms(5) by (intro nth_mem) auto
    have el: "elapsed_ns ?r = elapsed_ns h" by (simp add: fun_eq_iff elapsed_ns_def)
    have "opened_at_ns ?r = elapsed_ns h ?t" using op a assms(5) h(3) by (auto simp: max_def split: if_splits)
    moreover have "t0 \<le> ?t" using mem assms(4) less_imp_le by blast
    ultimately show "state ?r now = (if now < ?t + open_duration c then Open else HalfOpen)"
      using state_window [of ?r now ?t] nf el mem ticks a assms(3) h(3,4) by simp
  }
qed

theorem breaker_opens_at_threshold_witness:
  "let c = \<lparr>failure_threshold = 2, open_duration = 30, half_open_max_probes = 1\<rparr>;
       h = new_circuit_breaker provider_kind.OpenAi c 5
   in state (record_failures h [7]) 8 = Closed \<and>
      state (record_failures h [7, 9, 11]) 38 = Open \<and>
      state (record_failures h [7, 9, 11]) 39 = HalfOpen"
proof -
  let ?c = "\<lparr>failure_threshold = 2, open_duration = 30, half_open_max_probes = 1\<rparr> :: circuit_breaker_config"
  let ?h = "new_circuit_breaker provider_kind.OpenAi ?c 5"
  have n: "2 = max 1 (unat (failure_threshold ?c))" by simp
  have "state (record_failures ?h [7]) 8 = Closed"
    using breaker_opens_at_threshold [OF refl _ _ _ n, of "[7]" 5 provider_kind.OpenAi 8] by simp
  moreover have "state (record_failures ?h [7, 9, 11]) 38 = Open"
    using breaker_opens_at_threshold [OF refl _ _ _ n, of "[7, 9, 11]" 5 provider_kind.OpenAi 38] by simp
  moreover have "state (record_failures ?h [7, 9, 11]) 39 = HalfOpen"
    using breaker_opens_at_threshold [OF refl _ _ _ n, of "[7, 9, 11]" 5 provider_kind.OpenAi 39] by simp
  ultimately show ?thesis by (simp only: Let_def)
qed



text \<open>
  \<^verbatim>\<open>run\<close> consults the breaker first.  While it is open the wrapped request is not sent, the
  caller gets \<^verbatim>\<open>CircuitOpen\<close> and the breaker is unchanged; otherwise the request runs and its
  result is returned as it is: a success closes the breaker (unless it is forced open) and
  resets the count, an error that is no circuit failure (a rate limit, a 4xx, a content filter)
  leaves the breaker unchanged, and a circuit failure adds one to the count.
\<close>
theorem cb_run_gates_and_records:
  assumes "cb_run h now u done f = (sent, res, h')"
  shows "(sent \<longleftrightarrow> state h now \<noteq> Open) \<and>
    (\<not> sent \<longrightarrow> h' = h \<and> (\<exists>a b. res = Inl (CircuitOpen (provider h) a b))) \<and>
    (sent \<longrightarrow> res = f) \<and>
    (\<forall>v. sent \<and> f = Inr v \<longrightarrow> failures h' = 0 \<and>
       state h' done = (if forced_open h done then Open else Closed)) \<and>
    (\<forall>e. sent \<and> f = Inl e \<and> \<not> counts_as_circuit_failure e \<longrightarrow> h' = h) \<and>
    (\<forall>e. sent \<and> f = Inl e \<and> counts_as_circuit_failure e \<longrightarrow> failures h' = failures h + 1)"
  using assms
  by (auto simp: cb_run_def check_def record_success_def state_def forced_open_def
      split: circuit_state.splits sum.splits if_splits option.splits)

theorem cb_run_gates_and_records_witness:
  "cb_run (new_circuit_breaker provider_kind.OpenAi default_circuit_breaker_config 0) 3 0 9
     (Inl (ServerError 503 None) :: unit inference_result) =
   (True, Inl (ServerError 503 None),
    (new_circuit_breaker provider_kind.OpenAi default_circuit_breaker_config 0)\<lparr>failures := 1\<rparr>) \<and>
   (True \<longleftrightarrow> state (new_circuit_breaker provider_kind.OpenAi default_circuit_breaker_config 0) 3 \<noteq> Open)"
proof -
  let ?h = "new_circuit_breaker provider_kind.OpenAi default_circuit_breaker_config 0"
  have r: "cb_run ?h 3 0 9 (Inl (ServerError 503 None) :: unit inference_result) =
     (True, Inl (ServerError 503 None), ?h\<lparr>failures := 1\<rparr>)"
    by (simp add: cb_run_def check_def state_def forced_open_def new_circuit_breaker_def
        record_failure_def Let_def default_circuit_breaker_config_def word_le_nat_alt)
  show ?thesis using r cb_run_gates_and_records [OF r] by simp
qed

text \<open>
  The times an open breaker reports.  A breaker that opened at instant \<open>t\<close> reports as
  \<^verbatim>\<open>opened_at\<close> the wall clock minus the whole milliseconds elapsed since \<open>t\<close>, and as
  \<^verbatim>\<open>retry_at\<close> that time plus the open duration, saturating at the largest 64-bit value.
\<close>
theorem open_report_times:
  assumes "epoch h \<le> t" "t \<le> now" "now - epoch h < 2 ^ 63" "opened_at_ns h = elapsed_ns h t"
    and "int ((now - t) div 1000000) \<le> unix_ms" "unix_ms < 2 ^ 63"
    and "open_duration (config h) < 2 ^ 64" "state h now = Open"
  shows "\<exists>opened retry. check h now unix_ms = Inl (CircuitOpen (provider h) opened retry) \<and>
    unat opened = nat unix_ms - (now - t) div 1000000 \<and>
    unat retry = min (unat opened + open_duration (config h) div 1000000) (2 ^ 64 - 1)"
proof -
  have "as_millis (open_duration (config h)) < 2 ^ 64"
    using assms(7) by (simp add: as_millis_def)
  then have "unat (u64_of_nat (as_millis (open_duration (config h)))) = open_duration (config h) div 1000000"
    by (simp add: unat_u64_of_nat as_millis_def)
  then show ?thesis
    using assms saturating_report [OF assms(1-6)]
    by (simp add: check_def retry_at_unix_ms_def unat_saturating_add)
qed

theorem open_report_times_witness:
  "let h = record_failures (new_circuit_breaker provider_kind.Gemini
             \<lparr>failure_threshold = 1, open_duration = 30000000, half_open_max_probes = 1\<rparr> 0) [5000000]
   in \<exists>opened retry. check h 12000000 1000 = Inl (CircuitOpen provider_kind.Gemini opened retry) \<and>
        unat opened = 993 \<and> unat retry = 1023"
proof -
  let ?h = "record_failures (new_circuit_breaker provider_kind.Gemini
             \<lparr>failure_threshold = 1, open_duration = 30000000, half_open_max_probes = 1\<rparr> 0) [5000000]"
  have h: "?h = \<lparr>provider = provider_kind.Gemini,
      config = \<lparr>failure_threshold = 1, open_duration = 30000000, half_open_max_probes = 1\<rparr>,
      failures = 1, opened_at_ns = 5000000, epoch = 0, forced_open_until = None\<rparr>"
    by (simp add: record_failures_def record_failure_def new_circuit_breaker_def elapsed_ns_def
        duration_since_def u64_of_nat_def)
  have "state ?h 12000000 = Open"
    unfolding h by (simp add: state_def forced_open_def elapsed_ns_def duration_since_def
        u64_of_nat_def saturating_sub_def)
  then show ?thesis
    using open_report_times [of ?h 5000000 12000000 1000]
    by (auto simp: h elapsed_ns_def duration_since_def u64_of_nat_def)
qed

end
