(* ===== verification/Rate_Limit.thy ===== *)
theory Rate_Limit
  imports Core_Types
begin

text \<open>
  \<^verbatim>\<open>inference-remote-core/src/rate_limit.rs\<close>: the window-based limiter, its strict variant and the
  read-only handle.  The grow-only counter of \<^verbatim>\<open>atomr_distributed_data\<close> is not part of the
  repository: its three operations are the argument \<open>ops\<close> of the definitions, over an opaque
  type \<open>'g\<close> of counters and \<open>'d\<close> of deltas.  The oneshot reply of a message is the result of
  the handler.
  The locale \<open>metered_gate\<close> states what a gate that meters a resource per window promises for
  one acquisition and derives the bound for a whole sequence; both limiters interpret it.
\<close>

section \<open>State\<close>

record permit =
  p_requests :: u32
  p_tokens :: u32

record acquire_permit =
  ap_requests :: u32
  ap_tokens :: u32

record window =
  started_at :: "instant option"
  w_requests :: u64
  w_tokens :: u64

definition default_window :: window where
  "default_window = \<lparr>started_at = None, w_requests = 0, w_tokens = 0\<rparr>"

record ('g, 'd) gcounter_ops =
  gc_new :: 'g
  gc_increment :: "string \<Rightarrow> u64 \<Rightarrow> 'g \<Rightarrow> 'g"
  gc_merge_delta :: "'d \<Rightarrow> 'g \<Rightarrow> 'g"

record 'g rate_limiter =
  node_id :: string
  limits :: rate_limits
  requests_counter :: 'g
  tokens_counter :: 'g
  window :: window

section \<open>Operations\<close>

definition new_rate_limiter :: "('g, 'd) gcounter_ops \<Rightarrow> string \<Rightarrow> rate_limits \<Rightarrow> 'g rate_limiter" where
  "new_rate_limiter ops node l = \<lparr>node_id = node, limits = l, requests_counter = gc_new ops,
     tokens_counter = gc_new ops, window = default_window\<rparr>"

definition snapshot :: "'g rate_limiter \<Rightarrow> u64 \<times> u64" where
  "snapshot rl = (w_requests (window rl), w_tokens (window rl))"

definition merge_remote_delta_requests :: "('g, 'd) gcounter_ops \<Rightarrow> 'd \<Rightarrow> 'g rate_limiter \<Rightarrow> 'g rate_limiter" where
  "merge_remote_delta_requests ops d rl =
     rl\<lparr>requests_counter := gc_merge_delta ops d (requests_counter rl)\<rparr>"

definition merge_remote_delta_tokens :: "('g, 'd) gcounter_ops \<Rightarrow> 'd \<Rightarrow> 'g rate_limiter \<Rightarrow> 'g rate_limiter" where
  "merge_remote_delta_tokens ops d rl =
     rl\<lparr>tokens_counter := gc_merge_delta ops d (tokens_counter rl)\<rparr>"

definition needs_reset :: "window \<Rightarrow> instant \<Rightarrow> bool" where
  "needs_reset w now = (case started_at w of
     Some started \<Rightarrow> from_secs 60 \<le> duration_since now started
   | None \<Rightarrow> True)"

definition rotate_window_if_needed :: "('g, 'd) gcounter_ops \<Rightarrow> instant \<Rightarrow> 'g rate_limiter \<Rightarrow> 'g rate_limiter" where
  "rotate_window_if_needed ops now rl =
     (if needs_reset (window rl) now
      then rl\<lparr>window := \<lparr>started_at = Some now, w_requests = 0, w_tokens = 0\<rparr>,
              requests_counter := gc_new ops, tokens_counter := gc_new ops\<rparr>
      else rl)"

definition over_limit :: "u64 option \<Rightarrow> u64 \<Rightarrow> u32 \<Rightarrow> bool" where
  "over_limit lmt used n = (case lmt of None \<Rightarrow> False | Some l \<Rightarrow> l < used + as_u64 n)"

definition limit_message :: "string \<Rightarrow> u64 \<Rightarrow> u64 option \<Rightarrow> string" where
  "limit_message what used lmt =
     what @ ''-per-minute limit reached ('' @ show_word used @ ''/'' @
       (case lmt of None \<Rightarrow> [] | Some l \<Rightarrow> show_word l) @ '')''"

definition acquire :: "('g, 'd) gcounter_ops \<Rightarrow> instant \<Rightarrow> acquire_permit \<Rightarrow> 'g rate_limiter \<Rightarrow>
    permit inference_result \<times> 'g rate_limiter" where
  "acquire ops now req rl0 =
     (let rl = rotate_window_if_needed ops now rl0; w = window rl in
      if over_limit (requests_per_minute (limits rl)) (w_requests w) (ap_requests req)
      then (Inl (Backpressure (limit_message ''requests'' (w_requests w) (requests_per_minute (limits rl)))), rl)
      else if over_limit (tokens_per_minute (limits rl)) (w_tokens w) (ap_tokens req)
      then (Inl (Backpressure (limit_message ''tokens'' (w_tokens w) (tokens_per_minute (limits rl)))), rl)
      else (Inr \<lparr>p_requests = ap_requests req, p_tokens = ap_tokens req\<rparr>,
            rl\<lparr>window := w\<lparr>w_requests := w_requests w + as_u64 (ap_requests req),
                           w_tokens := w_tokens w + as_u64 (ap_tokens req)\<rparr>,
               requests_counter := gc_increment ops (node_id rl) (as_u64 (ap_requests req)) (requests_counter rl),
               tokens_counter := gc_increment ops (node_id rl) (as_u64 (ap_tokens req)) (tokens_counter rl)\<rparr>))"

text \<open>\<^verbatim>\<open>impl Actor for RateLimiterActor\<close>: the reply is what \<^verbatim>\<open>acquire\<close> returns.\<close>

definition rate_limiter_handle :: "('g, 'd) gcounter_ops \<Rightarrow> instant \<Rightarrow> acquire_permit \<Rightarrow> 'g rate_limiter \<Rightarrow>
    permit inference_result \<times> 'g rate_limiter" where
  "rate_limiter_handle ops now msg rl = acquire ops now msg rl"

record 'g strict_rate_limiter =
  inner :: "'g rate_limiter"

definition new_strict_rate_limiter :: "'g rate_limiter \<Rightarrow> 'g strict_rate_limiter" where
  "new_strict_rate_limiter rl = \<lparr>inner = rl\<rparr>"

definition strict_handle :: "('g, 'd) gcounter_ops \<Rightarrow> instant \<Rightarrow> acquire_permit \<Rightarrow> 'g strict_rate_limiter \<Rightarrow>
    permit inference_result \<times> 'g strict_rate_limiter" where
  "strict_handle ops now msg s =
     (let (res, rl) = acquire ops now msg (inner s) in (res, s\<lparr>inner := rl\<rparr>))"

section \<open>The interface of a metered gate\<close>

text \<open>
  A gate meters the requests of the current window.  \<open>spent\<close> is what it has granted in the
  window that began at \<open>start\<close>; \<open>fits\<close> says a demand still fits.  One step either keeps the
  window and adds exactly the granted demand, or opens a new window first.
\<close>

fun gate_run :: "('t \<Rightarrow> 'm \<Rightarrow> 's \<Rightarrow> 'r \<times> 's) \<Rightarrow> 's \<Rightarrow> ('t \<times> 'm) list \<Rightarrow> 'r list \<times> 's" where
  "gate_run step s [] = ([], s)"
| "gate_run step s ((t, m) # ms) =
     (let (r, s') = step t m s; (rs, s'') = gate_run step s' ms in (r # rs, s''))"

definition granted :: "('m \<Rightarrow> nat) \<Rightarrow> (instant \<times> 'm) list \<Rightarrow> (inference_error + 'p) list \<Rightarrow> nat" where
  "granted cost ms rs = sum_list (map (\<lambda>((t, m), r). case r of Inr _ \<Rightarrow> cost m | Inl _ \<Rightarrow> 0) (zip ms rs))"

lemma granted_simps [simp]:
  "granted cost [] rs = 0"
  "granted cost ((t, m) # ms) (r # rs) =
     (case r of Inr _ \<Rightarrow> cost m | Inl _ \<Rightarrow> 0) + granted cost ms rs"
  by (simp_all add: granted_def)

locale metered_gate =
  fixes step :: "instant \<Rightarrow> 'm \<Rightarrow> 's \<Rightarrow> (inference_error + 'p) \<times> 's"
    and start :: "'s \<Rightarrow> instant option"
    and spent :: "'s \<Rightarrow> nat"
    and cap :: "'s \<Rightarrow> nat"
    and cost :: "'m \<Rightarrow> nat"
    and invar :: "'s \<Rightarrow> bool"
  assumes step_invar: "invar s \<Longrightarrow> step t m s = (r, s') \<Longrightarrow> invar s' \<and> cap s' = cap s"
    and step_stay: "invar s \<Longrightarrow> start s = Some t0 \<Longrightarrow> t - t0 < from_secs 60 \<Longrightarrow>
      step t m s = (r, s') \<Longrightarrow>
      start s' = Some t0 \<and> spent s' = spent s + (case r of Inr _ \<Rightarrow> cost m | Inl _ \<Rightarrow> 0)"
    and spent_cap: "invar s \<Longrightarrow> spent s \<le> cap s"
begin

lemma run_invar:
  "invar s \<Longrightarrow> gate_run step s ms = (rs, s') \<Longrightarrow> invar s' \<and> cap s' = cap s"
proof (induction ms arbitrary: s rs)
  case Nil
  then show ?case by simp
next
  case (Cons tm ms)
  obtain t m where tm: "tm = (t, m)" by (cases tm)
  obtain r s1 where st: "step t m s = (r, s1)" by (cases "step t m s")
  obtain rs1 s2 where rn: "gate_run step s1 ms = (rs1, s2)" by (cases "gate_run step s1 ms")
  from step_invar [OF Cons.prems(1) st] Cons.IH [of s1 rs1] Cons.prems(2) tm st rn show ?case by auto
qed

lemma run_stay:
  assumes "invar s" "start s = Some t0" "\<forall>(t, m) \<in> set ms. t - t0 < from_secs 60"
    and "gate_run step s ms = (rs, s')"
  shows "invar s' \<and> cap s' = cap s \<and> spent s' = spent s + granted cost ms rs \<and> length rs = length ms"
  using assms
proof (induction ms arbitrary: s rs s')
  case Nil
  then show ?case by simp
next
  case (Cons tm ms)
  obtain t m where tm: "tm = (t, m)" by (cases tm)
  obtain r s1 where st: "step t m s = (r, s1)" by (cases "step t m s")
  obtain rs1 s2 where rn: "gate_run step s1 ms = (rs1, s2)" by (cases "gate_run step s1 ms")
  have i: "invar s1" "cap s1 = cap s" using step_invar Cons.prems(1) st by auto
  have k: "start s1 = Some t0" "spent s1 = spent s + (case r of Inr _ \<Rightarrow> cost m | Inl _ \<Rightarrow> 0)"
    using step_stay [OF Cons.prems(1,2) _ st] Cons.prems(3) tm by auto
  have "s' = s2" "rs = r # rs1" using Cons.prems(4) tm st rn by auto
  with Cons.IH [OF i(1) k(1) _ rn] Cons.prems(3) i(2) k(2) tm show ?case by auto
qed

lemma run_window_bound:
  assumes "invar s0" "gate_run step s0 hist = (hs, s)"
    and "start s = Some t0" "\<forall>(t, m) \<in> set ms. t - t0 < from_secs 60"
    and "gate_run step s ms = (rs, s')"
  shows "spent s + granted cost ms rs \<le> cap s0"
proof -
  have i: "invar s" "cap s = cap s0" using run_invar [OF assms(1,2)] by auto
  show ?thesis using run_stay [OF i(1) assms(3,4,5)] spent_cap i(2) by metis
qed

end

section \<open>One acquisition\<close>

lemma rotate_fields [simp]:
  "node_id (rotate_window_if_needed ops now rl) = node_id rl"
  "limits (rotate_window_if_needed ops now rl) = limits rl"
  by (simp_all add: rotate_window_if_needed_def)

lemma rotate_window [simp]:
  "window (rotate_window_if_needed ops now rl) =
     (if needs_reset (window rl) now then \<lparr>started_at = Some now, w_requests = 0, w_tokens = 0\<rparr> else window rl)"
  by (simp add: rotate_window_if_needed_def)

text \<open>A limit that leaves room for one more 32-bit demand below the 64-bit range.\<close>

definition sane_limit :: "u64 option \<Rightarrow> bool" where
  "sane_limit lmt = (case lmt of None \<Rightarrow> False | Some l \<Rightarrow> unat l + 2 ^ 32 \<le> 2 ^ 64)"

definition under :: "u64 option \<Rightarrow> u64 \<Rightarrow> bool" where
  "under lmt used = (case lmt of None \<Rightarrow> True | Some l \<Rightarrow> used \<le> l)"

lemma not_over_limit:
  assumes "sane_limit lmt" "under lmt used" "\<not> over_limit lmt used n"
  shows "unat (used + as_u64 n) = unat used + unat n \<and> under lmt (used + as_u64 n)"
proof -
  obtain l where l: "lmt = Some l" using assms(1) by (auto simp: sane_limit_def split: option.splits)
  have "unat used + unat (as_u64 n) < 2 ^ LENGTH(64)"
    using assms(1,2) l unat_u32_bound [of n] by (simp add: sane_limit_def under_def word_le_nat_alt)
  then have "unat (used + as_u64 n) = unat used + unat n"
    using unat_plus_no_overflow [of used "as_u64 n"] by simp
  then show ?thesis using assms(3) l by (simp add: over_limit_def under_def not_less)
qed

lemma over_limit_iff:
  assumes "lmt = Some l" "unat l + 2 ^ 32 \<le> 2 ^ 64" "used \<le> l"
  shows "over_limit lmt used n \<longleftrightarrow> unat l < unat used + unat n"
proof -
  have "unat used + unat (as_u64 n) < 2 ^ LENGTH(64)"
    using assms(2,3) unat_u32_bound [of n] by (simp add: word_le_nat_alt)
  then show ?thesis
    using assms(1) unat_plus_no_overflow [of used "as_u64 n"]
    by (simp add: over_limit_def word_less_nat_alt)
qed

text \<open>What \<^verbatim>\<open>acquire\<close> charges, and when it refuses.\<close>

lemma acquire_window:
  assumes "acquire ops now m rl = (r, rl')"
  shows "limits rl' = limits rl"
    and "window rl' = (let w = window (rotate_window_if_needed ops now rl) in
      case r of Inl _ \<Rightarrow> w
      | Inr _ \<Rightarrow> w\<lparr>w_requests := w_requests w + as_u64 (ap_requests m),
                  w_tokens := w_tokens w + as_u64 (ap_tokens m)\<rparr>)"
  using assms by (auto simp: acquire_def Let_def split: if_splits)

lemma acquire_Inr:
  assumes "acquire ops now m rl = (Inr p, rl')"
  shows "\<not> over_limit (requests_per_minute (limits rl)) (w_requests (window (rotate_window_if_needed ops now rl))) (ap_requests m)"
    and "\<not> over_limit (tokens_per_minute (limits rl)) (w_tokens (window (rotate_window_if_needed ops now rl))) (ap_tokens m)"
  using assms by (auto simp: acquire_def Let_def split: if_splits)

lemma acquire_stay:
  assumes "started_at (window rl) = Some t0" "t - t0 < from_secs 60"
  shows "rotate_window_if_needed ops t rl = rl"
  using assms by (simp add: rotate_window_if_needed_def needs_reset_def duration_since_def)

text \<open>The invariant of a metered limiter, for the requests and for the tokens.\<close>

definition requests_invar :: "'g rate_limiter \<Rightarrow> bool" where
  "requests_invar rl \<longleftrightarrow> sane_limit (requests_per_minute (limits rl)) \<and>
     under (requests_per_minute (limits rl)) (w_requests (window rl))"

definition tokens_invar :: "'g rate_limiter \<Rightarrow> bool" where
  "tokens_invar rl \<longleftrightarrow> sane_limit (tokens_per_minute (limits rl)) \<and>
     under (tokens_per_minute (limits rl)) (w_tokens (window rl))"

abbreviation cap_of :: "u64 option \<Rightarrow> nat" where
  "cap_of l \<equiv> (case l of None \<Rightarrow> 0 | Some n \<Rightarrow> unat n)"

lemma under_0 [simp]: "under l 0"
  by (simp add: under_def split: option.splits)

lemma under_cap: "sane_limit l \<Longrightarrow> under l n \<Longrightarrow> unat n \<le> cap_of l"
  by (auto simp: sane_limit_def under_def word_le_nat_alt split: option.splits)

lemma acquire_requests_invar [step_inv]:
  assumes "requests_invar rl" "acquire ops now m rl = (r, rl')"
  shows "requests_invar rl'"
proof (cases r)
  case (Inl e)
  then show ?thesis using assms acquire_window [OF assms(2)] by (auto simp: requests_invar_def Let_def)
next
  case (Inr p)
  then show ?thesis
    using assms acquire_window [OF assms(2)] acquire_Inr(1) [OF assms(2) [unfolded Inr]] not_over_limit
    by (force simp: requests_invar_def Let_def split: if_splits)
qed

lemma acquire_tokens_invar [step_inv]:
  assumes "tokens_invar rl" "acquire ops now m rl = (r, rl')"
  shows "tokens_invar rl'"
proof (cases r)
  case (Inl e)
  then show ?thesis using assms acquire_window [OF assms(2)] by (auto simp: tokens_invar_def Let_def)
next
  case (Inr p)
  then show ?thesis
    using assms acquire_window [OF assms(2)] acquire_Inr(2) [OF assms(2) [unfolded Inr]] not_over_limit
    by (force simp: tokens_invar_def Let_def split: if_splits)
qed

interpretation rpm: metered_gate "rate_limiter_handle ops" "\<lambda>rl. started_at (window rl)"
  "\<lambda>rl. unat (w_requests (window rl))" "\<lambda>rl. cap_of (requests_per_minute (limits rl))"
  "\<lambda>m. unat (ap_requests m)" requests_invar for ops :: "('g, 'd) gcounter_ops"
proof (unfold_locales, unfold rate_limiter_handle_def, goal_cases)
  case (1 s t m r s')
  then show ?case using acquire_requests_invar acquire_window(1) by metis
next
  case (2 s t0 t m r s')
  note w = acquire_window [OF 2(4)]
  show ?case
  proof (cases r)
    case (Inl e)
    then show ?thesis using w 2 by (simp add: acquire_stay Let_def del: rotate_window)
  next
    case (Inr p)
    show ?thesis
      using w 2 Inr acquire_Inr(1) [OF 2(4) [unfolded Inr]]
        not_over_limit [of "requests_per_minute (limits s)" "w_requests (window s)" "ap_requests m"]
      by (simp add: acquire_stay Let_def requests_invar_def del: rotate_window)
  qed
next
  case (3 s)
  then show ?case by (auto simp: requests_invar_def intro: under_cap)
qed

interpretation tpm: metered_gate "rate_limiter_handle ops" "\<lambda>rl. started_at (window rl)"
  "\<lambda>rl. unat (w_tokens (window rl))" "\<lambda>rl. cap_of (tokens_per_minute (limits rl))"
  "\<lambda>m. unat (ap_tokens m)" tokens_invar for ops :: "('g, 'd) gcounter_ops"
proof (unfold_locales, unfold rate_limiter_handle_def, goal_cases)
  case (1 s t m r s')
  then show ?case using acquire_tokens_invar acquire_window(1) by metis
next
  case (2 s t0 t m r s')
  note w = acquire_window [OF 2(4)]
  show ?case
  proof (cases r)
    case (Inl e)
    then show ?thesis using w 2 by (simp add: acquire_stay Let_def del: rotate_window)
  next
    case (Inr p)
    show ?thesis
      using w 2 Inr acquire_Inr(2) [OF 2(4) [unfolded Inr]]
        not_over_limit [of "tokens_per_minute (limits s)" "w_tokens (window s)" "ap_tokens m"]
      by (simp add: acquire_stay Let_def tokens_invar_def del: rotate_window)
  qed
next
  case (3 s)
  then show ?case by (auto simp: tokens_invar_def intro: under_cap)
qed

section \<open>Simulations\<close>

lemma gate_run_simulation:
  assumes "R s1 s2"
    and "\<And>a b t m. R a b \<Longrightarrow> fst (f t m a) = fst (g t m b) \<and> R (snd (f t m a)) (snd (g t m b))"
  shows "fst (gate_run f s1 ms) = fst (gate_run g s2 ms) \<and>
         R (snd (gate_run f s1 ms)) (snd (gate_run g s2 ms))"
  using assms(1)
proof (induction ms arbitrary: s1 s2)
  case Nil
  then show ?case by simp
next
  case (Cons tm ms)
  obtain t m where tm: "tm = (t, m)" by (cases tm)
  from assms(2) [OF Cons.prems, of t m] Cons.IH [of "snd (f t m s1)" "snd (g t m s2)"]
  show ?case by (simp add: tm split_beta Let_def)
qed

definition same_view :: "'g rate_limiter \<Rightarrow> 'h rate_limiter \<Rightarrow> bool" where
  "same_view a b \<longleftrightarrow> limits a = limits b \<and> window a = window b"

lemma same_view_step:
  "same_view a b \<Longrightarrow>
     fst (rate_limiter_handle ops t m a) = fst (rate_limiter_handle ops' t m b) \<and>
     same_view (snd (rate_limiter_handle ops t m a)) (snd (rate_limiter_handle ops' t m b))"
  by (simp add: same_view_def rate_limiter_handle_def acquire_def Let_def)

section \<open>Properties\<close>

text \<open>C12: the requests-per-minute limit holds.  Take a limiter created with a requests limit \<open>l\<close>
  that leaves 32 bits of headroom in the 64-bit counter (the sum is computed in \<^verbatim>\<open>u64\<close>), and any
  history of acquisitions.  In the window that is open afterwards, what the window has already
  charged plus all that any further sequence of acquisitions inside the 60 seconds is granted
  never exceeds \<open>l\<close>.\<close>

theorem requests_limit_per_window:
  assumes "requests_per_minute lims = Some l" "unat l + 2 ^ 32 \<le> 2 ^ 64"
    and "gate_run (rate_limiter_handle ops) (new_rate_limiter ops node lims) hist = (hs, s)"
    and "started_at (window s) = Some t0" "\<forall>(t, m) \<in> set ms. t - t0 < from_secs 60"
    and "gate_run (rate_limiter_handle ops) s ms = (rs, s')"
  shows "unat (w_requests (window s)) + granted (\<lambda>m. unat (ap_requests m)) ms rs \<le> unat l"
proof -
  have "requests_invar (new_rate_limiter ops node lims)"
    using assms(1,2) by (simp add: requests_invar_def new_rate_limiter_def sane_limit_def default_window_def)
  from rpm.run_window_bound [OF this assms(3-6)] show ?thesis
    using assms(1) by (simp add: new_rate_limiter_def)
qed

text \<open>The tokens-per-minute limit holds in the same sense.\<close>

theorem tokens_limit_per_window:
  assumes "tokens_per_minute lims = Some l" "unat l + 2 ^ 32 \<le> 2 ^ 64"
    and "gate_run (rate_limiter_handle ops) (new_rate_limiter ops node lims) hist = (hs, s)"
    and "started_at (window s) = Some t0" "\<forall>(t, m) \<in> set ms. t - t0 < from_secs 60"
    and "gate_run (rate_limiter_handle ops) s ms = (rs, s')"
  shows "unat (w_tokens (window s)) + granted (\<lambda>m. unat (ap_tokens m)) ms rs \<le> unat l"
proof -
  have "tokens_invar (new_rate_limiter ops node lims)"
    using assms(1,2) by (simp add: tokens_invar_def new_rate_limiter_def sane_limit_def default_window_def)
  from tpm.run_window_bound [OF this assms(3-6)] show ?thesis
    using assms(1) by (simp add: new_rate_limiter_def)
qed

text \<open>The limit is per node.  Whatever deltas of other nodes have been merged into the two
  distributed counters, a limiter answers every sequence of acquisitions as if none had been:
  the admission decision reads only the local window, so the cluster-wide budget of the module
  documentation is not enforced; and the strict variant answers as the approximate one does.\<close>

theorem admission_ignores_remote_spend:
  "fst (gate_run (rate_limiter_handle ops)
      (merge_remote_delta_requests ops d (merge_remote_delta_tokens ops d' rl)) ms) =
    fst (gate_run (rate_limiter_handle ops) rl ms) \<and>
   fst (gate_run (strict_handle ops) (new_strict_rate_limiter rl) ms) =
    fst (gate_run (rate_limiter_handle ops) rl ms)"
proof
  have v: "same_view (merge_remote_delta_requests ops d (merge_remote_delta_tokens ops d' rl)) rl"
    by (simp add: same_view_def merge_remote_delta_requests_def merge_remote_delta_tokens_def)
  show "fst (gate_run (rate_limiter_handle ops)
          (merge_remote_delta_requests ops d (merge_remote_delta_tokens ops d' rl)) ms) =
        fst (gate_run (rate_limiter_handle ops) rl ms)"
    using gate_run_simulation [of same_view _ _ "rate_limiter_handle ops" "rate_limiter_handle ops", OF v]
      same_view_step by blast
  show "fst (gate_run (strict_handle ops) (new_strict_rate_limiter rl) ms) =
        fst (gate_run (rate_limiter_handle ops) rl ms)"
    using gate_run_simulation [of "\<lambda>a b. inner a = b" "new_strict_rate_limiter rl" rl
        "strict_handle ops" "rate_limiter_handle ops" ms]
    by (auto simp: new_strict_rate_limiter_def strict_handle_def rate_limiter_handle_def split_beta Let_def)
qed

text \<open>A counter that only sums, as the concrete instance of the distributed one.\<close>

definition sum_counter :: "(nat, nat) gcounter_ops" where
  "sum_counter = \<lparr>gc_new = 0, gc_increment = (\<lambda>_ n g. g + unat n), gc_merge_delta = (\<lambda>d g. max d g)\<rparr>"

definition two_per_minute :: rate_limits where
  "two_per_minute = \<lparr>requests_per_minute = Some 2, tokens_per_minute = Some 100, concurrent_requests = None, strict = False\<rparr>"

lemmas limiter_eval = rate_limiter_handle_def acquire_def new_rate_limiter_def rotate_window_if_needed_def
  needs_reset_def duration_since_def default_window_def over_limit_def two_per_minute_def sum_counter_def
  from_secs_def Let_def

text \<open>One request opens the window; of the next two, one second later, only the first is granted.\<close>

definition ask :: acquire_permit where
  "ask = \<lparr>ap_requests = 1, ap_tokens = 40\<rparr>"

theorem requests_limit_per_window_witness:
  "granted (\<lambda>m. unat (ap_requests m)) [(1000000000, ask), (1000000001, ask)]
     (fst (gate_run (rate_limiter_handle sum_counter)
       (snd (gate_run (rate_limiter_handle sum_counter)
          (new_rate_limiter sum_counter ''n'' two_per_minute) [(5, ask)]))
       [(1000000000, ask), (1000000001, ask)])) = 1 \<and>
   unat (1 :: u64) + 1 \<le> unat (2 :: u64)"
  using requests_limit_per_window [of two_per_minute 2 sum_counter "''n''" "[(5, ask)]" _ _ 5
      "[(1000000000, ask), (1000000001, ask)]", OF _ _ surjective_pairing _ _ surjective_pairing]
  by (simp add: limiter_eval ask_def)

theorem tokens_limit_per_window_witness:
  "granted (\<lambda>m. unat (ap_tokens m)) [(1000000000, ask), (1000000001, ask)]
     (fst (gate_run (rate_limiter_handle sum_counter)
       (snd (gate_run (rate_limiter_handle sum_counter)
          (new_rate_limiter sum_counter ''n'' two_per_minute) [(5, ask)]))
       [(1000000000, ask), (1000000001, ask)])) = 40 \<and>
   unat (40 :: u64) + 40 \<le> unat (100 :: u64)"
  using tokens_limit_per_window [of two_per_minute 100 sum_counter "''n''" "[(5, ask)]" _ _ 5
      "[(1000000000, ask), (1000000001, ask)]", OF _ _ surjective_pairing _ _ surjective_pairing]
  by (simp add: limiter_eval ask_def)

end
