(* ===== verification/Classify.thy ===== *)
theory Classify
  imports Backoff
begin

text \<open>
  \<^verbatim>\<open>inference-remote-core/src/classify.rs\<close> and the provider refinements of
  \<^verbatim>\<open>inference-runtime-openai/src/error.rs\<close>, \<^verbatim>\<open>inference-runtime-anthropic/src/error.rs\<close> and
  \<^verbatim>\<open>inference-runtime-gemini/src/error.rs\<close>: HTTP answers to typed errors.  The RFC 2822 date
  parser of \<^verbatim>\<open>chrono\<close>, the JSON parser of \<^verbatim>\<open>serde_json\<close> and the Unicode \<^verbatim>\<open>to_lowercase\<close> are
  arguments; the current Unix time in seconds is an argument as well.  A header value is ASCII, so
  \<^verbatim>\<open>trim\<close> removes ASCII white space.
\<close>

section \<open>Parsing and printing of the standard library\<close>

definition is_ws :: "char \<Rightarrow> bool" where
  "is_ws c \<longleftrightarrow> (9 \<le> byte_of c \<and> byte_of c \<le> 13) \<or> byte_of c = 32"

definition trim :: "string \<Rightarrow> string" where
  "trim s = rev (dropWhile is_ws (rev (dropWhile is_ws s)))"

definition digit_value :: "char \<Rightarrow> nat option" where
  "digit_value c = (if 48 \<le> byte_of c \<and> byte_of c \<le> 57 then Some (byte_of c - 48) else None)"

text \<open>The digit loop of \<^verbatim>\<open>u64::from_str\<close>: an invalid digit or an overflow is an error.\<close>

fun parse_digits :: "nat \<Rightarrow> string \<Rightarrow> nat option" where
  "parse_digits acc [] = Some acc"
| "parse_digits acc (c # cs) = (case digit_value c of
     None \<Rightarrow> None
   | Some d \<Rightarrow> if acc * 10 + d < 2 ^ 64 then parse_digits (acc * 10 + d) cs else None)"

definition parse_u64 :: "string \<Rightarrow> u64 option" where
  "parse_u64 s = (let t = (case s of c # cs \<Rightarrow> if c = CHR ''+'' then cs else s | [] \<Rightarrow> s) in
     if t = [] then None else map_option word_of_nat (parse_digits 0 t))"

text \<open>The escapes of \<^verbatim>\<open>{:?}\<close> on a string.\<close>

definition hex_char :: "nat \<Rightarrow> char" where
  "hex_char d = (if d < 10 then char_of (48 + d) else char_of (87 + d))"

definition debug_char :: "char \<Rightarrow> string" where
  "debug_char c = (let n = byte_of c in
     if n = 34 \<or> n = 92 then [char_of (92::nat), c]
     else if n = 9 then [char_of (92::nat), CHR ''t'']
     else if n = 10 then [char_of (92::nat), CHR ''n'']
     else if n = 13 then [char_of (92::nat), CHR ''r'']
     else if n = 0 then [char_of (92::nat), CHR ''0'']
     else if n < 32 \<or> n = 127 then
       [char_of (92::nat), CHR ''u'', CHR ''{''] @ (if n < 16 then [hex_char n] else [hex_char (n div 16), hex_char (n mod 16)]) @ [CHR ''}'']
     else [c])"

definition debug_opt_string :: "string option \<Rightarrow> string" where
  "debug_opt_string b = (case b of None \<Rightarrow> ''None''
   | Some s \<Rightarrow> ''Some('' @ [char_of (34::nat)] @ concat (map debug_char s) @ [char_of (34::nat)] @ '')'')"

section \<open>The generic table\<close>

definition unwrap_or :: "string option \<Rightarrow> string \<Rightarrow> string" where
  "unwrap_or x d = (case x of Some s \<Rightarrow> s | None \<Rightarrow> d)"

definition classify_http_status :: "provider_kind \<Rightarrow> u16 \<Rightarrow> duration option \<Rightarrow> string option \<Rightarrow> inference_error" where
  "classify_http_status prov status retry_after body =
     (if status = 429 then RateLimited prov retry_after
      else if status = 400 then BadRequest (unwrap_or body ''bad request'')
      else if status = 401 then Unauthorized (unwrap_or body ''unauthorized'')
      else if status = 403 then Forbidden (unwrap_or body ''forbidden'')
      else if 500 \<le> status \<and> status < 600 then ServerError status body
      else Internal (''unexpected status '' @ show_word status @ '': '' @ debug_opt_string body))"

definition parse_retry_after :: "(string \<Rightarrow> int option) \<Rightarrow> int \<Rightarrow> string option \<Rightarrow> duration option" where
  "parse_retry_after rfc2822 now value = (case value of
     None \<Rightarrow> None
   | Some v \<Rightarrow> (case parse_u64 (trim v) of
       Some secs \<Rightarrow> Some (from_secs (unat secs))
     | None \<Rightarrow> (case rfc2822 (trim v) of
         None \<Rightarrow> None
       | Some thn \<Rightarrow> if now < thn then Some (from_secs (nat (thn - now))) else None)))"

section \<open>Provider refinements\<close>

record openai_error_body =
  oe_message :: string
  oe_code :: "string option"
  oe_kind :: "string option"

definition classify_openai_error :: "(string \<Rightarrow> openai_error_body option) \<Rightarrow> (string \<Rightarrow> int option) \<Rightarrow> int \<Rightarrow>
    u16 \<Rightarrow> string option \<Rightarrow> string option \<Rightarrow> inference_error" where
  "classify_openai_error json rfc2822 now status retry_after_header body =
     (let retry_after = parse_retry_after rfc2822 now retry_after_header;
          generic = classify_http_status provider_kind.OpenAi status retry_after body in
      if status = 400 then
        (case body of None \<Rightarrow> generic | Some s \<Rightarrow>
          (case json s of None \<Rightarrow> generic | Some env \<Rightarrow>
            if oe_code env = Some ''context_length_exceeded'' then ContextLengthExceeded 0 0
            else if oe_kind env = Some ''content_filter'' \<or> oe_kind env = Some ''content_filter_results_violation''
            then ContentFiltered (oe_message env)
            else generic))
      else generic)"

record anthropic_error_body =
  ae_envelope_kind :: string
  ae_kind :: string
  ae_message :: string

definition classify_anthropic_error :: "(string \<Rightarrow> anthropic_error_body option) \<Rightarrow> (string \<Rightarrow> string) \<Rightarrow>
    (string \<Rightarrow> int option) \<Rightarrow> int \<Rightarrow> u16 \<Rightarrow> string option \<Rightarrow> string option \<Rightarrow> inference_error" where
  "classify_anthropic_error json lower rfc2822 now status retry_after_header body =
     (let retry_after = parse_retry_after rfc2822 now retry_after_header;
          generic = classify_http_status provider_kind.Anthropic status retry_after body in
      case body of None \<Rightarrow> generic | Some s \<Rightarrow>
        (case json s of None \<Rightarrow> generic | Some env \<Rightarrow>
          if ae_kind env = ''invalid_request_error'' \<and>
             (contains (lower (ae_message env)) ''context length'' \<or> contains (lower (ae_message env)) ''too long'')
          then ContextLengthExceeded 0 0
          else if ae_kind env = ''permission_error'' then Forbidden (ae_message env)
          else generic))"

record gemini_error_body =
  ge_message :: string
  ge_status :: string

definition classify_gemini_error :: "(string \<Rightarrow> gemini_error_body option) \<Rightarrow> (string \<Rightarrow> string) \<Rightarrow>
    (string \<Rightarrow> int option) \<Rightarrow> int \<Rightarrow> u16 \<Rightarrow> string option \<Rightarrow> string option \<Rightarrow> inference_error" where
  "classify_gemini_error json lower rfc2822 now status retry_after_header body =
     (let retry_after = parse_retry_after rfc2822 now retry_after_header;
          generic = classify_http_status provider_kind.Gemini status retry_after body in
      case body of None \<Rightarrow> generic | Some s \<Rightarrow>
        (case json s of None \<Rightarrow> generic | Some env \<Rightarrow>
          if ge_status env = ''RESOURCE_EXHAUSTED'' then RateLimited provider_kind.Gemini retry_after
          else let lowered = lower (ge_message env) in
            if contains lowered ''safety'' \<or> contains lowered ''blocked'' then ContentFiltered (ge_message env)
            else generic))"

section \<open>Lemmas\<close>

definition transient_status :: "u16 \<Rightarrow> bool" where
  "transient_status s \<longleftrightarrow> s = 429 \<or> (500 \<le> s \<and> s < 600)"

lemma classify_http_retryable [simp]:
  "is_retryable (classify_http_status p s ra b) \<longleftrightarrow> transient_status s"
  by (auto simp: classify_http_status_def transient_status_def word_le_nat_alt)

lemma classify_http_server_retry_after [simp]:
  "server_retry_after (classify_http_status p s ra b) = (if s = 429 then ra else None)"
  by (cases ra) (auto simp: classify_http_status_def)

lemma digit_value_digit_char [simp]: "d < 10 \<Longrightarrow> digit_value (digit_char d) = Some d"
  by (simp add: digit_value_def digit_char_def byte_of_def)

lemma parse_digits_append:
  "parse_digits a (s @ t) = (case parse_digits a s of None \<Rightarrow> None | Some b \<Rightarrow> parse_digits b t)"
  by (induction s arbitrary: a) (auto split: option.splits)

lemma parse_digits_show_nat: "n < 2 ^ 64 \<Longrightarrow> parse_digits 0 (show_nat n) = Some n"
proof (induction n rule: show_nat.induct)
  case (1 n)
  show ?case
  proof (cases "n < 10")
    case True
    then show ?thesis by (simp add: show_nat.simps [of n])
  next
    case False
    have "n div 10 < 2 ^ 64" using 1(2) by simp
    with 1(1) [OF False] False 1(2) show ?thesis
      by (simp add: show_nat.simps [of n] parse_digits_append)
  qed
qed

lemma show_nat_not_ws: "c \<in> set (show_nat n) \<Longrightarrow> 48 \<le> byte_of c \<and> byte_of c \<le> 57"
proof (induction n rule: show_nat.induct)
  case (1 n)
  have "48 \<le> byte_of (digit_char d) \<and> byte_of (digit_char d) \<le> 57" if "d < 10" for d
    using that by (simp add: digit_char_def byte_of_def)
  with 1 show ?case by (cases "n < 10") (auto simp: show_nat.simps [of n])
qed

lemma show_nat_nonempty: "show_nat n \<noteq> []"
  by (simp add: show_nat.simps [of n])

lemma trim_show:
  assumes "list_all is_ws a" "list_all is_ws b" "s \<noteq> []" "\<And>c. c \<in> set s \<Longrightarrow> \<not> is_ws c"
  shows "trim (a @ s @ b) = s"
proof -
  have d: "dropWhile is_ws (x @ y) = y" if "list_all is_ws x" "y \<noteq> [] \<longrightarrow> \<not> is_ws (hd y)" for x y
    using that by (induction x) (cases y; auto)+
  have "dropWhile is_ws (a @ s @ b) = s @ b"
    using assms by (intro d) (auto simp: neq_Nil_conv)
  moreover have "dropWhile is_ws (rev b @ rev s) = rev s"
    using assms by (intro d) (auto simp: list_all_iff, metis hd_rev last_in_set)
  ultimately show ?thesis by (simp add: trim_def)
qed

lemma parse_retry_after_show:
  assumes "list_all is_ws a" "list_all is_ws b"
  shows "parse_retry_after rfc2822 now (Some (a @ show_word (n :: u64) @ b)) = Some (from_secs (unat n))"
proof -
  have nws: "\<not> is_ws c" "c \<noteq> CHR ''+''" if "c \<in> set (show_word n)" for c
    using show_nat_not_ws [of c "unat n"] that by (auto simp: show_word_def is_ws_def byte_of_def)
  have "trim (a @ show_word n @ b) = show_word n"
    using assms nws by (intro trim_show) (auto simp: show_word_def show_nat_nonempty)
  moreover obtain c cs where s: "show_word n = c # cs" using show_nat_nonempty by (metis neq_Nil_conv show_word_def)
  have "parse_u64 (show_word n) = Some n"
    using parse_digits_show_nat [OF unat_u64_bound [of n]] nws(2) [of c] s
    by (simp add: parse_u64_def show_word_def [symmetric])
  ultimately show ?thesis by (simp add: parse_retry_after_def)
qed

section \<open>Properties\<close>

text \<open>Reading back a printed delay.  A \<^verbatim>\<open>Retry-After\<close> header that holds any 64-bit number of
  seconds in decimal, with any white space around it, is parsed to exactly that duration; the date
  parser is not consulted.\<close>

theorem retry_after_roundtrip:
  assumes "list_all is_ws a" "list_all is_ws b"
  shows "parse_retry_after rfc2822 now (Some (a @ show_word (n :: u64) @ b)) = Some (from_secs (unat n))"
  using assms by (rule parse_retry_after_show)

theorem retry_after_roundtrip_witness:
  "parse_retry_after (\<lambda>_. None) 0 (Some (''  '' @ show_word (12 :: u64) @ '' '')) = Some (from_secs 12)"
  using retry_after_roundtrip [of "''  ''" "'' ''" "\<lambda>_. None" 0 12] by (simp add: is_ws_def byte_of_def)

text \<open>Which HTTP answers are retried.  The generic table and the OpenAI refinement yield a
  retryable error exactly for 429 and 5xx; Anthropic never retries anything else (a recognised body
  can only make an answer final); Gemini retries a transient status unless the body says it was
  blocked, and any answer whose body reports an exhausted quota.\<close>

theorem provider_classification_retryable:
  "(is_retryable (classify_http_status p status ra body) \<longleftrightarrow> transient_status status) \<and>
   (is_retryable (classify_openai_error oj rfc2822 now status hdr body) \<longleftrightarrow> transient_status status) \<and>
   (is_retryable (classify_anthropic_error aj lower rfc2822 now status hdr body) \<longrightarrow> transient_status status) \<and>
   (is_retryable (classify_gemini_error gj lower rfc2822 now status hdr body) \<longleftrightarrow>
     (case Option.bind body gj of
        None \<Rightarrow> transient_status status
      | Some env \<Rightarrow> ge_status env = ''RESOURCE_EXHAUSTED'' \<or>
          (transient_status status \<and> \<not> contains (lower (ge_message env)) ''safety'' \<and>
           \<not> contains (lower (ge_message env)) ''blocked'')))"
  by (auto simp: classify_openai_error_def classify_anthropic_error_def classify_gemini_error_def Let_def
      transient_status_def word_le_nat_alt split: option.splits)

theorem provider_classification_retryable_witness:
  "is_retryable (classify_openai_error (\<lambda>_. None) (\<lambda>_. None) 0 503 None (Some ''busy'')) \<and>
   \<not> is_retryable (classify_anthropic_error (\<lambda>_. None) (\<lambda>s. s) (\<lambda>_. None) 0 404 None None)"
  using provider_classification_retryable [of provider_kind.OpenAi 503 None "Some ''busy''" "\<lambda>_. None" "\<lambda>_. None" 0 None
      "\<lambda>_. None" "\<lambda>s. s" "\<lambda>_. None"]
    provider_classification_retryable [of provider_kind.OpenAi 404 None None "\<lambda>_. None" "\<lambda>_. None" 0 None
      "\<lambda>_. None" "\<lambda>s. s" "\<lambda>_. None"]
  by (auto simp: transient_status_def word_le_nat_alt)

text \<open>The provider's delay reaches the retry engine.  When OpenAI answers 429 with a
  \<^verbatim>\<open>Retry-After\<close> of \<open>n\<close> seconds, an idempotent deployment that still has attempts and respects the
  header waits exactly \<open>n\<close> seconds before it tries again.\<close>

theorem retry_after_reaches_retry_engine:
  assumes "re_idempotent e" "attempt < max_retries (re_policy e)" "respect_retry_after (re_policy e)"
  shows "decide pw e attempt (classify_openai_error oj rfc2822 now 429 (Some (show_word (n :: u64))) body) =
    Retry (from_secs (unat n))"
proof -
  have "parse_retry_after rfc2822 now (Some (show_word n)) = Some (from_secs (unat n))"
    using parse_retry_after_show [of "[]" "[]"] by simp
  then have "classify_openai_error oj rfc2822 now 429 (Some (show_word n)) body =
      RateLimited provider_kind.OpenAi (Some (from_secs (unat n)))"
    by (simp add: classify_openai_error_def classify_http_status_def)
  with decide_server_wins [OF assms] show ?thesis by simp
qed

theorem retry_after_reaches_retry_engine_witness:
  "decide powi_sq (new_retry_engine default_retry_policy True) 0
     (classify_openai_error (\<lambda>_. None) (\<lambda>_. None) 0 429 (Some (show_word (7 :: u64))) None) = Retry (from_secs 7)"
  using retry_after_reaches_retry_engine [of "new_retry_engine default_retry_policy True" 0 powi_sq "\<lambda>_. None" "\<lambda>_. None" 0 7 None]
  by (simp add: new_retry_engine_def default_retry_policy_def)

end
