(* ===== verification/Request_Queue.thy ===== *)
theory Request_Queue
  imports Core_Types "HOL-Library.Multiset"
begin

text \<open>
  \<^verbatim>\<open>inference-remote-core/src/queue.rs\<close>: the bounded priority queue of the remote engine.
  \<^verbatim>\<open>std::collections::BinaryHeap\<close> is a bag whose \<^verbatim>\<open>pop\<close> removes a greatest element of the
  \<^verbatim>\<open>Ord\<close> of its items; the list below is that bag.  The locale \<open>max_heap\<close> states this contract
  and the refinement proof uses nothing else about the bag.  The output channel of a request is
  an opaque value of type \<open>'o\<close>.  The refinement property says that the queue is a FIFO per
  priority class with the highest class served first.
\<close>

section \<open>Priorities\<close>

datatype priority = Background | Normal | High | Critical

text \<open>The derived \<^verbatim>\<open>Ord\<close> compares the declaration index.\<close>

fun priority_index :: "priority \<Rightarrow> nat" where
  "priority_index Background = 0"
| "priority_index Normal = 1"
| "priority_index High = 2"
| "priority_index Critical = 3"

lemma priority_index_inj: "priority_index a = priority_index b \<Longrightarrow> a = b"
  by (cases a; cases b) auto

text \<open>The derived \<^verbatim>\<open>PartialOrd\<close> and \<^verbatim>\<open>Ord\<close> compare the constructors in their order.\<close>

definition priority_le :: "priority \<Rightarrow> priority \<Rightarrow> bool" where
  "priority_le a b \<longleftrightarrow> priority_index a \<le> priority_index b"

definition priority_lt :: "priority \<Rightarrow> priority \<Rightarrow> bool" where
  "priority_lt a b \<longleftrightarrow> priority_index a < priority_index b"

instantiation priority :: linorder
begin

definition less_eq_priority :: "priority \<Rightarrow> priority \<Rightarrow> bool" where
  "less_eq_priority = priority_le"

definition less_priority :: "priority \<Rightarrow> priority \<Rightarrow> bool" where
  "less_priority = priority_lt"

instance
  by standard (auto simp: less_eq_priority_def less_priority_def priority_le_def priority_lt_def intro: priority_index_inj)

end

record 'o priority_request =
  pr_priority :: priority
  arrival_seq :: u64
  pr_batch :: execute_batch
  pr_output :: 'o

datatype ordering = Less | Equal | Greater

definition ord_cmp :: "'a::linorder \<Rightarrow> 'a \<Rightarrow> ordering" where
  "ord_cmp a b = (if a < b then Less else if a = b then Equal else Greater)"

fun then_with :: "ordering \<Rightarrow> ordering \<Rightarrow> ordering" where
  "then_with Equal o2 = o2"
| "then_with o1 _ = o1"

definition pr_eq :: "'o priority_request \<Rightarrow> 'o priority_request \<Rightarrow> bool" where
  "pr_eq a b \<longleftrightarrow> pr_priority a = pr_priority b \<and> arrival_seq a = arrival_seq b"

definition pr_cmp :: "'o priority_request \<Rightarrow> 'o priority_request \<Rightarrow> ordering" where
  "pr_cmp a b = then_with (ord_cmp (pr_priority a) (pr_priority b)) (ord_cmp (arrival_seq b) (arrival_seq a))"

definition pr_gt :: "'o priority_request \<Rightarrow> 'o priority_request \<Rightarrow> bool" where
  "pr_gt a b \<longleftrightarrow> pr_cmp a b = Greater"

lemma pr_gt_iff:
  "pr_gt a b \<longleftrightarrow> pr_priority b < pr_priority a \<or>
     pr_priority a = pr_priority b \<and> arrival_seq a < arrival_seq b"
  by (auto simp: pr_gt_def pr_cmp_def ord_cmp_def)

lemma pr_cmp_eq: "pr_cmp a b = Equal \<longleftrightarrow> pr_eq a b"
  by (auto simp: pr_eq_def pr_cmp_def ord_cmp_def)

section \<open>The heap\<close>

text \<open>\<^verbatim>\<open>BinaryHeap::push\<close> and \<^verbatim>\<open>BinaryHeap::pop\<close> for the order \<open>gt\<close> of its items.\<close>

definition heap_push :: "'a \<Rightarrow> 'a list \<Rightarrow> 'a list" where
  "heap_push x h = x # h"

fun heap_greatest :: "('a \<Rightarrow> 'a \<Rightarrow> bool) \<Rightarrow> 'a \<Rightarrow> 'a list \<Rightarrow> 'a" where
  "heap_greatest gt x [] = x"
| "heap_greatest gt x (y # ys) = heap_greatest gt (if gt y x then y else x) ys"

fun heap_pop :: "('a \<Rightarrow> 'a \<Rightarrow> bool) \<Rightarrow> 'a list \<Rightarrow> ('a \<times> 'a list) option" where
  "heap_pop gt [] = None"
| "heap_pop gt (x # xs) = (let m = heap_greatest gt x xs in Some (m, remove1 m (x # xs)))"

locale max_heap =
  fixes ins :: "'a \<Rightarrow> 'h \<Rightarrow> 'h"
    and del :: "'h \<Rightarrow> ('a \<times> 'h) option"
    and elems :: "'h \<Rightarrow> 'a multiset"
    and gt :: "'a \<Rightarrow> 'a \<Rightarrow> bool"
  assumes elems_ins: "elems (ins x h) = add_mset x (elems h)"
    and del_None: "del h = None \<longleftrightarrow> elems h = {#}"
    and del_Some: "del h = Some (x, h') \<Longrightarrow>
      x \<in># elems h \<and> elems h' = elems h - {#x#} \<and> (\<forall>y. y \<in># elems h \<longrightarrow> \<not> gt y x)"
begin

text \<open>An element greater than all the others is the one that comes out.\<close>

lemma del_greatest:
  assumes "x \<in># elems h" "\<And>y. y \<in># elems h \<Longrightarrow> y \<noteq> x \<Longrightarrow> gt x y"
  shows "\<exists>h'. del h = Some (x, h') \<and> elems h' = elems h - {#x#}"
proof -
  have "del h \<noteq> None" using assms(1) del_None by auto
  then obtain y h' where d: "del h = Some (y, h')" by auto
  with del_Some assms have "y = x" by blast
  with d del_Some show ?thesis by blast
qed

end

lemma heap_greatest_in: "heap_greatest gt x ys \<in> insert x (set ys)"
  by (induction ys arbitrary: x) (auto split: if_splits)

lemma heap_greatest_max:
  assumes irr: "\<And>a. \<not> gt a a"
    and tr: "\<And>a b c. gt a b \<Longrightarrow> \<not> gt c b \<Longrightarrow> \<not> gt c a"
    and tr2: "\<And>a b c. \<not> gt a b \<Longrightarrow> \<not> gt b c \<Longrightarrow> \<not> gt a c"
  shows "z \<in> insert x (set ys) \<Longrightarrow> \<not> gt z (heap_greatest gt x ys)"
proof (induction ys arbitrary: x z)
  case Nil
  then show ?case using irr by simp
next
  case (Cons y ys)
  let ?x = "if gt y x then y else x"
  have top: "\<not> gt ?x (heap_greatest gt ?x ys)" by (rule Cons.IH) simp
  have "\<not> gt x y" if "gt y x" using tr [OF that irr] .
  then have "\<not> gt z ?x \<or> z \<in> insert ?x (set ys)"
    using Cons.prems irr by auto
  then show ?case
  proof
    assume "\<not> gt z ?x"
    then show ?thesis using top tr2 by (metis heap_greatest.simps(2))
  next
    assume "z \<in> insert ?x (set ys)"
    then show ?thesis using Cons.IH by (metis heap_greatest.simps(2))
  qed
qed

lemma pr_gt_irrefl: "\<not> pr_gt a a"
  by (simp add: pr_gt_iff)

lemma pr_gt_not_trans: "\<not> pr_gt a b \<Longrightarrow> \<not> pr_gt b c \<Longrightarrow> \<not> pr_gt a c"
  by (auto simp: pr_gt_iff)

lemma pr_gt_asym_trans: "pr_gt a b \<Longrightarrow> \<not> pr_gt c b \<Longrightarrow> \<not> pr_gt c a"
  by (auto simp: pr_gt_iff)

interpretation bh: max_heap heap_push "heap_pop pr_gt" mset pr_gt
proof (unfold_locales, goal_cases)
  case (1 x h)
  then show ?case by (simp add: heap_push_def)
next
  case (2 h)
  then show ?case by (cases h) (auto simp: Let_def)
next
  case (3 h x h')
  then obtain y ys where h: "h = y # ys" by (cases h) auto
  with 3 have x: "x = heap_greatest pr_gt y ys" "h' = remove1 x h" by (auto simp: Let_def)
  have "x \<in># mset h" using x(1) h heap_greatest_in [of pr_gt y ys] by simp
  moreover have "\<not> pr_gt z x" if "z \<in># mset h" for z
    using heap_greatest_max [of pr_gt, OF pr_gt_irrefl pr_gt_asym_trans pr_gt_not_trans] that h x(1)
    by simp
  ultimately show ?case by (simp add: x(2))
qed

section \<open>The queue\<close>

record 'o request_queue =
  q_inner :: "'o priority_request list"
  capacity :: usize
  next_seq :: u64

definition new_request_queue :: "usize \<Rightarrow> 'o request_queue" where
  "new_request_queue cap = \<lparr>q_inner = [], capacity = cap, next_seq = 0\<rparr>"

definition len :: "'o request_queue \<Rightarrow> nat" where
  "len q = length (q_inner q)"

definition is_empty :: "'o request_queue \<Rightarrow> bool" where
  "is_empty q = (q_inner q = [])"

definition is_full :: "'o request_queue \<Rightarrow> bool" where
  "is_full q = (unat (capacity q) \<le> length (q_inner q))"

definition push :: "'o priority_request \<Rightarrow> 'o request_queue \<Rightarrow> ('o priority_request + unit) \<times> 'o request_queue" where
  "push req q =
     (if is_full q then (Inl req, q)
      else (Inr (), q\<lparr>next_seq := next_seq q + 1,
                      q_inner := heap_push (req\<lparr>arrival_seq := next_seq q\<rparr>) (q_inner q)\<rparr>))"

definition pop :: "'o request_queue \<Rightarrow> 'o priority_request option \<times> 'o request_queue" where
  "pop q = (case heap_pop pr_gt (q_inner q) of
     None \<Rightarrow> (None, q)
   | Some (r, h) \<Rightarrow> (Some r, q\<lparr>q_inner := h\<rparr>))"

lemma pop_len: "\<not> is_empty q \<Longrightarrow> \<exists>r q'. pop q = (Some r, q') \<and> Suc (len q') = len q \<and>
    capacity q' = capacity q \<and> mset (q_inner q) = add_mset r (mset (q_inner q'))"
proof -
  assume "\<not> is_empty q"
  then have "heap_pop pr_gt (q_inner q) \<noteq> None" by (simp add: bh.del_None is_empty_def)
  then obtain r h where d: "heap_pop pr_gt (q_inner q) = Some (r, h)" by auto
  then have m: "mset (q_inner q) = add_mset r (mset h)" using bh.del_Some [OF d] by simp
  then have "length (q_inner q) = Suc (length h)" by (metis size_add_mset size_mset)
  with d m show ?thesis by (simp add: pop_def len_def)
qed

lemma pop_None: "is_empty q \<Longrightarrow> pop q = (None, q)"
  by (simp add: is_empty_def pop_def)

section \<open>The specification: a FIFO per priority class\<close>

text \<open>
  The specification keeps the requests in arrival order, without sequence numbers, and serves
  the first one whose class no other request exceeds.
\<close>

definition unstamp :: "'o priority_request \<Rightarrow> 'o priority_request" where
  "unstamp r = r\<lparr>arrival_seq := 0\<rparr>"

definition topmost :: "'o priority_request list \<Rightarrow> 'o priority_request \<Rightarrow> bool" where
  "topmost L r \<longleftrightarrow> (\<forall>s \<in> set L. pr_priority s \<le> pr_priority r)"

definition spec_push :: "nat \<Rightarrow> 'o priority_request \<Rightarrow> 'o priority_request list \<Rightarrow>
    ('o priority_request + unit) \<times> 'o priority_request list" where
  "spec_push cap r L = (if cap \<le> length L then (Inl r, L) else (Inr (), L @ [unstamp r]))"

definition spec_pop :: "'o priority_request list \<Rightarrow> 'o priority_request option \<times> 'o priority_request list" where
  "spec_pop L = (case dropWhile (\<lambda>r. \<not> topmost L r) L of
     [] \<Rightarrow> (None, L)
   | r # post \<Rightarrow> (Some r, takeWhile (\<lambda>r. \<not> topmost L r) L @ post))"

datatype 'o queue_op = Push "'o priority_request" | Pop

datatype 'o queue_out = Pushed "'o priority_request + unit" | Popped "'o priority_request option"

fun run_queue :: "'o request_queue \<Rightarrow> 'o queue_op list \<Rightarrow> 'o queue_out list" where
  "run_queue q [] = []"
| "run_queue q (Push r # ops) = (let (x, q') = push r q in Pushed x # run_queue q' ops)"
| "run_queue q (Pop # ops) = (let (x, q') = pop q in Popped (map_option unstamp x) # run_queue q' ops)"

fun run_spec :: "nat \<Rightarrow> 'o priority_request list \<Rightarrow> 'o queue_op list \<Rightarrow> 'o queue_out list" where
  "run_spec cap L [] = []"
| "run_spec cap L (Push r # ops) = (let (x, L') = spec_push cap r L in Pushed x # run_spec cap L' ops)"
| "run_spec cap L (Pop # ops) = (let (x, L') = spec_pop L in Popped x # run_spec cap L' ops)"

text \<open>The refinement relation: the heap holds the stamped requests \<open>S\<close>, in arrival order.\<close>

definition stamped :: "'o request_queue \<Rightarrow> 'o priority_request list \<Rightarrow> bool" where
  "stamped q S \<longleftrightarrow> mset (q_inner q) = mset S \<and> sorted_wrt (\<lambda>a b. arrival_seq a < arrival_seq b) S \<and>
     (\<forall>r \<in> set S. arrival_seq r < next_seq q)"

lemma stamped_length: "stamped q S \<Longrightarrow> length (q_inner q) = length S"
  by (metis size_mset stamped_def)

lemma unstamp_simps [simp]:
  "pr_priority (unstamp r) = pr_priority r"
  "unstamp (r\<lparr>arrival_seq := n\<rparr>) = unstamp r"
  "unstamp (unstamp r) = unstamp r"
  by (simp_all add: unstamp_def)

lemma push_refines:
  assumes "stamped q S" "Suc (unat (next_seq q)) < 2 ^ 64"
  shows "\<exists>x q' S'. push r q = (x, q') \<and> capacity q' = capacity q \<and> stamped q' S' \<and>
     unat (next_seq q') \<le> Suc (unat (next_seq q)) \<and>
     spec_push (unat (capacity q)) r (map unstamp S) = (x, map unstamp S')"
proof (cases "is_full q")
  case True
  then show ?thesis using assms stamped_length by (force simp: push_def spec_push_def is_full_def)
next
  case False
  let ?r = "r\<lparr>arrival_seq := next_seq q\<rparr>"
  have n: "unat (next_seq q + 1) = Suc (unat (next_seq q))"
    using assms(2) by (intro unat_suc_no_overflow) simp
  have "stamped (q\<lparr>next_seq := next_seq q + 1, q_inner := heap_push ?r (q_inner q)\<rparr>) (S @ [?r])"
    using assms(1) n by (auto simp: stamped_def heap_push_def sorted_wrt_append word_less_nat_alt less_Suc_eq)
  with False n stamped_length [OF assms(1)] show ?thesis
    by (auto simp: push_def spec_push_def is_full_def)
qed

lemma topmost_unstamp: "topmost (map unstamp S) (unstamp r) \<longleftrightarrow> topmost S r"
  by (auto simp: topmost_def)

lemma topmost_exists: "S \<noteq> [] \<Longrightarrow> \<exists>r \<in> set S. topmost S r"
proof (induction S)
  case Nil
  then show ?case by simp
next
  case (Cons a S)
  show ?case
  proof (cases "S = []")
    case True
    then show ?thesis by (simp add: topmost_def)
  next
    case False
    then obtain r where "r \<in> set S" "topmost S r" using Cons.IH by blast
    then show ?thesis
      by (cases "pr_priority a \<le> pr_priority r") (auto simp: topmost_def intro: order_trans)
  qed
qed

text \<open>Splitting the arrival order at the request to be served.\<close>

lemma split_topmost:
  assumes "S \<noteq> []"
  obtains pre r post where "S = pre @ r # post" "topmost S r" "\<forall>s \<in> set pre. \<not> topmost S s"
    "dropWhile (\<lambda>r. \<not> topmost S r) S = r # post" "takeWhile (\<lambda>r. \<not> topmost S r) S = pre"
proof -
  from topmost_exists [OF assms] have "\<exists>x \<in> set S. topmost S x" .
  then obtain pre r post where "S = pre @ r # post" "topmost S r" "\<forall>s \<in> set pre. \<not> topmost S s"
    using split_list_first_prop [of S "topmost S"] by metis
  moreover have "dropWhile p (pre @ r # post) = r # post \<and> takeWhile p (pre @ r # post) = pre"
    if "\<not> p r" "\<forall>s \<in> set pre. p s" for p
    using that by (simp add: dropWhile_append takeWhile_append)
  ultimately have "dropWhile (\<lambda>r. \<not> topmost S r) S = r # post"
    "takeWhile (\<lambda>r. \<not> topmost S r) S = pre" by metis+
  then show thesis using that \<open>S = pre @ r # post\<close> \<open>topmost S r\<close> \<open>\<forall>s \<in> set pre. \<not> topmost S s\<close> by blast
qed

lemma spec_pop_unstamp:
  "spec_pop (map unstamp S) = (case dropWhile (\<lambda>r. \<not> topmost S r) S of
     [] \<Rightarrow> (None, map unstamp S)
   | r # post \<Rightarrow> (Some (unstamp r), map unstamp (takeWhile (\<lambda>r. \<not> topmost S r) S @ post)))"
  by (cases "dropWhile (\<lambda>r. \<not> topmost S r) S")
    (simp_all add: spec_pop_def dropWhile_map takeWhile_map comp_def topmost_unstamp del: dropWhile_eq_Nil_conv)

lemma pop_refines:
  assumes "stamped q S"
  shows "\<exists>x q' S'. pop q = (x, q') \<and> capacity q' = capacity q \<and> next_seq q' = next_seq q \<and> stamped q' S' \<and>
     spec_pop (map unstamp S) = (map_option unstamp x, map unstamp S')"
proof (cases "S = []")
  case True
  then have "q_inner q = []" using stamped_length [OF assms] by simp
  then show ?thesis using assms True by (auto simp: pop_def spec_pop_def)
next
  case False
  then obtain pre r post where s: "S = pre @ r # post" "topmost S r" "\<forall>s \<in> set pre. \<not> topmost S s"
    "dropWhile (\<lambda>r. \<not> topmost S r) S = r # post" "takeWhile (\<lambda>r. \<not> topmost S r) S = pre"
    by (rule split_topmost)
  have m: "mset (q_inner q) = mset S" and so: "sorted_wrt (\<lambda>a b. arrival_seq a < arrival_seq b) S"
    using assms by (auto simp: stamped_def)
  have "pr_gt r y" if y: "y \<in># mset (q_inner q)" "y \<noteq> r" for y
  proof (cases "pr_priority y = pr_priority r")
    case True
    then have "topmost S y" using s(2) by (simp add: topmost_def)
    then have "y \<in> set post" using y s(1,3) m by auto
    then show ?thesis using so s(1) True by (auto simp: pr_gt_iff sorted_wrt_append)
  next
    case False
    then show ?thesis using y m s(2) by (auto simp: pr_gt_iff topmost_def less_le)
  qed
  then obtain h where h: "heap_pop pr_gt (q_inner q) = Some (r, h)" "mset h = mset (q_inner q) - {#r#}"
    using bh.del_greatest [of r "q_inner q"] m s(1) by auto
  have "stamped (q\<lparr>q_inner := h\<rparr>) (pre @ post)"
    using assms h(2) m s(1) by (auto simp: stamped_def sorted_wrt_append)
  with h(1) s(4,5) show ?thesis by (auto simp: pop_def spec_pop_unstamp)
qed

lemma run_queue_refines:
  "stamped q S \<Longrightarrow> unat (next_seq q) + length ops < 2 ^ 64 \<Longrightarrow>
   run_queue q ops = run_spec (unat (capacity q)) (map unstamp S) ops"
proof (induction ops arbitrary: q S)
  case Nil
  then show ?case by simp
next
  case (Cons a ops)
  show ?case
  proof (cases a)
    case (Push r)
    have "Suc (unat (next_seq q)) < 2 ^ 64" using Cons.prems(2) by simp
    from push_refines [OF Cons.prems(1) this, of r] obtain x q' S' where p:
      "push r q = (x, q')" "capacity q' = capacity q" "stamped q' S'"
      "unat (next_seq q') \<le> Suc (unat (next_seq q))"
      "spec_push (unat (capacity q)) r (map unstamp S) = (x, map unstamp S')" by blast
    have "unat (next_seq q') + length ops < 2 ^ 64" using p(4) Cons.prems(2) by simp
    from Cons.IH [OF p(3) this] p Push show ?thesis by simp
  next
    case Pop
    from pop_refines [OF Cons.prems(1)] obtain x q' S' where p:
      "pop q = (x, q')" "capacity q' = capacity q" "next_seq q' = next_seq q" "stamped q' S'"
      "spec_pop (map unstamp S) = (map_option unstamp x, map unstamp S')" by blast
    have "unat (next_seq q') + length ops < 2 ^ 64" using p(3) Cons.prems(2) by simp
    from Cons.IH [OF p(4) this] p Pop show ?thesis by simp
  qed
qed

section \<open>Properties\<close>

text \<open>C1: the request queue refines a bounded FIFO per priority class.  For every sequence of
  pushes and pops on a new queue that does not exhaust the 64-bit sequence counter, every
  observable result (an accepted push, a refused push with the request handed back unchanged,
  the request a pop returns up to its internal sequence number, an empty pop) is the one of the
  specification, which serves the oldest request of the highest waiting priority.\<close>

theorem queue_refines_priority_fifo:
  assumes "length ops < 2 ^ 64"
  shows "run_queue (new_request_queue cap) ops = run_spec (unat cap) [] ops"
  using run_queue_refines [of "new_request_queue cap" "[]" ops] assms
  by (simp add: stamped_def new_request_queue_def)

definition sample_request :: "priority \<Rightarrow> nat \<Rightarrow> nat priority_request" where
  "sample_request p n = \<lparr>pr_priority = p, arrival_seq = 0,
     pr_batch = \<lparr>request_id = ''r'', model = ''m'', messages = [], sampling = default_sampling_params,
       stream = False, estimated_tokens_field = 1\<rparr>, pr_output = n\<rparr>"

theorem queue_refines_priority_fifo_witness:
  "run_queue (new_request_queue 2) [Push (sample_request Normal 1), Push (sample_request High 2),
      Push (sample_request Critical 3), Pop, Pop, Pop] =
   [Pushed (Inr ()), Pushed (Inr ()), Pushed (Inl (sample_request Critical 3)),
    Popped (Some (sample_request High 2)), Popped (Some (sample_request Normal 1)), Popped None]"
  by (subst queue_refines_priority_fifo)
    (simp_all add: sample_request_def spec_push_def spec_pop_def unstamp_def topmost_def less_eq_priority_def priority_le_def)

end
