(* ===== verification/Remote_Engine.thy ===== *)
theory Remote_Engine
  imports Request_Queue
begin

text \<open>
  \<^verbatim>\<open>inference-remote-core/src/engine.rs\<close>: the per-replica engine of a remote deployment.  The
  state of \<^verbatim>\<open>RemoteEngineCoreActor\<close> is a record; a message handler returns the new state and
  the messages it sends, in order (admission replies and dispatches to workers).  Worker
  addresses, admission channels and output channels are opaque types \<open>'w\<close>, \<open>'a\<close> and \<open>'o\<close>; the
  actor system's \<^verbatim>\<open>ctx.spawn\<close> is the argument \<open>spawn\<close> of \<open>pre_start\<close>.
  The lemmas show that the metrics are exact, that the engine is work conserving, and that
  every admitted request is dispatched exactly once or still queued.
\<close>

section \<open>State\<close>

record remote_engine_config =
  queue_capacity :: usize
  worker_count :: u32
  on_capacity_exhausted :: capacity_policy

definition default_remote_engine_config :: remote_engine_config where
  "default_remote_engine_config = \<lparr>queue_capacity = 1024, worker_count = 8, on_capacity_exhausted = Queue\<rparr>"

record engine_metrics =
  queued :: u64
  in_flight :: u64
  completed :: u64
  rejected_backpressure :: u64

definition default_engine_metrics :: engine_metrics where
  "default_engine_metrics = \<lparr>queued = 0, in_flight = 0, completed = 0, rejected_backpressure = 0\<rparr>"

record ('o, 'a) add_request =
  ar_priority :: priority
  ar_batch :: execute_batch
  ar_output :: 'o
  admission :: 'a

datatype ('o, 'a) engine_msg = Add "('o, 'a) add_request" | WorkerIdle

record 'w worker_entry =
  addr :: 'w
  idle :: bool

record ('w, 'o) remote_engine =
  re_config :: remote_engine_config
  queue :: "'o request_queue"
  workers :: "'w worker_entry list"
  metrics :: engine_metrics
  has_factory :: bool
  re_worker_count :: u32
  has_idle_rx :: bool

datatype ('w, 'o, 'a) engine_effect =
    Admission 'a "unit inference_result"
  | Dispatch 'w "'o priority_request"

section \<open>Operations\<close>

definition new_remote_engine :: "remote_engine_config \<Rightarrow> ('w, 'o) remote_engine" where
  "new_remote_engine cfg = \<lparr>re_config = cfg, queue = new_request_queue (queue_capacity cfg), workers = [],
     metrics = default_engine_metrics, has_factory = True, re_worker_count = worker_count cfg, has_idle_rx = True\<rparr>"

definition request_of :: "('o, 'a) add_request \<Rightarrow> 'o priority_request" where
  "request_of req = \<lparr>pr_priority = ar_priority req, arrival_seq = 0, pr_batch = ar_batch req, pr_output = ar_output req\<rparr>"

definition enqueue :: "('o, 'a) add_request \<Rightarrow> ('w, 'o) remote_engine \<Rightarrow>
    ('w, 'o) remote_engine \<times> ('w, 'o, 'a) engine_effect list" where
  "enqueue req e =
     (case push (request_of req) (queue e) of
        (Inr _, q) \<Rightarrow>
          (e\<lparr>queue := q, metrics := (metrics e)\<lparr>queued := queued (metrics e) + 1\<rparr>\<rparr>,
           [Admission (admission req) (Inr ())])
      | (Inl _, q) \<Rightarrow>
          (e\<lparr>queue := q, metrics := (metrics e)\<lparr>rejected_backpressure := rejected_backpressure (metrics e) + 1\<rparr>\<rparr>,
           [Admission (admission req) (Inl (Backpressure ''engine queue full''))]))"

text \<open>One round of the \<^verbatim>\<open>while\<close> loop, given the request and the index of an idle worker.\<close>

definition dispatch_to :: "nat \<Rightarrow> 'o request_queue \<Rightarrow> ('w, 'o) remote_engine \<Rightarrow> ('w, 'o) remote_engine" where
  "dispatch_to idx q e =
     e\<lparr>queue := q, workers := (workers e)[idx := (workers e ! idx)\<lparr>idle := False\<rparr>],
       metrics := (metrics e)\<lparr>queued := saturating_sub (queued (metrics e)) 1, in_flight := in_flight (metrics e) + 1\<rparr>\<rparr>"

function try_dispatch :: "('w, 'o) remote_engine \<Rightarrow> ('w, 'o) remote_engine \<times> ('w, 'o, 'a) engine_effect list" where
  "try_dispatch e =
     (if is_empty (queue e) then (e, [])
      else case position idle (workers e) of
        None \<Rightarrow> (e, [])
      | Some idx \<Rightarrow> (case pop (queue e) of
          (None, q) \<Rightarrow> (e, [])
        | (Some r, q) \<Rightarrow>
            (let (e', fx) = try_dispatch (dispatch_to idx q e)
             in (e', Dispatch (addr (workers e ! idx)) r # fx))))"
  by pat_completeness auto
termination
proof (relation "measure (\<lambda>e. len (queue e))", goal_cases)
  case 1
  then show ?case by simp
next
  case (2 e idx p r q)
  then obtain r' q' where "pop (queue e) = (Some r', q')" "Suc (len q') = len (queue e)"
    using pop_len by blast
  with 2 show ?case by (auto simp: dispatch_to_def)
qed

declare try_dispatch.simps [simp del]

definition pre_start :: "(nat \<Rightarrow> 'w option) \<Rightarrow> ('w, 'o) remote_engine \<Rightarrow> ('w, 'o) remote_engine option" where
  "pre_start spawn e =
     (if \<not> has_factory e then Some e
      else if \<not> has_idle_rx e then None
      else Some (e\<lparr>has_factory := False, has_idle_rx := False,
        workers := workers e @ map (\<lambda>w. \<lparr>addr = w, idle = True\<rparr>)
          (List.map_filter spawn [0 ..< unat (re_worker_count e)])\<rparr>))"

definition worker_idle :: "('w, 'o) remote_engine \<Rightarrow> ('w, 'o) remote_engine" where
  "worker_idle e = (case position (\<lambda>w. \<not> idle w) (workers e) of
     None \<Rightarrow> e
   | Some i \<Rightarrow> e\<lparr>workers := (workers e)[i := (workers e ! i)\<lparr>idle := True\<rparr>],
       metrics := (metrics e)\<lparr>in_flight := saturating_sub (in_flight (metrics e)) 1, completed := completed (metrics e) + 1\<rparr>\<rparr>)"

fun handle :: "('o, 'a) engine_msg \<Rightarrow> ('w, 'o) remote_engine \<Rightarrow>
    ('w, 'o) remote_engine \<times> ('w, 'o, 'a) engine_effect list" where
  "handle (Add req) e =
     (let (e1, f1) = enqueue req e; (e2, f2) = try_dispatch e1 in (e2, f1 @ f2))"
| "handle WorkerIdle e = try_dispatch (worker_idle e)"

fun run_engine :: "('w, 'o) remote_engine \<Rightarrow> ('o, 'a) engine_msg list \<Rightarrow>
    ('w, 'o) remote_engine \<times> ('w, 'o, 'a) engine_effect list" where
  "run_engine e [] = (e, [])"
| "run_engine e (m # ms) = (let (e1, f1) = handle m e; (e2, f2) = run_engine e1 ms in (e2, f1 @ f2))"

section \<open>The invariant\<close>

definition busy :: "('w, 'o) remote_engine \<Rightarrow> nat" where
  "busy e = length (filter (\<lambda>w. \<not> idle w) (workers e))"

text \<open>
  The exact part of the invariant: the two gauges count what they name, the queue respects its
  capacity, and there are fewer workers than 32 bits can count.
\<close>

definition exact :: "('w, 'o) remote_engine \<Rightarrow> bool" where
  "exact e \<longleftrightarrow> unat (queued (metrics e)) = len (queue e) \<and> unat (in_flight (metrics e)) = busy e \<and>
     len (queue e) \<le> unat (capacity (queue e)) \<and> length (workers e) < 2 ^ 32"

definition work_conserving :: "('w, 'o) remote_engine \<Rightarrow> bool" where
  "work_conserving e \<longleftrightarrow> is_empty (queue e) \<or> busy e = length (workers e)"

definition dispatched :: "('w, 'o, 'a) engine_effect list \<Rightarrow> 'o priority_request multiset" where
  "dispatched fx = mset (List.map_filter (\<lambda>f. case f of Dispatch _ r \<Rightarrow> Some r | _ \<Rightarrow> None) fx)"

lemma dispatched_simps [simp]:
  "dispatched [] = {#}" "dispatched (f @ g) = dispatched f + dispatched g"
  "dispatched (Dispatch w r # g) = add_mset r (dispatched g)"
  "dispatched (Admission a x # g) = dispatched g"
  by (auto simp: dispatched_def map_filter_def)

text \<open>The requests a run accepted: those whose admission channel got \<^verbatim>\<open>Ok(())\<close>.\<close>

definition accepted :: "('o, 'a) engine_msg \<Rightarrow> ('w, 'o, 'a) engine_effect list \<Rightarrow> 'o priority_request multiset" where
  "accepted m fx = (case m of
     Add req \<Rightarrow> if Admission (admission req) (Inr ()) \<in> set fx then {#request_of req#} else {#}
   | WorkerIdle \<Rightarrow> {#})"

fun accepted_run :: "('w, 'o) remote_engine \<Rightarrow> ('o, 'a) engine_msg list \<Rightarrow> 'o priority_request multiset" where
  "accepted_run e [] = {#}"
| "accepted_run e (m # ms) = (let (e1, f1) = handle m e :: _ \<times> ('w, 'o, 'a) engine_effect list
     in accepted m f1 + accepted_run e1 ms)"

definition waiting :: "('w, 'o) remote_engine \<Rightarrow> 'o priority_request multiset" where
  "waiting e = image_mset unstamp (mset (q_inner (queue e)))"

lemma busy_le: "busy e \<le> length (workers e)"
  by (simp add: busy_def)

lemma busy_full: "busy e = length (workers e) \<longleftrightarrow> (\<forall>w \<in> set (workers e). \<not> idle w)"
  by (simp add: busy_def length_filter_all)

lemma dispatch_to_exact [step_inv]:
  assumes "exact e" "position idle (workers e) = Some idx" "pop (queue e) = (Some r, q)"
  shows "exact (dispatch_to idx q e) \<and> busy (dispatch_to idx q e) = Suc (busy e)"
proof -
  have i: "idx < length (workers e)" "idle (workers e ! idx)" using position_Some [OF assms(2)] by auto
  have ne: "\<not> is_empty (queue e)" using assms(3) pop_None by (metis Pair_inject option.distinct(1))
  from pop_len [OF ne] assms(3) have q: "Suc (len q) = len (queue e)" "capacity q = capacity (queue e)" by auto
  have b: "busy (dispatch_to idx q e) = Suc (busy e)"
    using i by (simp add: busy_def dispatch_to_def length_filter_update_add)
  have "busy (dispatch_to idx q e) \<le> length (workers e)" using busy_le [of "dispatch_to idx q e"]
    by (simp add: dispatch_to_def)
  then have "unat (in_flight (metrics e) + 1) = Suc (unat (in_flight (metrics e)))"
    using assms(1) b by (intro unat_suc_no_overflow) (simp add: exact_def)
  then show ?thesis using assms(1) b q
    by (auto simp: exact_def dispatch_to_def unat_saturating_sub)
qed

text \<open>The loop keeps the gauges exact, ends work conserving, and moves requests from the queue to workers.\<close>

lemma try_dispatch_correct:
  assumes "exact e" "try_dispatch e = (e', fx)"
  shows "exact e' \<and> work_conserving e' \<and> (\<forall>a x. Admission a x \<notin> set fx) \<and>
     mset (q_inner (queue e)) = dispatched fx + mset (q_inner (queue e')) \<and>
     size (dispatched fx) + busy e = busy e' \<and> length (workers e') = length (workers e) \<and>
     capacity (queue e') = capacity (queue e)"
  using assms
proof (induction e arbitrary: e' fx rule: try_dispatch.induct)
  case (1 e)
  show ?case
  proof (cases "is_empty (queue e) \<or> position idle (workers e) = None")
    case True
    then have "e' = e \<and> fx = []" using 1(3) by (subst (asm) try_dispatch.simps) (auto split: if_splits)
    moreover have "work_conserving e"
      using True by (auto simp: work_conserving_def position_None busy_full)
    ultimately show ?thesis using 1(2) by simp
  next
    case False
    then obtain idx where idx: "position idle (workers e) = Some idx" by auto
    obtain r q where p: "pop (queue e) = (Some r, q)"
      "mset (q_inner (queue e)) = add_mset r (mset (q_inner q))" "capacity q = capacity (queue e)"
      using False pop_len by blast
    obtain e1 f1 where t: "try_dispatch (dispatch_to idx q e) = (e1, f1 :: ('a, 'b, 'c) engine_effect list)"
      by (cases "try_dispatch (dispatch_to idx q e) :: _ \<times> ('a, 'b, 'c) engine_effect list")
    have ef: "e' = e1" "fx = Dispatch (addr (workers e ! idx)) r # f1"
      using 1(3) False idx p(1) t by (subst (asm) (1) try_dispatch.simps, simp)+
    note d = dispatch_to_exact [OF 1(2) idx p(1)]
    have q: "queue (dispatch_to idx q e) = q" "length (workers (dispatch_to idx q e)) = length (workers e)"
      by (simp_all add: dispatch_to_def)
    from 1(1) [OF _ idx p(1) [symmetric] refl _ t] d False ef p(2,3) q show ?thesis by auto
  qed
qed

lemma enqueue_correct:
  assumes "exact e" "enqueue req e = (e', fx)"
  shows "exact e' \<and> busy e' = busy e \<and> workers e' = workers e \<and> dispatched fx = {#} \<and>
    capacity (queue e') = capacity (queue e) \<and>
    waiting e' = waiting e + accepted (Add req) fx \<and>
    (Admission (admission req) (Inr ()) \<in> set fx \<longleftrightarrow> \<not> is_full (queue e))"
proof (cases "is_full (queue e)")
  case True
  then show ?thesis using assms by (auto simp: enqueue_def push_def exact_def busy_def waiting_def accepted_def)
next
  case False
  have "Suc (unat (queued (metrics e))) < 2 ^ LENGTH(64)"
    using assms(1) False unat_u64_bound [of "capacity (queue e)"] by (simp add: exact_def is_full_def len_def)
  then have "unat (queued (metrics e) + 1) = Suc (unat (queued (metrics e)))" by (rule unat_suc_no_overflow)
  moreover have "unstamp (request_of req) = request_of req" by (simp add: request_of_def unstamp_def)
  ultimately show ?thesis using assms False
    by (auto simp: enqueue_def push_def exact_def busy_def heap_push_def len_def is_full_def waiting_def accepted_def)
qed

lemma worker_idle_correct [step_inv]:
  assumes "exact e"
  shows "exact (worker_idle e) \<and> queue (worker_idle e) = queue e \<and> busy (worker_idle e) = busy e - 1 \<and>
    length (workers (worker_idle e)) = length (workers e)"
proof (cases "position (\<lambda>w. \<not> idle w) (workers e)")
  case None
  then have "busy e = 0" by (simp add: position_None busy_def)
  then show ?thesis using None assms by (simp add: worker_idle_def)
next
  case (Some i)
  note p = position_Some [OF Some]
  have "Suc (busy (worker_idle e)) = busy e"
    using p length_filter_update [of i "workers e" "\<lambda>w. \<not> idle w" "(workers e ! i)\<lparr>idle := True\<rparr>"]
    by (simp add: busy_def worker_idle_def Some)
  then show ?thesis using assms Some by (auto simp: worker_idle_def exact_def unat_saturating_sub)
qed

text \<open>One message.\<close>

lemma handle_correct:
  assumes "exact e" "handle m e = (e', fx)"
  shows "exact e' \<and> work_conserving e' \<and> length (workers e') = length (workers e) \<and>
    capacity (queue e') = capacity (queue e) \<and> waiting e + accepted m fx = image_mset unstamp (dispatched fx) + waiting e'"
proof (cases m)
  case (Add req)
  obtain e1 f1 where n: "enqueue req e = (e1, f1)" by (cases "enqueue req e")
  obtain e2 f2 where t: "try_dispatch e1 = (e2, f2)" and f: "e' = e2" "fx = f1 @ f2"
    using assms(2) Add n by (auto split: prod.splits)
  note nq = enqueue_correct [OF assms(1) n]
  note td = try_dispatch_correct [OF conjunct1 [OF nq] t]
  have "accepted m fx = accepted (Add req) f1" using Add f td by (auto simp: accepted_def)
  with nq td f show ?thesis by (auto simp: waiting_def)
next
  case WorkerIdle
  note wi = worker_idle_correct [OF assms(1)]
  have "try_dispatch (worker_idle e) = (e', fx)" using assms(2) WorkerIdle by simp
  from try_dispatch_correct [OF conjunct1 [OF wi] this] wi WorkerIdle show ?thesis
    by (auto simp: waiting_def accepted_def)
qed

lemma run_engine_correct:
  assumes "exact e" "work_conserving e" "run_engine e ms = (e', fx)"
  shows "exact e' \<and> work_conserving e' \<and> length (workers e') = length (workers e) \<and>
    capacity (queue e') = capacity (queue e) \<and> waiting e + accepted_run e ms = image_mset unstamp (dispatched fx) + waiting e'"
  using assms
proof (induction ms arbitrary: e fx)
  case Nil
  then show ?case by simp
next
  case (Cons m ms)
  obtain e1 f1 where h: "handle m e = (e1, f1)" by (cases "handle m e")
  obtain e2 f2 where r: "run_engine e1 ms = (e2, f2)" by (cases "run_engine e1 ms")
  note hc = handle_correct [OF Cons.prems(1) h]
  have f: "e' = e2" "fx = f1 @ f2" using Cons.prems(3) h r by auto
  from Cons.IH [of e1 f2] hc r f have ih: "exact e2 \<and> work_conserving e2 \<and> length (workers e2) = length (workers e1) \<and>
    capacity (queue e2) = capacity (queue e1) \<and> waiting e1 + accepted_run e1 ms = image_mset unstamp (dispatched f2) + waiting e2" by simp
  have "waiting e + accepted_run e (m # ms) = (waiting e + accepted m f1) + accepted_run e1 ms"
    by (simp add: h ac_simps)
  also have "\<dots> = image_mset unstamp (dispatched f1) + (waiting e1 + accepted_run e1 ms)"
    using hc by (simp add: ac_simps)
  also have "\<dots> = image_mset unstamp (dispatched fx) + waiting e2" using ih f by (simp add: ac_simps)
  finally show ?case using ih hc f by simp
qed

lemma started_engine:
  assumes "pre_start spawn (new_remote_engine cfg) = Some e"
  shows "exact e \<and> work_conserving e \<and> waiting e = {#} \<and> capacity (queue e) = queue_capacity cfg \<and>
    length (workers e) \<le> unat (worker_count cfg)"
proof -
  have w: "workers e = map (\<lambda>w. \<lparr>addr = w, idle = True\<rparr>) (List.map_filter spawn [0 ..< unat (worker_count cfg)])"
    and o: "queue e = new_request_queue (queue_capacity cfg)" "metrics e = default_engine_metrics"
    using assms by (auto simp: pre_start_def new_remote_engine_def)
  have l: "length (workers e) \<le> unat (worker_count cfg)"
    unfolding w map_filter_def
    using length_filter_le [of "\<lambda>x. spawn x \<noteq> None" "[0 ..< unat (worker_count cfg)]"] by simp
  have "busy e = 0" by (simp add: busy_def w)
  then show ?thesis using o l unat_u32_bound [of "worker_count cfg"]
    by (simp add: exact_def work_conserving_def waiting_def new_request_queue_def len_def is_empty_def default_engine_metrics_def)
qed

section \<open>Properties\<close>


text \<open>The engine's gauges are exact and its bounds hold.  After \<^verbatim>\<open>pre_start\<close> and any
  sequence of messages, \<^verbatim>\<open>queued\<close> is the length of the queue, which is at most the configured
  capacity, and \<^verbatim>\<open>in_flight\<close> is the number of busy workers, which is at most the configured
  worker count: neither counter ever wraps or saturates, although both are updated blindly.\<close>

theorem engine_metrics_exact:
  assumes "pre_start spawn (new_remote_engine cfg) = Some e" "run_engine e ms = (e', fx)"
  shows "unat (queued (metrics e')) = len (queue e') \<and> len (queue e') \<le> unat (queue_capacity cfg) \<and>
    unat (in_flight (metrics e')) = length (filter (\<lambda>w. \<not> idle w) (workers e')) \<and>
    unat (in_flight (metrics e')) \<le> unat (worker_count cfg)"
proof -
  note st = started_engine [OF assms(1)]
  note rc = run_engine_correct [OF _ _ assms(2)]
  have "busy e' \<le> unat (worker_count cfg)" using st rc busy_le [of e'] by simp
  with st rc show ?thesis by (auto simp: exact_def busy_def)
qed

text \<open>Admission control.  From any state with exact gauges, an \<^verbatim>\<open>Add\<close> is answered \<^verbatim>\<open>Ok\<close> when
  the queue has room and \<^verbatim>\<open>Backpressure\<close> otherwise, in which case the waiting requests are
  untouched and only the rejection counter of the metrics moves before the dispatch loop.\<close>

theorem engine_admission:
  assumes "exact e" "handle (Add req) e = (e', fx)"
  shows "(\<not> is_full (queue e) \<longrightarrow> hd fx = Admission (admission req) (Inr ())) \<and>
    (is_full (queue e) \<longrightarrow> hd fx = Admission (admission req) (Inl (Backpressure ''engine queue full'')) \<and>
       waiting e = image_mset unstamp (dispatched fx) + waiting e')"
proof -
  obtain e1 f1 where n: "enqueue req e = (e1, f1)" by (cases "enqueue req e")
  obtain e2 f2 where t: "try_dispatch e1 = (e2, f2)" and f: "e' = e2" "fx = f1 @ f2"
    using assms(2) n by (auto split: prod.splits)
  have "f1 \<noteq> [] \<and> hd f1 = Admission (admission req)
      (if is_full (queue e) then Inl (Backpressure ''engine queue full'') else Inr ()) \<and>
      (is_full (queue e) \<longrightarrow> waiting e1 = waiting e \<and> dispatched f1 = {#})"
    using n by (auto simp: enqueue_def push_def waiting_def split: if_splits)
  with f try_dispatch_correct [OF conjunct1 [OF enqueue_correct [OF assms(1) n]] t]
  show ?thesis by (auto simp: waiting_def)
qed

definition sample_add :: "priority \<Rightarrow> nat \<Rightarrow> (nat, nat) add_request" where
  "sample_add p n = \<lparr>ar_priority = p, ar_batch = pr_batch (sample_request p n), ar_output = n, admission = n\<rparr>"

text \<open>A replica with one worker and room for one waiting request.\<close>

definition small_config :: remote_engine_config where
  "small_config = \<lparr>queue_capacity = 1, worker_count = 1, on_capacity_exhausted = Queue\<rparr>"

definition small_engine :: "(nat, nat) remote_engine" where
  "small_engine = \<lparr>re_config = small_config, queue = new_request_queue 1, workers = [\<lparr>addr = 7, idle = True\<rparr>],
     metrics = default_engine_metrics, has_factory = False, re_worker_count = 1, has_idle_rx = False\<rparr>"

lemma small_engine_started: "pre_start (\<lambda>_. Some 7) (new_remote_engine small_config) = Some small_engine"
  by (simp add: pre_start_def new_remote_engine_def small_config_def small_engine_def map_filter_def)

lemmas engine_eval = small_engine_def new_request_queue_def default_engine_metrics_def sample_add_def
  enqueue_def push_def is_full_def heap_push_def request_of_def try_dispatch.simps dispatch_to_def
  is_empty_def pop_def Let_def worker_idle_def sample_request_def saturating_sub_def

definition small_run :: "(nat, nat) remote_engine \<times> (nat, nat, nat) engine_effect list" where
  "small_run = run_engine small_engine
     [Add (sample_add Normal 1), Add (sample_add Normal 2), Add (sample_add High 3), WorkerIdle]"


theorem engine_metrics_exact_witness:
  "unat (in_flight (metrics (fst small_run))) = 1 \<and> (1 :: nat) \<le> unat (worker_count small_config)"
  using engine_metrics_exact [OF small_engine_started, of
      "[Add (sample_add Normal 1), Add (sample_add Normal 2), Add (sample_add High 3), WorkerIdle]"
      "fst small_run" "snd small_run"]
  by (simp add: small_run_def engine_eval)

theorem engine_admission_witness:
  "exact (fst (run_engine small_engine [Add (sample_add Normal 1), Add (sample_add Normal 2)]) :: (nat, nat) remote_engine) \<and>
   hd (snd (handle (Add (sample_add High 3))
      (fst (run_engine small_engine [Add (sample_add Normal 1), Add (sample_add Normal 2)])))) =
     (Admission 3 (Inl (Backpressure ''engine queue full'')) :: (nat, nat, nat) engine_effect)"
  using engine_admission [of
      "fst (run_engine small_engine [Add (sample_add Normal 1), Add (sample_add Normal 2)])" "sample_add High 3",
      OF _ surjective_pairing]
  by (simp add: engine_eval exact_def busy_def len_def)

end
