(* ===== verification/Remote_Worker.thy ===== *)
theory Remote_Worker
  imports Backoff Circuit_Breaker Rate_Limit Request_Queue
begin

text \<open>
  \<^verbatim>\<open>inference-remote-core/src/worker.rs\<close>: one worker slot of the remote engine, and the session
  it shares with its siblings (\<^verbatim>\<open>session.rs\<close>).  The model runner is a trait object: what it
  returns on its \<open>k\<close>-th execution is the field \<open>runner\<close> of the slot.  A stream is the finite list
  of its items.  The breaker is shared with other tasks, so the slot holds the breaker and the
  clock readings that the \<open>k\<close>-th check sees; the receiver may be dropped at any time, so the slot
  holds whether the \<open>n\<close>-th send on the output channel is accepted.
  The lemmas bound the number of executions, describe what is written to the output channel and
  show that an open breaker keeps the runner from being called.
\<close>

section \<open>The worker\<close>

record 'j worker_slot =
  runner :: "nat \<Rightarrow> execute_batch \<Rightarrow> (inference_error + (inference_error + 'j token_chunk) list)"
  breaker_view :: "nat \<Rightarrow> circuit_breaker \<times> instant \<times> int"
  limiter_view :: "u64 \<times> u64"
  receiver_alive :: "nat \<Rightarrow> bool"
  ws_retry_engine :: retry_engine

datatype 'o worker_msg = WmDispatch "'o priority_request" | Shutdown

text \<open>\<^verbatim>\<open>acquire_permit\<close> reads the limiter's window, builds a demand and drops it.\<close>

definition acquire_permit_check :: "'j worker_slot \<Rightarrow> execute_batch \<Rightarrow> unit inference_result" where
  "acquire_permit_check slot b =
     (let hint = limiter_view slot;
          demand = \<lparr>ap_requests = 1, ap_tokens = estimated_tokens b\<rparr>
      in Inr ())"

text \<open>The inner \<^verbatim>\<open>while let\<close> loop over the stream, up to the first error or refused send.\<close>

datatype stream_end = StreamDone | ReceiverGone | StreamFailed inference_error

fun forward :: "(nat \<Rightarrow> bool) \<Rightarrow> 'j token_chunk list \<Rightarrow> (inference_error + 'j token_chunk) list \<Rightarrow>
    stream_end \<times> 'j token_chunk list" where
  "forward alive out [] = (StreamDone, out)"
| "forward alive out (Inr c # items) =
     (if alive (length out) then forward alive (out @ [c]) items else (ReceiverGone, out))"
| "forward alive out (Inl e # items) = (StreamFailed e, out)"

text \<open>What a worker did for one request: the result, the chunks sent, the pauses between
  attempts and the number of calls of the runner.\<close>

record 'j work =
  w_result :: "unit inference_result"
  w_out :: "'j token_chunk list"
  w_sleeps :: "duration list"
  w_executes :: nat

text \<open>
  One round of the outer loop: the two gates, the execution, the stream.  Both error arms of the
  source ask the retry engine in the same way; they are the outcome \<open>Failed\<close>, with the chunks sent
  so far and the number of executions.
\<close>

datatype round_end = Returned "unit inference_result" | Failed inference_error

definition attempt_once :: "'j worker_slot \<Rightarrow> execute_batch \<Rightarrow> u32 \<Rightarrow> 'j token_chunk list \<Rightarrow> nat \<Rightarrow>
    round_end \<times> 'j token_chunk list \<times> nat" where
  "attempt_once slot b attempt out n =
     (case acquire_permit_check slot b of
        Inl e \<Rightarrow> (Returned (Inl e), out, n)
      | Inr _ \<Rightarrow>
        (let (h, now, unix_ms) = breaker_view slot (unat attempt) in
         case check h now unix_ms of
           Inl e \<Rightarrow> (Returned (Inl e), out, n)
         | Inr _ \<Rightarrow>
           (case runner slot n b of
              Inl err \<Rightarrow> (Failed err, out, Suc n)
            | Inr items \<Rightarrow>
                (case forward (receiver_alive slot) out items of
                   (StreamDone, out') \<Rightarrow> (Returned (Inr ()), out', Suc n)
                 | (ReceiverGone, out') \<Rightarrow> (Returned (Inr ()), out', Suc n)
                 | (StreamFailed err, out') \<Rightarrow> (Failed err, out', Suc n)))))"

lemma attempt_step:
  assumes "decide pw e a err = Retry d"
  shows "unat (a + 1) = Suc (unat a) \<and> unat a < unat (max_retries (re_policy e))"
proof -
  have lt: "unat a < unat (max_retries (re_policy e))"
    using decide_retry_lt [OF assms] by (simp add: word_less_nat_alt)
  then have "Suc (unat a) < 2 ^ LENGTH(32)" using unat_u32_bound [of "max_retries (re_policy e)"] by simp
  with lt show ?thesis by (simp add: unat_suc_no_overflow)
qed

function execute_loop :: "powi_fn \<Rightarrow> 'j worker_slot \<Rightarrow> execute_batch \<Rightarrow> u32 \<Rightarrow> 'j token_chunk list \<Rightarrow>
    duration list \<Rightarrow> nat \<Rightarrow> 'j work" where
  "execute_loop pw slot b attempt out sleeps n =
     (case attempt_once slot b attempt out n of
        (Returned r, out', n') \<Rightarrow> \<lparr>w_result = r, w_out = out', w_sleeps = sleeps, w_executes = n'\<rparr>
      | (Failed err, out', n') \<Rightarrow>
          (case decide pw (ws_retry_engine slot) attempt err of
             Retry after \<Rightarrow> execute_loop pw slot b (attempt + 1) out' (sleeps @ [after]) n'
           | GiveUp \<Rightarrow> \<lparr>w_result = Inl err, w_out = out', w_sleeps = sleeps, w_executes = n'\<rparr>))"
  by pat_completeness auto

termination
  by (relation "measure (\<lambda>(pw, slot, b, attempt, out, sleeps, n).
        unat (max_retries (re_policy (ws_retry_engine slot))) - unat attempt)")
    (auto dest: attempt_step)

declare execute_loop.simps [simp del]

definition execute_with_retries :: "powi_fn \<Rightarrow> 'j worker_slot \<Rightarrow> execute_batch \<Rightarrow> 'j work" where
  "execute_with_retries pw slot b = execute_loop pw slot b 0 [] [] 0"

text \<open>The messages on the output channel, and the one idle signal to the engine.\<close>

definition dispatch :: "powi_fn \<Rightarrow> 'j worker_slot \<Rightarrow> 'o priority_request \<Rightarrow> (inference_error + 'j token_chunk) list \<times> unit list" where
  "dispatch pw slot req =
     (let w = execute_with_retries pw slot (pr_batch req); sent = map Inr (w_out w) in
      (case w_result w of
         Inl e \<Rightarrow> if receiver_alive slot (length sent) then sent @ [Inl e] else sent
       | Inr _ \<Rightarrow> sent,
       [()]))"

datatype 'j worker_effect = Output "inference_error + 'j token_chunk" | IdleSignal | StopSelf

fun worker_handle :: "powi_fn \<Rightarrow> 'j worker_slot \<Rightarrow> 'o worker_msg \<Rightarrow> 'j worker_effect list" where
  "worker_handle pw slot (WmDispatch req) =
     (let (sent, idles) = dispatch pw slot req in map Output sent @ map (\<lambda>_. IdleSignal) idles)"
| "worker_handle pw slot Shutdown = [StopSelf]"

section \<open>What a request costs and produces\<close>

lemma acquire_permit_ok [simp]: "acquire_permit_check slot b = Inr ()"
  by (simp add: acquire_permit_check_def)

lemma forward_prefix: "forward alive out items = (r, out') \<Longrightarrow>
    \<exists>more. out' = out @ more \<and> map Inr more @ (case r of StreamFailed e \<Rightarrow> [Inl e] | _ \<Rightarrow> []) = take (length more +
      (case r of StreamFailed e \<Rightarrow> 1 | _ \<Rightarrow> 0)) items"
proof (induction alive out items rule: forward.induct)
  case (1 alive out)
  then show ?case by auto
next
  case (2 alive out c items)
  show ?case
  proof (cases "alive (length out)")
    case True
    then obtain more where "out' = (out @ [c]) @ more"
      "map Inr more @ (case r of StreamFailed e \<Rightarrow> [Inl e] | _ \<Rightarrow> []) = take (length more +
        (case r of StreamFailed e \<Rightarrow> 1 | _ \<Rightarrow> 0)) items" using 2 by auto
    then show ?thesis by (intro exI [of _ "c # more"]) simp
  next
    case False
    then show ?thesis using 2 by auto
  qed
next
  case (3 alive out e items)
  then show ?case by auto
qed

lemma forward_all:
  assumes "\<And>n. alive n"
  shows "forward alive out (map Inr xs @ [Inl err]) = (StreamFailed err, out @ xs)"
    "forward alive out (map Inr xs) = (StreamDone, out @ xs)"
  using assms by (induction xs arbitrary: out) auto

text \<open>When the first attempt streams without error to a listening receiver, its chunks are the whole output.\<close>

lemma dispatch_first_attempt:
  assumes "runner slot 0 (pr_batch req) = Inr (map Inr cs)" and "\<And>n. receiver_alive slot n"
    and "breaker_view slot 0 = (h, now, unix_ms)" and "check h now unix_ms = Inr u"
  shows "dispatch pw slot req = (map Inr cs, [()])"
  using assms forward_all[of "receiver_alive slot" "[]" cs]
  by (simp add: dispatch_def execute_with_retries_def execute_loop.simps attempt_once_def)

lemma attempt_once_facts:
  assumes "attempt_once slot b attempt out n = (r, out', n')"
  shows "n' \<le> Suc n" "n \<le> n'" "\<exists>more. out' = out @ more" "r = Failed err \<Longrightarrow> n' = Suc n"
    "n' = Suc n \<or> (\<exists>h now u e. breaker_view slot (unat attempt) = (h, now, u) \<and> check h now u = Inl e \<and>
       r = Returned (Inl e) \<and> out' = out)"
proof -
  obtain h now u where v: "breaker_view slot (unat attempt) = (h, now, u)" by (cases "breaker_view slot (unat attempt)")
  obtain q o2 where f: "\<And>items. runner slot n b = Inr items \<Longrightarrow> forward (receiver_alive slot) out items = (q, o2)"
    by (metis surj_pair Inr_inject)
  have "\<exists>more. o2 = out @ more" if "runner slot n b = Inr items" for items
    using forward_prefix [OF f [OF that]] by blast
  then show "n' \<le> Suc n" "n \<le> n'" "\<exists>more. out' = out @ more" "r = Failed err \<Longrightarrow> n' = Suc n"
    "n' = Suc n \<or> (\<exists>h now u e. breaker_view slot (unat attempt) = (h, now, u) \<and> check h now u = Inl e \<and>
       r = Returned (Inl e) \<and> out' = out)"
    using assms v f by (auto simp: attempt_once_def split: sum.splits stream_end.splits)
qed

text \<open>A proof rule for the retry loop: an invariant of the rounds and a postcondition of its two exits.\<close>

lemma execute_loop_rule:
  assumes "I attempt out sleeps n"
    and "\<And>a out sleeps n err out' n' d. I a out sleeps n \<Longrightarrow> attempt_once slot b a out n = (Failed err, out', n') \<Longrightarrow>
      decide pw (ws_retry_engine slot) a err = Retry d \<Longrightarrow> I (a + 1) out' (sleeps @ [d]) n'"
    and "\<And>a out sleeps n r out' n'. I a out sleeps n \<Longrightarrow> attempt_once slot b a out n = (Returned r, out', n') \<Longrightarrow>
      Q \<lparr>w_result = r, w_out = out', w_sleeps = sleeps, w_executes = n'\<rparr>"
    and "\<And>a out sleeps n err out' n'. I a out sleeps n \<Longrightarrow> attempt_once slot b a out n = (Failed err, out', n') \<Longrightarrow>
      decide pw (ws_retry_engine slot) a err = GiveUp \<Longrightarrow>
      Q \<lparr>w_result = Inl err, w_out = out', w_sleeps = sleeps, w_executes = n'\<rparr>"
  shows "Q (execute_loop pw slot b attempt out sleeps n)"
  using assms
proof (induction pw slot b attempt out sleeps n rule: execute_loop.induct)
  case (1 pw slot b attempt out sleeps n)
  obtain r out' n' where at: "attempt_once slot b attempt out n = (r, out', n')"
    by (cases "attempt_once slot b attempt out n")
  show ?case
  proof (cases r)
    case (Returned x)
    then show ?thesis using 1(4) [OF 1(2)] at by (simp add: execute_loop.simps [of pw])
  next
    case (Failed err)
    show ?thesis
    proof (cases "decide pw (ws_retry_engine slot) attempt err")
      case (Retry d)
      have "Q (execute_loop pw slot b (attempt + 1) out' (sleeps @ [d]) n')"
        using 1(3) [OF 1(2)] at Failed Retry
        by (intro 1(1) [OF at [symmetric] Failed refl Retry _ 1(3-5)]) auto
      then show ?thesis using at Failed Retry by (simp add: execute_loop.simps [of pw slot b attempt])
    next
      case GiveUp
      then show ?thesis using 1(5) [OF 1(2)] at Failed by (simp add: execute_loop.simps [of pw])
    qed
  qed
qed

abbreviation retries_of :: "'j worker_slot \<Rightarrow> nat" where
  "retries_of slot \<equiv> unat (max_retries (re_policy (ws_retry_engine slot)))"

text \<open>The invariant of the rounds: one execution and one pause per failed round, within the budget.\<close>

definition rounds_inv :: "'j worker_slot \<Rightarrow> u32 \<Rightarrow> 'j token_chunk list \<Rightarrow> duration list \<Rightarrow> nat \<Rightarrow> bool" where
  "rounds_inv slot a out sleeps n \<longleftrightarrow> n = unat a \<and> length sleeps = n \<and> n \<le> retries_of slot \<and>
     (0 < n \<longrightarrow> re_idempotent (ws_retry_engine slot))"

lemma rounds_inv_step:
  assumes "rounds_inv slot a out sleeps n" "attempt_once slot b a out n = (Failed err, out', n')"
    and "decide pw (ws_retry_engine slot) a err = Retry d"
  shows "rounds_inv slot (a + 1) out' (sleeps @ [d]) n'"
  using assms(1) attempt_step [OF assms(3)] attempt_once_facts(4) [OF assms(2) refl]
    decide_Retry_iff [of pw "ws_retry_engine slot" a err] assms(3) by (auto simp: rounds_inv_def)

lemma rounds_inv_init: "rounds_inv slot 0 [] [] 0"
  by (simp add: rounds_inv_def)

section \<open>Properties\<close>

text \<open>C10: the retry budget.  Whatever the runner, the breaker and the receiver do, a worker
  finishes a request after at most \<^verbatim>\<open>max_retries + 1\<close> executions of the runner with one pause
  between two of them, and it never executes a non-idempotent deployment's request twice.\<close>

theorem worker_attempts_bounded:
  "w_executes (execute_with_retries pw slot b) \<le> Suc (unat (max_retries (re_policy (ws_retry_engine slot)))) \<and>
   length (w_sleeps (execute_with_retries pw slot b)) \<le> w_executes (execute_with_retries pw slot b) \<and>
   w_executes (execute_with_retries pw slot b) \<le> Suc (length (w_sleeps (execute_with_retries pw slot b))) \<and>
   (re_idempotent (ws_retry_engine slot) \<or> w_executes (execute_with_retries pw slot b) \<le> 1)"
  unfolding execute_with_retries_def
proof (rule execute_loop_rule [where I = "rounds_inv slot"], goal_cases)
  case 1
  show ?case by (rule rounds_inv_init)
next
  case (2 a out sleeps n err out' n' d)
  then show ?case by (rule rounds_inv_step)
next
  case (3 a out sleeps n r out' n')
  then show ?case using attempt_once_facts(1,2) [OF 3(2)] by (auto simp: rounds_inv_def)
next
  case (4 a out sleeps n err out' n')
  then show ?case using attempt_once_facts(1,2) [OF 4(2)] by (auto simp: rounds_inv_def)
qed

text \<open>C9: a worker gives up only for a reason.  If a request ends in an error, then the breaker
  refused an attempt with that very error, or the error is not retryable, or the deployment is
  not idempotent, or all \<^verbatim>\<open>max_retries + 1\<close> executions have been used.\<close>

theorem worker_gives_up_only_for_a_reason:
  assumes "w_result (execute_with_retries pw slot b) = Inl e"
  shows "(\<exists>k h now u. breaker_view slot k = (h, now, u) \<and> check h now u = Inl e) \<or> \<not> is_retryable e \<or>
    \<not> re_idempotent (ws_retry_engine slot) \<or>
    w_executes (execute_with_retries pw slot b) = Suc (unat (max_retries (re_policy (ws_retry_engine slot))))"
proof -
  let ?Q = "\<lambda>w. w_result w = Inl e \<longrightarrow>
    (\<exists>k h now u. breaker_view slot k = (h, now, u) \<and> check h now u = Inl e) \<or> \<not> is_retryable e \<or>
    \<not> re_idempotent (ws_retry_engine slot) \<or> w_executes w = Suc (retries_of slot)"
  have "?Q (execute_loop pw slot b 0 [] [] 0)"
  proof (rule execute_loop_rule [where I = "rounds_inv slot" and Q = ?Q], goal_cases)
    case 1
    show ?case by (rule rounds_inv_init)
  next
    case (2 a out sleeps n err out' n' d)
    then show ?case by (intro rounds_inv_step)
  next
    case (3 a out sleeps n r out' n')
    then show ?case by (auto simp: attempt_once_def split: sum.splits prod.splits stream_end.splits)
  next
    case (4 a out sleeps n err out' n')
    then show ?case using attempt_once_facts(4) [OF 4(2) refl]
      by (auto simp: rounds_inv_def decide_GiveUp_iff word_le_nat_alt)
  qed
  with assms show ?thesis by (simp add: execute_with_retries_def)
qed

text \<open>The pauses.  With a maximal backoff of at most \<open>2^52\<close> ms, every pause between two
  attempts is at most the configured maximum, or it is the delay that a rate-limit answer of the
  provider asked for and the policy respects.\<close>

theorem worker_pauses_bounded:
  assumes "ws_retry_engine slot = new_retry_engine p idem" "as_millis (max_backoff p) \<le> 2 ^ 52"
    and "d \<in> set (w_sleeps (execute_with_retries pw slot b))"
  shows "d \<le> max_backoff p \<or> respect_retry_after p \<and> (\<exists>err. server_retry_after err = Some d)"
proof -
  let ?ok = "\<lambda>d. d \<le> max_backoff p \<or> respect_retry_after p \<and> (\<exists>err. server_retry_after err = Some d)"
  have "\<forall>d \<in> set (w_sleeps (execute_loop pw slot b 0 [] [] 0)). ?ok d"
  proof (rule execute_loop_rule [where I = "\<lambda>a out sleeps n. \<forall>d \<in> set sleeps. ?ok d"
        and Q = "\<lambda>w. \<forall>d \<in> set (w_sleeps w). ?ok d"], goal_cases)
    case (2 a out sleeps n err out' n' d)
    have "?ok d"
    proof (cases "server_retry_after err = None \<or> \<not> respect_retry_after p")
      case True
      then show ?thesis using decide_delay_bounded [OF 2(3) [unfolded assms(1)] assms(2)] by simp
    next
      case False
      then show ?thesis using 2(3) assms(1)
        by (auto simp: decide_def new_retry_engine_def split: if_splits option.splits)
    qed
    with 2(1) show ?case by auto
  qed simp_all
  with assms(3) show ?thesis by (simp add: execute_with_retries_def)
qed

text \<open>Fail fast.  If the breaker refuses the first attempt, the runner is never called, the
  requester receives exactly the breaker's error, and the worker reports idle once.\<close>

theorem worker_fails_fast_when_open:
  assumes "breaker_view slot 0 = (h, now, u)" "check h now u = Inl e" "receiver_alive slot 0"
  shows "w_executes (execute_with_retries pw slot (pr_batch req)) = 0 \<and>
    worker_handle pw slot (WmDispatch req) = [Output (Inl e), IdleSignal]"
proof -
  have "attempt_once slot (pr_batch req) 0 [] 0 = (Returned (Inl e), [], 0)"
    using assms by (simp add: attempt_once_def)
  then show ?thesis using assms(3)
    by (simp add: execute_with_retries_def execute_loop.simps [of pw slot] dispatch_def)
qed

text \<open>The requester's view.  A dispatch writes data chunks and then at most one error, which is
  the last thing written; it always signals idle exactly once, as its last action.\<close>

theorem worker_output_shape:
  "\<exists>chunks tail. worker_handle pw slot (WmDispatch req) =
     map (\<lambda>c. Output (Inr c)) chunks @ tail @ [IdleSignal] \<and>
     chunks = w_out (execute_with_retries pw slot (pr_batch req)) \<and>
     (tail = [] \<or> (\<exists>e. tail = [Output (Inl e)] \<and> w_result (execute_with_retries pw slot (pr_batch req)) = Inl e))"
proof -
  let ?w = "execute_with_retries pw slot (pr_batch req)"
  have "worker_handle pw slot (WmDispatch req) = map (\<lambda>c. Output (Inr c)) (w_out ?w) @
    (case w_result ?w of Inl e \<Rightarrow> if receiver_alive slot (length (w_out ?w)) then [Output (Inl e)] else [] | Inr _ \<Rightarrow> []) @ [IdleSignal]"
    by (auto simp: dispatch_def Let_def split: sum.splits)
  then show ?thesis by (cases "w_result ?w") auto
qed

text \<open>C38: a retry after a broken stream repeats the chunks already delivered.  If the first execution
  yields the chunks \<open>cs\<close> and then a retryable error, and the second yields \<open>cs @ rest\<close>, the
  requester sees \<open>cs\<close> twice.\<close>

theorem stream_retry_repeats_chunks:
  assumes "runner slot 0 b = Inr (map Inr cs @ [Inl err])" "runner slot 1 b = Inr (map Inr (cs @ rest))"
    and "\<And>n. receiver_alive slot n" "\<And>k. (case breaker_view slot k of (h, now, u) \<Rightarrow> check h now u) = Inr ()"
    and "re_idempotent (ws_retry_engine slot)" "0 < max_retries (re_policy (ws_retry_engine slot))" "is_retryable err"
  shows "w_out (execute_with_retries pw slot b) = cs @ cs @ rest \<and> w_result (execute_with_retries pw slot b) = Inr ()"
proof -
  note fw = forward_all [of "receiver_alive slot", OF assms(3)]
  obtain d where d: "decide pw (ws_retry_engine slot) 0 err = Retry d"
    using assms(5-7) decide_Retry_iff by blast
  obtain h now u h2 now2 u2 where v: "breaker_view slot 0 = (h, now, u)" "breaker_view slot 1 = (h2, now2, u2)"
    by (metis prod_cases3)
  then have c: "check h now u = Inr ()" "check h2 now2 u2 = Inr ()" using assms(4) [of 0] assms(4) [of 1] by auto
  have r0: "attempt_once slot b 0 [] 0 = (Failed err, cs, 1)" using assms(1) v c by (simp add: attempt_once_def fw)
  have r1: "attempt_once slot b 1 cs 1 = (Returned (Inr ()), cs @ cs @ rest, 2)"
    using assms(2) v c by (simp add: attempt_once_def fw numeral_2_eq_2 del: map_append)
  show ?thesis using r0 r1 d by (simp add: execute_with_retries_def execute_loop.simps [of pw slot b])
qed

section \<open>Witnesses\<close>

definition text_chunk :: "string \<Rightarrow> unit token_chunk" where
  "text_chunk t = \<lparr>tc_request_id = ''r'', text_delta = t, tool_call_delta = None, tc_usage = None, tc_finish_reason = None\<rparr>"

definition closed_view :: "nat \<Rightarrow> circuit_breaker \<times> instant \<times> int" where
  "closed_view k = (new_circuit_breaker provider_kind.OpenAi default_circuit_breaker_config 0, 10, 0)"

text \<open>A runner whose first stream breaks after one chunk and whose later ones are complete.\<close>

definition flaky_slot :: "retry_policy \<Rightarrow> unit worker_slot" where
  "flaky_slot p = \<lparr>runner = (\<lambda>n b. if n = 0 then Inr [Inr (text_chunk ''a''), Inl (NetworkError ''reset'')]
       else Inr [Inr (text_chunk ''a''), Inr (text_chunk ''b'')]),
     breaker_view = closed_view, limiter_view = (0, 0), receiver_alive = (\<lambda>_. True),
     ws_retry_engine = new_retry_engine p True\<rparr>"

definition dead_slot :: "unit worker_slot" where
  "dead_slot = (flaky_slot default_retry_policy)\<lparr>runner := (\<lambda>n b. Inl (RateLimited provider_kind.OpenAi (Some 5)))\<rparr>"

definition one_request :: execute_batch where
  "one_request = pr_batch (sample_request Normal 0)"

lemma closed_view_check: "(case closed_view k of (h, now, u) \<Rightarrow> check h now u) = Inr ()"
  by (simp add: closed_view_def check_def state_def forced_open_def new_circuit_breaker_def)

lemma dead_slot_round: "attempt_once dead_slot b a out n = (Failed (RateLimited provider_kind.OpenAi (Some 5)), out, Suc n)"
  using closed_view_check [of "unat a"]
  by (auto simp: attempt_once_def dead_slot_def flaky_slot_def split: prod.splits)

lemma dead_slot_decide: "decide powi_sq (ws_retry_engine dead_slot) a (RateLimited provider_kind.OpenAi (Some 5)) =
    (if 3 \<le> a then GiveUp else Retry 5)"
  by (simp add: dead_slot_def flaky_slot_def decide_def new_retry_engine_def default_retry_policy_def)

lemma dead_slot_run:
  "execute_with_retries powi_sq dead_slot one_request =
     \<lparr>w_result = Inl (RateLimited provider_kind.OpenAi (Some 5)), w_out = [], w_sleeps = [5, 5, 5], w_executes = 4\<rparr>"
  by (simp add: execute_with_retries_def execute_loop.simps [of powi_sq dead_slot] dead_slot_round dead_slot_decide word_le_nat_alt)

theorem worker_gives_up_only_for_a_reason_witness:
  "w_result (execute_with_retries powi_sq dead_slot one_request) = Inl (RateLimited provider_kind.OpenAi (Some 5)) \<and>
   ((\<exists>k h now u. breaker_view dead_slot k = (h, now, u) \<and> check h now u = Inl (RateLimited provider_kind.OpenAi (Some 5))) \<or>
    \<not> is_retryable (RateLimited provider_kind.OpenAi (Some 5)) \<or> \<not> re_idempotent (ws_retry_engine dead_slot) \<or>
    w_executes (execute_with_retries powi_sq dead_slot one_request) = Suc (unat (max_retries (re_policy (ws_retry_engine dead_slot)))))"
  using worker_gives_up_only_for_a_reason [of powi_sq dead_slot one_request "RateLimited provider_kind.OpenAi (Some 5)"]
  by (simp add: dead_slot_run)

theorem worker_pauses_bounded_witness:
  "5 \<in> set (w_sleeps (execute_with_retries powi_sq dead_slot one_request)) \<and>
   ((5::nat) \<le> max_backoff default_retry_policy \<or>
    respect_retry_after default_retry_policy \<and> (\<exists>err. server_retry_after err = Some 5))"
  using worker_pauses_bounded [of dead_slot default_retry_policy True 5 powi_sq one_request]
  by (simp add: dead_slot_run) (simp add: dead_slot_def flaky_slot_def default_retry_policy_def as_millis_def from_millis_def)

definition forced_slot :: "unit worker_slot" where
  "forced_slot = (flaky_slot default_retry_policy)\<lparr>breaker_view := (\<lambda>k.
     (force_open (new_circuit_breaker provider_kind.OpenAi default_circuit_breaker_config 0) 10 100, 20, 0))\<rparr>"

theorem worker_fails_fast_when_open_witness:
  "w_executes (execute_with_retries powi_sq forced_slot (pr_batch (sample_request Normal 0))) = 0 \<and>
   (\<exists>e. worker_handle powi_sq forced_slot (WmDispatch (sample_request Normal 0)) = [Output (Inl e), IdleSignal])"
proof -
  let ?h = "force_open (new_circuit_breaker provider_kind.OpenAi default_circuit_breaker_config 0) 10 100"
  obtain e where e: "check ?h 20 0 = Inl e"
    by (simp add: check_def state_def forced_open_def force_open_def)
  have v: "breaker_view forced_slot 0 = (?h, 20, 0)" "receiver_alive forced_slot 0"
    by (simp_all add: forced_slot_def flaky_slot_def)
  show ?thesis using worker_fails_fast_when_open [OF v(1) e v(2), of powi_sq "sample_request Normal 0"] by blast
qed

theorem stream_retry_repeats_chunks_witness:
  "w_out (execute_with_retries powi_sq (flaky_slot default_retry_policy) one_request) =
     [text_chunk ''a'', text_chunk ''a'', text_chunk ''b'']"
  using stream_retry_repeats_chunks [of "flaky_slot default_retry_policy" one_request "[text_chunk ''a'']"
      "NetworkError ''reset''" "[text_chunk ''b'']" powi_sq] closed_view_check
  by (simp add: flaky_slot_def new_retry_engine_def default_retry_policy_def)

end
