(* ===== verification/Session.thy ===== *)
theory Session
  imports Core_Types
begin

text \<open>
  \<^verbatim>\<open>inference-remote-core/src/session.rs\<close> and the client settings of \<^verbatim>\<open>http.rs\<close>: the credential
  and HTTP-client lifecycle.  The HTTP library's client builder is the argument \<open>build\<close> (settings
  to a client or an error text) and what the credential provider answers to one \<^verbatim>\<open>token()\<close> call is
  the argument \<open>tok\<close>.
\<close>

record client_settings =
  user_agent :: string
  pool_idle_timeout :: "duration option"
  pool_max_idle_per_host :: nat
  connect_timeout :: duration
  cs_timeout :: duration
  cs_read_timeout :: duration

definition build_client :: "(client_settings \<Rightarrow> string + 'c) \<Rightarrow> timeouts \<Rightarrow> string \<Rightarrow> string + 'c" where
  "build_client build t ua = build \<lparr>user_agent = ua, pool_idle_timeout = Some (from_secs 90),
     pool_max_idle_per_host = 64, connect_timeout = from_secs 5, cs_timeout = request_timeout t,
     cs_read_timeout = read_timeout t\<rparr>"

datatype session_rebuild_cause = CudaContextPoisonedCause | RemoteAuthFailure | RemoteConfigChange | Manual

record session_config =
  sc_user_agent :: string
  sc_timeouts :: timeouts

record 'c session_snapshot =
  client :: 'c
  credential :: string

record 'c remote_session =
  rs_config :: session_config
  snapshot_cell :: "'c session_snapshot"

text \<open>\<^verbatim>\<open>StaticApiKey::token\<close>.\<close>

definition static_api_key_token :: "string \<Rightarrow> string inference_result" where
  "static_api_key_token key = Inr key"

definition build_snapshot :: "(client_settings \<Rightarrow> string + 'c) \<Rightarrow> string inference_result \<Rightarrow> session_config \<Rightarrow>
    'c session_snapshot inference_result" where
  "build_snapshot build tok cfg = (case build_client build (sc_timeouts cfg) (sc_user_agent cfg) of
     Inl e \<Rightarrow> Inl (Internal (''build http client: '' @ e))
   | Inr c \<Rightarrow> (case tok of Inl e \<Rightarrow> Inl e | Inr t \<Rightarrow> Inr \<lparr>client = c, credential = t\<rparr>))"

definition bootstrap :: "(client_settings \<Rightarrow> string + 'c) \<Rightarrow> string inference_result \<Rightarrow> session_config \<Rightarrow>
    'c remote_session inference_result" where
  "bootstrap build tok cfg = (case build_snapshot build tok cfg of
     Inl e \<Rightarrow> Inl e
   | Inr s \<Rightarrow> Inr \<lparr>rs_config = cfg, snapshot_cell = s\<rparr>)"

definition rebuild :: "(client_settings \<Rightarrow> string + 'c) \<Rightarrow> string inference_result \<Rightarrow> session_rebuild_cause \<Rightarrow>
    'c remote_session \<Rightarrow> unit inference_result \<times> 'c remote_session" where
  "rebuild build tok cause s = (case build_snapshot build tok (rs_config s) of
     Inl e \<Rightarrow> (Inl e, s)
   | Inr snap \<Rightarrow> (Inr (), s\<lparr>snapshot_cell := snap\<rparr>))"

definition session_handle :: "(client_settings \<Rightarrow> string + 'c) \<Rightarrow> string inference_result \<Rightarrow> session_rebuild_cause \<Rightarrow>
    'c remote_session \<Rightarrow> unit inference_result \<times> 'c remote_session" where
  "session_handle build tok msg s = rebuild build tok msg s"

fun session_run :: "(client_settings \<Rightarrow> string + 'c) \<Rightarrow> (string inference_result \<times> session_rebuild_cause) list \<Rightarrow>
    'c remote_session \<Rightarrow> unit inference_result list \<times> 'c remote_session" where
  "session_run build [] s = ([], s)"
| "session_run build ((tok, c) # ms) s =
     (let (r, s1) = session_handle build tok c s; (rs, s2) = session_run build ms s1 in (r # rs, s2))"

lemma session_run_snoc:
  "session_run build (ms @ [(tok, c)]) s =
     (let (rs, s1) = session_run build ms s; (r, s2) = session_handle build tok c s1 in (rs @ [r], s2))"
  by (induction ms arbitrary: s) (auto split: prod.splits)

lemma session_handle_config [simp]: "rs_config (snd (session_handle build tok c s)) = rs_config s"
  by (simp add: session_handle_def rebuild_def split: sum.splits)

lemma session_run_config [simp]: "rs_config (snd (session_run build ms s)) = rs_config s"
proof (induction ms arbitrary: s)
  case (Cons m ms)
  then show ?case by (cases m) (simp add: split_beta Let_def)
qed simp

definition good_tokens :: "(string inference_result \<times> session_rebuild_cause) list \<Rightarrow> string list" where
  "good_tokens ms = List.map_filter (\<lambda>(tok, c). case tok of Inr t \<Rightarrow> Some t | Inl _ \<Rightarrow> None) ms"

lemma good_tokens_snoc:
  "good_tokens (ms @ [(tok, c)]) = good_tokens ms @ (case tok of Inr t \<Rightarrow> [t] | Inl _ \<Rightarrow> [])"
  by (simp add: good_tokens_def map_filter_def split: sum.splits)

section \<open>Properties\<close>

text \<open>Credential rotation is never torn.  Once a session has started, after any sequence of
  rebuild requests the published snapshot is usable and carries the credential of the last rebuild
  whose token could be fetched (or the first one): a failed rebuild is reported to its caller and
  leaves the snapshot that the workers read untouched.\<close>

theorem session_keeps_last_good_credential:
  assumes "bootstrap build (Inr t0) cfg = Inr s0"
  shows "credential (snapshot_cell (snd (session_run build ms s0))) = last (t0 # good_tokens ms) \<and>
    fst (session_run build ms s0) = map (\<lambda>(tok, c). case tok of Inr t \<Rightarrow> Inr () | Inl e \<Rightarrow> Inl e) ms"
proof -
  obtain c where c: "build_client build (sc_timeouts cfg) (sc_user_agent cfg) = Inr c"
    and s0: "s0 = \<lparr>rs_config = cfg, snapshot_cell = \<lparr>client = c, credential = t0\<rparr>\<rparr>"
    using assms by (auto simp: bootstrap_def build_snapshot_def split: sum.splits)
  show ?thesis
  proof (induction ms rule: rev_induct)
    case Nil
    then show ?case by (simp add: s0 good_tokens_def map_filter_def)
  next
    case (snoc m ms)
    obtain tok cause where m: "m = (tok, cause)" by (cases m)
    have cfg: "rs_config (snd (session_run build ms s0)) = cfg" by (simp add: s0)
    show ?case using snoc cfg c
      by (cases tok) (simp_all add: m session_run_snoc good_tokens_snoc session_handle_def rebuild_def
          build_snapshot_def split_beta Let_def)
  qed
qed

theorem session_keeps_last_good_credential_witness:
  "case bootstrap (\<lambda>cs. Inr cs) (Inr ''k1'') \<lparr>sc_user_agent = ''ua'', sc_timeouts = default_timeouts\<rparr> of
     Inl _ \<Rightarrow> False
   | Inr s0 \<Rightarrow> credential (snapshot_cell (snd (session_run (\<lambda>cs. Inr cs)
        [(Inr ''k2'', Manual), (Inl (Unauthorized ''x''), RemoteAuthFailure)] s0))) = ''k2''"
proof -
  obtain s0 where s: "bootstrap (\<lambda>cs. Inr cs) (Inr ''k1'') \<lparr>sc_user_agent = ''ua'', sc_timeouts = default_timeouts\<rparr> = Inr s0"
    by (simp add: bootstrap_def build_snapshot_def build_client_def)
  show ?thesis
    using session_keeps_last_good_credential [OF s, of "[(Inr ''k2'', Manual), (Inl (Unauthorized ''x''), RemoteAuthFailure)]"]
    by (simp add: s good_tokens_def map_filter_def)
qed

end
