(* ===== verification/Local_Engines.thy ===== *)
theory Local_Engines
  imports Core_Types
begin

text \<open>
  The per-replica engines of \<^verbatim>\<open>inference-runtime\<close> that own a runner: \<^verbatim>\<open>engine_core.rs\<close>,
  \<^verbatim>\<open>speech_engine.rs\<close>, \<^verbatim>\<open>audio_engine.rs\<close> and \<^verbatim>\<open>realtime_engine.rs\<close>.  An engine is an actor plus
  the tasks it has spawned; they share the admission counter and the asynchronous mutex around the
  runner.  An event is either a message handled by the actor or one step of one task, so a list of
  events is an interleaving; a step that is not enabled changes nothing.  What the runner answers
  and whether a send is accepted is part of the event.
  The locale \<open>slot_gate\<close> derives the concurrency bound from what one event does to the counter;
  the speech, audio and realtime engines interpret it.  The text engine gives its slot back as soon
  as the task is spawned, and a property states what follows.
\<close>

section \<open>Tasks and engines\<close>

record local_engine_config =
  max_concurrent :: u32
  le_queue_capacity :: usize

definition default_local_engine_config :: local_engine_config where
  "default_local_engine_config = \<lparr>max_concurrent = 32, le_queue_capacity = 1024\<rparr>"

definition default_speech_engine_config :: local_engine_config where
  "default_speech_engine_config = \<lparr>max_concurrent = 16, le_queue_capacity = 256\<rparr>"

definition default_audio_engine_config :: local_engine_config where
  "default_audio_engine_config = \<lparr>max_concurrent = 16, le_queue_capacity = 256\<rparr>"

text \<open>
  A spawned task waits for the runner, pumps the items of its stream (or reports the error of the
  execution), gives its slot back and ends.
\<close>

datatype ('b, 'c) phase =
    Waiting 'b
  | Pumping "(inference_error + 'c) list"
  | Closing inference_error
  | Releasing
  | Ended

record ('b, 'c, 'o) task =
  t_output :: 'o
  t_phase :: "('b, 'c) phase"

record ('b, 'c, 'o) engine =
  e_config :: local_engine_config
  e_in_flight :: u32
  e_tasks :: "('b, 'c, 'o) task list"
  e_lock :: "nat option"

record ('b, 'o, 'a) add_local_request =
  lr_batch :: 'b
  lr_output :: 'o
  lr_admission :: 'a

datatype ('b, 'o, 'a) engine_core_msg = AddLocal "('b, 'o, 'a) add_local_request" | GetLoad 'a

datatype ('c, 'o, 'a) local_effect =
    Admitted 'a "unit inference_result"
  | Load 'a f64
  | Sent 'o "inference_error + 'c"
  | SpawnedSend 'o inference_error

text \<open>What the environment decides in a step of a task.\<close>

datatype 'c choice = Answer "inference_error + (inference_error + 'c) list" | SendOk | SendFails

definition new_engine :: "local_engine_config \<Rightarrow> ('b, 'c, 'o) engine" where
  "new_engine cfg = \<lparr>e_config = cfg, e_in_flight = 0, e_tasks = [], e_lock = None\<rparr>"

text \<open>\<^verbatim>\<open>try_admit\<close> is the same in the four engines up to the name in the message.\<close>

definition admit_slot :: "string \<Rightarrow> u32 \<Rightarrow> u32 \<Rightarrow> unit inference_result \<times> u32" where
  "admit_slot what cap g =
     (if cap \<le> g then (Inl (Backpressure (what @ '' at capacity'')), g) else (Inr (), g + 1))"

definition try_admit :: "string \<Rightarrow> ('b, 'c, 'o) engine \<Rightarrow> unit inference_result \<times> ('b, 'c, 'o) engine" where
  "try_admit what e =
     (case admit_slot what (max_concurrent (e_config e)) (e_in_flight e) of
        (r, g) \<Rightarrow> (r, e\<lparr>e_in_flight := g\<rparr>))"

definition release :: "('b, 'c, 'o) engine \<Rightarrow> ('b, 'c, 'o) engine" where
  "release e = e\<lparr>e_in_flight := saturating_sub (e_in_flight e) 1\<rparr>"

definition spawn_task :: "'o \<Rightarrow> 'b \<Rightarrow> ('b, 'c, 'o) engine \<Rightarrow> ('b, 'c, 'o) engine" where
  "spawn_task out b e = e\<lparr>e_tasks := e_tasks e @ [\<lparr>t_output = out, t_phase = Waiting b\<rparr>]\<rparr>"

definition load_of :: "('b, 'c, 'o) engine \<Rightarrow> f64" where
  "load_of e = f64_div (f64_of_nat (unat (e_in_flight e))) (f64_of_nat (unat (max_concurrent (e_config e))))"

definition set_phase :: "nat \<Rightarrow> ('b, 'c) phase \<Rightarrow> ('b, 'c, 'o) engine \<Rightarrow> ('b, 'c, 'o) engine" where
  "set_phase i p e = e\<lparr>e_tasks := (e_tasks e)[i := (e_tasks e ! i)\<lparr>t_phase := p\<rparr>]\<rparr>"

text \<open>
  One step of the task \<open>i\<close>.  The flag says whether the guard of the runner is dropped before the
  slot is given back (\<^verbatim>\<open>drop(g)\<close> in the speech and audio engines) or lives to the end of the task.
\<close>

definition pump_step :: "bool \<Rightarrow> 'c choice \<Rightarrow> nat \<Rightarrow> ('b, 'c, 'o) engine \<Rightarrow>
    ('b, 'c, 'o) engine \<times> ('c, 'o, 'a) local_effect list" where
  "pump_step drop_first ch i e =
     (if length (e_tasks e) \<le> i then (e, [])
      else let t = e_tasks e ! i;
               finish = (\<lambda>e. set_phase i Releasing (if drop_first then e\<lparr>e_lock := None\<rparr> else e)) in
      case t_phase t of
        Waiting b \<Rightarrow>
          (case ch of
             Answer r \<Rightarrow>
               if e_lock e = None
               then (set_phase i (case r of Inr items \<Rightarrow> Pumping items | Inl err \<Rightarrow> Closing err) (e\<lparr>e_lock := Some i\<rparr>), [])
               else (e, [])
           | _ \<Rightarrow> (e, []))
      | Pumping [] \<Rightarrow> (finish e, [])
      | Pumping (x # xs) \<Rightarrow>
          (case ch of
             SendOk \<Rightarrow> (set_phase i (Pumping xs) e, [Sent (t_output t) x])
           | SendFails \<Rightarrow> (finish e, [])
           | Answer _ \<Rightarrow> (e, []))
      | Closing err \<Rightarrow>
          (case ch of
             SendOk \<Rightarrow> (finish e, [Sent (t_output t) (Inl err)])
           | SendFails \<Rightarrow> (finish e, [])
           | Answer _ \<Rightarrow> (e, []))
      | Releasing \<Rightarrow>
          (set_phase i Ended (release (if drop_first then e else e\<lparr>e_lock := None\<rparr>)), [])
      | Ended \<Rightarrow> (e, []))"

section \<open>The text engine\<close>

fun core_handle :: "('b, 'o, 'a) engine_core_msg \<Rightarrow> ('b, 'c, 'o) engine \<Rightarrow>
    ('b, 'c, 'o) engine \<times> ('c, 'o, 'a) local_effect list" where
  "core_handle (AddLocal req) e =
     (case try_admit ''engine'' e of
        (Inl err, e1) \<Rightarrow> (e1, [Admitted (lr_admission req) (Inl err)])
      | (Inr _, e1) \<Rightarrow>
          (release (spawn_task (lr_output req) (lr_batch req) e1), [Admitted (lr_admission req) (Inr ())]))"
| "core_handle (GetLoad r) e = (e, [Load r (load_of e)])"

definition core_task_step :: "'c choice \<Rightarrow> nat \<Rightarrow> ('b, 'c, 'o) engine \<Rightarrow>
    ('b, 'c, 'o) engine \<times> ('c, 'o, 'a) local_effect list" where
  "core_task_step ch i e = pump_step False ch i e"

section \<open>The speech engine\<close>

fun speech_handle :: "('b, 'o, 'a) engine_core_msg \<Rightarrow> ('b, 'c, 'o) engine \<Rightarrow>
    ('b, 'c, 'o) engine \<times> ('c, 'o, 'a) local_effect list" where
  "speech_handle (AddLocal req) e =
     (case try_admit ''speech engine'' e of
        (Inl err, e1) \<Rightarrow> (e1, [Admitted (lr_admission req) (Inl err)])
      | (Inr _, e1) \<Rightarrow>
          (spawn_task (lr_output req) (lr_batch req) e1, [Admitted (lr_admission req) (Inr ())]))"
| "speech_handle (GetLoad r) e = (e, [Load r (load_of e)])"

definition speech_task_step :: "'c choice \<Rightarrow> nat \<Rightarrow> ('b, 'c, 'o) engine \<Rightarrow>
    ('b, 'c, 'o) engine \<times> ('c, 'o, 'a) local_effect list" where
  "speech_task_step ch i e = pump_step True ch i e"

section \<open>The audio engine\<close>

datatype runner_cell = Stt | A2F

record ('b, 'c, 'o) audio_engine =
  cell :: runner_cell
  core :: "('b, 'c, 'o) engine"

datatype ('b, 'o, 'a) audio_engine_msg =
    AddTranscribe "('b, 'o, 'a) add_local_request"
  | AddAudio2Face "('b, 'o, 'a) add_local_request"
  | AudioGetLoad 'a

definition new_stt :: "local_engine_config \<Rightarrow> ('b, 'c, 'o) audio_engine" where
  "new_stt cfg = \<lparr>cell = Stt, core = new_engine cfg\<rparr>"

definition new_audio2face :: "local_engine_config \<Rightarrow> ('b, 'c, 'o) audio_engine" where
  "new_audio2face cfg = \<lparr>cell = A2F, core = new_engine cfg\<rparr>"

text \<open>The mismatch is reported on the output channel by a task of its own; admission is answered \<^verbatim>\<open>Ok\<close>.\<close>

definition reject_modality_mismatch :: "string \<Rightarrow> runtime_kind \<Rightarrow> 'o \<Rightarrow> 'a \<Rightarrow> ('c, 'o, 'a) local_effect list" where
  "reject_modality_mismatch meth rt out adm =
     [Admitted adm (Inr ()), SpawnedSend out (Unsupported meth rt)]"

definition audio_admit :: "('b, 'o, 'a) add_local_request \<Rightarrow> ('b, 'c, 'o) audio_engine \<Rightarrow>
    ('b, 'c, 'o) audio_engine \<times> ('c, 'o, 'a) local_effect list" where
  "audio_admit req e =
     (case try_admit ''audio engine'' (core e) of
        (Inl err, e1) \<Rightarrow> (e\<lparr>core := e1\<rparr>, [Admitted (lr_admission req) (Inl err)])
      | (Inr _, e1) \<Rightarrow>
          (e\<lparr>core := spawn_task (lr_output req) (lr_batch req) e1\<rparr>, [Admitted (lr_admission req) (Inr ())]))"

fun audio_handle :: "('b, 'o, 'a) audio_engine_msg \<Rightarrow> ('b, 'c, 'o) audio_engine \<Rightarrow>
    ('b, 'c, 'o) audio_engine \<times> ('c, 'o, 'a) local_effect list" where
  "audio_handle (AddTranscribe req) e =
     (case cell e of
        A2F \<Rightarrow> (e, reject_modality_mismatch ''execute_audio'' runtime_kind.Audio2Face (lr_output req) (lr_admission req))
      | Stt \<Rightarrow> audio_admit req e)"
| "audio_handle (AddAudio2Face req) e =
     (case cell e of
        Stt \<Rightarrow> (e, reject_modality_mismatch ''execute_audio2face'' runtime_kind.SpeechToText (lr_output req) (lr_admission req))
      | A2F \<Rightarrow> audio_admit req e)"
| "audio_handle (AudioGetLoad r) e = (e, [Load r (load_of (core e))])"

definition audio_task_step :: "'c choice \<Rightarrow> nat \<Rightarrow> ('b, 'c, 'o) audio_engine \<Rightarrow>
    ('b, 'c, 'o) audio_engine \<times> ('c, 'o, 'a) local_effect list" where
  "audio_task_step ch i e = (let (e1, fx) = pump_step True ch i (core e) in (e\<lparr>core := e1\<rparr>, fx))"

section \<open>The realtime engine\<close>

record realtime_engine_config =
  rt_max_concurrent :: u32
  rt_queue_capacity :: usize
  outbound_relay_capacity :: usize

definition default_realtime_engine_config :: realtime_engine_config where
  "default_realtime_engine_config = \<lparr>rt_max_concurrent = 8, rt_queue_capacity = 64, outbound_relay_capacity = 64\<rparr>"

text \<open>
  A session task waits for the runner, opens the session while holding it, then relays the
  adapter's messages to the caller until either side closes.
\<close>

datatype 'b rt_phase = RtWaiting 'b | RtOpening 'b | RtRelaying | RtReleasing | RtEnded

record ('b, 'o, 'a) rt_task =
  rt_outbound :: 'o
  rt_admission :: 'a
  rt_phase :: "'b rt_phase"

record ('b, 'o, 'a) realtime_engine =
  rt_config :: realtime_engine_config
  rt_in_flight :: u32
  rt_tasks :: "('b, 'o, 'a) rt_task list"
  rt_lock :: "nat option"

record ('b, 'o, 'a) open_session_request =
  os_batch :: 'b
  os_outbound :: 'o
  os_admission :: 'a

datatype ('b, 'o, 'a) realtime_engine_msg = OpenSession "('b, 'o, 'a) open_session_request" | RtGetLoad 'a

datatype ('s, 'm, 'o, 'a) rt_effect =
    RtAdmission 'a "inference_error + 's"
  | RtLoad 'a f64
  | Relayed 'o 'm

datatype ('s, 'm) rt_choice = LockGranted | Opened "inference_error + 's" | RelayMsg 'm | CallerGone 'm | RelayClosed

definition new_realtime_engine :: "realtime_engine_config \<Rightarrow> ('b, 'o, 'a) realtime_engine" where
  "new_realtime_engine cfg = \<lparr>rt_config = cfg, rt_in_flight = 0, rt_tasks = [], rt_lock = None\<rparr>"

fun realtime_handle :: "('b, 'o, 'a) realtime_engine_msg \<Rightarrow> ('b, 'o, 'a) realtime_engine \<Rightarrow>
    ('b, 'o, 'a) realtime_engine \<times> ('s, 'm, 'o, 'a) rt_effect list" where
  "realtime_handle (OpenSession req) e =
     (case admit_slot ''realtime engine'' (rt_max_concurrent (rt_config e)) (rt_in_flight e) of
        (Inl err, g) \<Rightarrow> (e\<lparr>rt_in_flight := g\<rparr>, [RtAdmission (os_admission req) (Inl err)])
      | (Inr _, g) \<Rightarrow>
          (e\<lparr>rt_in_flight := g, rt_tasks := rt_tasks e @
             [\<lparr>rt_outbound = os_outbound req, rt_admission = os_admission req, rt_phase = RtWaiting (os_batch req)\<rparr>]\<rparr>, []))"
| "realtime_handle (RtGetLoad r) e = (e, [RtLoad r
     (f64_div (f64_of_nat (unat (rt_in_flight e))) (f64_of_nat (unat (rt_max_concurrent (rt_config e)))))])"

definition rt_set :: "nat \<Rightarrow> 'b rt_phase \<Rightarrow> ('b, 'o, 'a) realtime_engine \<Rightarrow> ('b, 'o, 'a) realtime_engine" where
  "rt_set i p e = e\<lparr>rt_tasks := (rt_tasks e)[i := (rt_tasks e ! i)\<lparr>rt_phase := p\<rparr>]\<rparr>"

definition realtime_task_step :: "('s, 'm) rt_choice \<Rightarrow> nat \<Rightarrow> ('b, 'o, 'a) realtime_engine \<Rightarrow>
    ('b, 'o, 'a) realtime_engine \<times> ('s, 'm, 'o, 'a) rt_effect list" where
  "realtime_task_step ch i e =
     (if length (rt_tasks e) \<le> i then (e, [])
      else let t = rt_tasks e ! i in
      case rt_phase t of
        RtWaiting b \<Rightarrow>
          (case ch of
             LockGranted \<Rightarrow> if rt_lock e = None then (rt_set i (RtOpening b) (e\<lparr>rt_lock := Some i\<rparr>), []) else (e, [])
           | _ \<Rightarrow> (e, []))
      | RtOpening b \<Rightarrow>
          (case ch of
             Opened r \<Rightarrow>
               (rt_set i (case r of Inr _ \<Rightarrow> RtRelaying | Inl _ \<Rightarrow> RtReleasing) (e\<lparr>rt_lock := None\<rparr>),
                [RtAdmission (rt_admission t) r])
           | _ \<Rightarrow> (e, []))
      | RtRelaying \<Rightarrow>
          (case ch of
             RelayMsg m \<Rightarrow> (e, [Relayed (rt_outbound t) m])
           | CallerGone m \<Rightarrow> (rt_set i RtReleasing e, [])
           | RelayClosed \<Rightarrow> (rt_set i RtReleasing e, [])
           | _ \<Rightarrow> (e, []))
      | RtReleasing \<Rightarrow> (rt_set i RtEnded (e\<lparr>rt_in_flight := saturating_sub (rt_in_flight e) 1\<rparr>), [])
      | RtEnded \<Rightarrow> (e, []))"

section \<open>Interleavings\<close>

datatype ('msg, 'ch) event = Handle 'msg | TaskStep nat 'ch

fun run_events :: "('ev \<Rightarrow> 's \<Rightarrow> 's \<times> 'fx list) \<Rightarrow> 's \<Rightarrow> 'ev list \<Rightarrow> 's \<times> 'fx list" where
  "run_events step s [] = (s, [])"
| "run_events step s (ev # evs) =
     (let (s1, f1) = step ev s; (s2, f2) = run_events step s1 evs in (s2, f1 @ f2))"

fun core_step :: "(('b, 'o, 'a) engine_core_msg, 'c choice) event \<Rightarrow> ('b, 'c, 'o) engine \<Rightarrow>
    ('b, 'c, 'o) engine \<times> ('c, 'o, 'a) local_effect list" where
  "core_step (Handle m) e = core_handle m e"
| "core_step (TaskStep i ch) e = core_task_step ch i e"

fun speech_step :: "(('b, 'o, 'a) engine_core_msg, 'c choice) event \<Rightarrow> ('b, 'c, 'o) engine \<Rightarrow>
    ('b, 'c, 'o) engine \<times> ('c, 'o, 'a) local_effect list" where
  "speech_step (Handle m) e = speech_handle m e"
| "speech_step (TaskStep i ch) e = speech_task_step ch i e"

fun audio_step :: "(('b, 'o, 'a) audio_engine_msg, 'c choice) event \<Rightarrow> ('b, 'c, 'o) audio_engine \<Rightarrow>
    ('b, 'c, 'o) audio_engine \<times> ('c, 'o, 'a) local_effect list" where
  "audio_step (Handle m) e = audio_handle m e"
| "audio_step (TaskStep i ch) e = audio_task_step ch i e"

fun realtime_step :: "(('b, 'o, 'a) realtime_engine_msg, ('s, 'm) rt_choice) event \<Rightarrow> ('b, 'o, 'a) realtime_engine \<Rightarrow>
    ('b, 'o, 'a) realtime_engine \<times> ('s, 'm, 'o, 'a) rt_effect list" where
  "realtime_step (Handle m) e = realtime_handle m e"
| "realtime_step (TaskStep i ch) e = realtime_task_step ch i e"

section \<open>The slot discipline\<close>

text \<open>
  What one event does to a counted resource with limit \<open>c\<close>: if the counter was the number of live
  tasks it still is, and a task is only added below the limit.
\<close>

definition slot_change :: "nat \<Rightarrow> nat \<Rightarrow> nat \<Rightarrow> nat \<Rightarrow> nat \<Rightarrow> bool" where
  "slot_change c u l u' l' \<longleftrightarrow> (u = l \<longrightarrow> u' = l') \<and> (l' \<le> l \<or> u < c \<and> l' = Suc l)"

locale slot_gate =
  fixes step :: "'ev \<Rightarrow> 's \<Rightarrow> 's \<times> 'fx list"
    and used :: "'s \<Rightarrow> nat"
    and live :: "'s \<Rightarrow> nat"
    and cap :: "'s \<Rightarrow> nat"
  assumes disciplined: "step ev s = (s', fx) \<Longrightarrow>
      slot_change (cap s) (used s) (live s) (used s') (live s') \<and> cap s' = cap s"
begin

text \<open>Then the limit holds in every interleaving.\<close>

lemma slots_bounded:
  assumes "used s = live s" "live s \<le> cap s" "run_events step s evs = (s', fx)"
  shows "used s' = live s' \<and> live s' \<le> cap s \<and> cap s' = cap s"
  using assms
proof (induction evs arbitrary: s fx)
  case Nil
  then show ?case by simp
next
  case (Cons ev evs)
  obtain s1 f1 where st: "step ev s = (s1, f1)" by (cases "step ev s")
  obtain s2 f2 where rn: "run_events step s1 evs = (s2, f2)" by (cases "run_events step s1 evs")
  have "used s1 = live s1 \<and> live s1 \<le> cap s1 \<and> cap s1 = cap s"
    using disciplined [OF st] Cons.prems(1,2) by (auto simp: slot_change_def)
  then show ?case using Cons.IH [of s1 f2] Cons.prems(3) st rn by auto
qed

end

definition live_tasks :: "('b, 'c, 'o) engine \<Rightarrow> nat" where
  "live_tasks e = length (filter (\<lambda>t. t_phase t \<noteq> Ended) (e_tasks e))"

definition live_sessions :: "('b, 'o, 'a) realtime_engine \<Rightarrow> nat" where
  "live_sessions e = length (filter (\<lambda>t. rt_phase t \<noteq> RtEnded) (rt_tasks e))"

lemma set_phase_simps [simp]:
  "e_in_flight (set_phase i p e) = e_in_flight e" "e_config (set_phase i p e) = e_config e"
  "e_lock (set_phase i p e) = e_lock e" "length (e_tasks (set_phase i p e)) = length (e_tasks e)"
  by (simp_all add: set_phase_def)

lemma live_update [simp]:
  "live_tasks (e\<lparr>e_lock := l\<rparr>) = live_tasks e" "live_tasks (e\<lparr>e_in_flight := g\<rparr>) = live_tasks e"
  "live_tasks (release e) = live_tasks e"
  by (simp_all add: live_tasks_def release_def)

lemma release_simps [simp]: "e_config (release e) = e_config e" "e_tasks (release e) = e_tasks e" "e_lock (release e) = e_lock e"
  by (simp_all add: release_def)

lemma live_set_phase:
  assumes "i < length (e_tasks e)" "t_phase (e_tasks e ! i) \<noteq> Ended"
  shows "live_tasks (set_phase i p e) = (if p = Ended then live_tasks e - 1 else live_tasks e)"
    "0 < live_tasks e"
proof -
  show "0 < live_tasks e"
    using assms length_filter_pos [of i "e_tasks e" "\<lambda>t. t_phase t \<noteq> Ended"] by (simp add: live_tasks_def)
  show "live_tasks (set_phase i p e) = (if p = Ended then live_tasks e - 1 else live_tasks e)"
    using assms length_filter_update [of i "e_tasks e" "\<lambda>t. t_phase t \<noteq> Ended" "(e_tasks e ! i)\<lparr>t_phase := p\<rparr>"]
      length_filter_update_same [of i "e_tasks e" "\<lambda>t. t_phase t \<noteq> Ended" "(e_tasks e ! i)\<lparr>t_phase := p\<rparr>"]
    by (auto simp: live_tasks_def set_phase_def)
qed

lemma live_spawn [simp]: "live_tasks (spawn_task out b e) = Suc (live_tasks e)"
  by (simp add: live_tasks_def spawn_task_def)

lemma admit_slot_facts:
  assumes "admit_slot what c g = (r, g')"
  shows "r = Inl err \<Longrightarrow> g' = g" "r = Inr u \<Longrightarrow> g < c \<and> unat g' = Suc (unat g)"
proof -
  show "r = Inl err \<Longrightarrow> g' = g" using assms by (auto simp: admit_slot_def split: if_splits)
  assume "r = Inr u"
  then have g: "g < c" "g' = g + 1" using assms by (auto simp: admit_slot_def split: if_splits)
  then have "Suc (unat g) < 2 ^ LENGTH(32)" using unat_u32_bound [of c] by (simp add: word_less_nat_alt)
  then show "g < c \<and> unat g' = Suc (unat g)" using g by (simp add: unat_suc_no_overflow)
qed

text \<open>A refused or granted admission, and a step of a task, follow the discipline.\<close>

lemma slot_change_refl [simp]: "slot_change c u l u l"
  by (simp add: slot_change_def)

lemma try_admit_slots:
  assumes "try_admit what e = (r, e1)"
  shows "r = Inl err \<Longrightarrow> e1 = e" "e_config e1 = e_config e"
    "r = Inr u \<Longrightarrow> slot_change (unat (max_concurrent (e_config e))) (unat (e_in_flight e)) (live_tasks e)
        (unat (e_in_flight (spawn_task out b e1))) (live_tasks (spawn_task out b e1))"
proof -
  obtain g where a: "admit_slot what (max_concurrent (e_config e)) (e_in_flight e) = (r, g)" "e1 = e\<lparr>e_in_flight := g\<rparr>"
    using assms by (auto simp: try_admit_def split: prod.splits)
  note f = admit_slot_facts [OF a(1)]
  show "r = Inl err \<Longrightarrow> e1 = e" "e_config e1 = e_config e" using a f(1) by auto
  assume "r = Inr u"
  then show "slot_change (unat (max_concurrent (e_config e))) (unat (e_in_flight e)) (live_tasks e)
        (unat (e_in_flight (spawn_task out b e1))) (live_tasks (spawn_task out b e1))"
    using f(2) a(2) by (simp add: slot_change_def word_less_nat_alt) (simp add: spawn_task_def)
qed

lemma pump_step_slots:
  assumes "pump_step d ch i e = (e', fx)"
  shows "slot_change c (unat (e_in_flight e)) (live_tasks e) (unat (e_in_flight e')) (live_tasks e') \<and>
    e_config e' = e_config e"
proof (cases "i < length (e_tasks e) \<and> t_phase (e_tasks e ! i) \<noteq> Ended")
  case False
  then show ?thesis using assms by (auto simp: pump_step_def Let_def split: if_splits)
next
  case True
  then have i: "i < length (e_tasks e)" "t_phase (e_tasks e ! i) \<noteq> Ended" by auto
  have keep: "slot_change c (unat (e_in_flight e)) (live_tasks e) (unat (e_in_flight (set_phase i p (e\<lparr>e_lock := k\<rparr>))))
      (live_tasks (set_phase i p (e\<lparr>e_lock := k\<rparr>)))" if "p \<noteq> Ended" for p k
    using that i live_set_phase(1) [of i "e\<lparr>e_lock := k\<rparr>" p] by simp
  have keep': "slot_change c (unat (e_in_flight e)) (live_tasks e) (unat (e_in_flight (set_phase i p e)))
      (live_tasks (set_phase i p e))" if "p \<noteq> Ended" for p
    using that i live_set_phase(1) [of i e p] by simp
  have give: "slot_change c (unat (e_in_flight e)) (live_tasks e) (unat (e_in_flight (set_phase i Ended (release x))))
      (live_tasks (set_phase i Ended (release x)))" if "x = e \<or> x = e\<lparr>e_lock := None\<rparr>" for x
  proof -
    have "live_tasks (set_phase i Ended (release x)) = live_tasks e - 1"
      using that i live_set_phase(1) [of i "release x" Ended] by (auto simp: release_def)
    then show ?thesis using that by (auto simp: slot_change_def release_def unat_saturating_sub)
  qed
  show ?thesis
  proof (cases "t_phase (e_tasks e ! i)")
    case (Pumping items)
    then show ?thesis using assms i keep keep'
      by (cases items) (auto simp: pump_step_def Let_def split: choice.splits if_splits)
  qed (use assms i keep keep' give in \<open>auto simp: pump_step_def Let_def split: choice.splits if_splits sum.splits\<close>)
qed

interpretation speech: slot_gate speech_step "\<lambda>e. unat (e_in_flight e)" live_tasks
  "\<lambda>e. unat (max_concurrent (e_config e))"
proof (unfold_locales, goal_cases)
  case (1 ev s s' fx)
  show ?case
  proof (cases ev)
    case (Handle m)
    show ?thesis
    proof (cases m)
      case (AddLocal req)
      obtain r e1 where a: "try_admit ''speech engine'' s = (r, e1)" by (cases "try_admit ''speech engine'' s")
      show ?thesis using 1 Handle AddLocal a try_admit_slots [OF a] by (cases r) (auto simp: spawn_task_def)
    qed (use 1 Handle in auto)
  next
    case (TaskStep i ch)
    then show ?thesis using 1 pump_step_slots by (force simp: speech_task_step_def)
  qed
qed

interpretation audio: slot_gate audio_step "\<lambda>e. unat (e_in_flight (core e))" "\<lambda>e. live_tasks (core e)"
  "\<lambda>e. unat (max_concurrent (e_config (core e)))"
proof (unfold_locales, goal_cases)
  case (1 ev s s' fx)
  have admit: ?case if "audio_admit req s = (s', fx)" for req
  proof -
    obtain r e1 where a: "try_admit ''audio engine'' (core s) = (r, e1)" by (cases "try_admit ''audio engine'' (core s)")
    show ?thesis using that a try_admit_slots [OF a]
      by (cases r) (auto simp: audio_admit_def spawn_task_def)
  qed
  show ?case
  proof (cases ev)
    case (Handle m)
    then show ?thesis using 1 admit by (cases m) (auto split: runner_cell.splits)
  next
    case (TaskStep i ch)
    obtain e1 where p: "pump_step True ch i (core s) = (e1, fx)" and s': "s' = s\<lparr>core := e1\<rparr>"
      using 1 TaskStep by (auto simp: audio_task_step_def Let_def split: prod.splits)
    from pump_step_slots [OF p] s' show ?thesis by simp
  qed
qed

lemma live_rt_set:
  assumes "i < length (rt_tasks e)" "rt_phase (rt_tasks e ! i) \<noteq> RtEnded" "rt_tasks x = rt_tasks e"
  shows "live_sessions (rt_set i p x) = (if p = RtEnded then live_sessions e - 1 else live_sessions e)"
  using assms length_filter_update [of i "rt_tasks e" "\<lambda>t. rt_phase t \<noteq> RtEnded" "(rt_tasks e ! i)\<lparr>rt_phase := p\<rparr>"]
    length_filter_update_same [of i "rt_tasks e" "\<lambda>t. rt_phase t \<noteq> RtEnded" "(rt_tasks e ! i)\<lparr>rt_phase := p\<rparr>"]
  by (auto simp: live_sessions_def rt_set_def)

lemma rt_set_simps [simp]:
  "rt_in_flight (rt_set i p e) = rt_in_flight e" "rt_config (rt_set i p e) = rt_config e" "rt_lock (rt_set i p e) = rt_lock e"
  by (simp_all add: rt_set_def)

lemma realtime_task_slots:
  assumes "realtime_task_step ch i e = (e', fx)"
  shows "slot_change c (unat (rt_in_flight e)) (live_sessions e) (unat (rt_in_flight e')) (live_sessions e') \<and>
    rt_config e' = rt_config e"
proof (cases "i < length (rt_tasks e) \<and> rt_phase (rt_tasks e ! i) \<noteq> RtEnded")
  case False
  then show ?thesis using assms by (auto simp: realtime_task_step_def Let_def split: if_splits)
next
  case True
  have keep: "live_sessions (rt_set i p (e\<lparr>rt_lock := k\<rparr>)) = live_sessions e" if "p \<noteq> RtEnded" for p k
    using True that live_rt_set [of i e "e\<lparr>rt_lock := k\<rparr>" p] by simp
  have keep': "live_sessions (rt_set i p e) = live_sessions e" if "p \<noteq> RtEnded" for p
    using True that live_rt_set [of i e e p] by simp
  have give: "live_sessions (rt_set i RtEnded (e\<lparr>rt_in_flight := g\<rparr>)) = live_sessions e - 1" for g
    using True live_rt_set [of i e "e\<lparr>rt_in_flight := g\<rparr>" RtEnded] by simp
  show ?thesis using assms True keep keep' give
    by (cases "rt_phase (rt_tasks e ! i)")
      (auto simp: realtime_task_step_def Let_def slot_change_def unat_saturating_sub
        split: rt_choice.splits if_splits sum.splits)
qed

interpretation realtime: slot_gate realtime_step "\<lambda>e. unat (rt_in_flight e)" live_sessions
  "\<lambda>e. unat (rt_max_concurrent (rt_config e))"
proof (unfold_locales, goal_cases)
  case (1 ev s s' fx)
  show ?case
  proof (cases ev)
    case (Handle m)
    show ?thesis
    proof (cases m)
      case (OpenSession req)
      obtain r g where a: "admit_slot ''realtime engine'' (rt_max_concurrent (rt_config s)) (rt_in_flight s) = (r, g)"
        by (cases "admit_slot ''realtime engine'' (rt_max_concurrent (rt_config s)) (rt_in_flight s)")
      show ?thesis using 1 Handle OpenSession a admit_slot_facts [OF a]
        by (cases r) (auto simp: live_sessions_def slot_change_def word_less_nat_alt)
    qed (use 1 Handle in auto)
  next
    case (TaskStep i ch)
    then show ?thesis using 1 realtime_task_slots by force
  qed
qed

section \<open>Exclusive use of the runner\<close>

definition using_runner :: "('b, 'c) phase \<Rightarrow> bool" where
  "using_runner p \<longleftrightarrow> (\<exists>items. p = Pumping items) \<or> (\<exists>e. p = Closing e)"

text \<open>A task uses the runner exactly when it holds the mutex.\<close>

definition lock_ok :: "('b, 'c, 'o) engine \<Rightarrow> bool" where
  "lock_ok e \<longleftrightarrow> (\<forall>i < length (e_tasks e). using_runner (t_phase (e_tasks e ! i)) \<longleftrightarrow> e_lock e = Some i) \<and>
     (\<forall>i. e_lock e = Some i \<longrightarrow> i < length (e_tasks e))"

lemma lock_ok_set_phase:
  assumes "lock_ok e" "i < length (e_tasks e)" "e_tasks x = e_tasks e"
    and "using_runner p \<longleftrightarrow> e_lock x = Some i" "e_lock x = e_lock e \<or> (e_lock e = Some i \<and> e_lock x = None) \<or> (e_lock e = None \<and> e_lock x = Some i)"
  shows "lock_ok (set_phase i p x)"
  using assms by (auto simp: lock_ok_def set_phase_def nth_list_update)

lemma pump_step_lock:
  assumes "lock_ok e" "pump_step True ch i e = (e', fx)"
  shows "lock_ok e'"
proof (cases "i < length (e_tasks e)")
  case False
  then show ?thesis using assms by (simp add: pump_step_def)
next
  case i: True
  have h: "using_runner (t_phase (e_tasks e ! i)) \<longleftrightarrow> e_lock e = Some i" using assms(1) i by (simp add: lock_ok_def)
  show ?thesis
  proof (cases "t_phase (e_tasks e ! i)")
    case (Waiting b)
    then show ?thesis using assms i
      by (auto simp: pump_step_def Let_def using_runner_def intro!: lock_ok_set_phase split: choice.splits if_splits sum.splits)
  next
    case (Pumping items)
    then have "e_lock e = Some i" using h by (simp add: using_runner_def)
    then show ?thesis using assms i Pumping
      by (cases items) (auto simp: pump_step_def Let_def using_runner_def intro!: lock_ok_set_phase split: choice.splits if_splits)
  next
    case (Closing err)
    then have "e_lock e = Some i" using h by (simp add: using_runner_def)
    then show ?thesis using assms i Closing
      by (auto simp: pump_step_def Let_def using_runner_def intro!: lock_ok_set_phase split: choice.splits if_splits)
  next
    case Releasing
    then show ?thesis using assms i h
      by (auto simp: pump_step_def Let_def using_runner_def release_def intro!: lock_ok_set_phase)
  next
    case Ended
    then show ?thesis using assms i by (simp add: pump_step_def Let_def)
  qed
qed

lemma lock_ok_spawn: "lock_ok e \<Longrightarrow> lock_ok (spawn_task out b (e\<lparr>e_in_flight := g\<rparr>))"
  by (auto simp: lock_ok_def spawn_task_def nth_append using_runner_def)

lemma speech_step_lock: "lock_ok e \<Longrightarrow> speech_step ev e = (e', fx) \<Longrightarrow> lock_ok e'"
proof (cases ev)
  case (Handle m)
  assume "lock_ok e" "speech_step ev e = (e', fx)"
  then show ?thesis using Handle
    by (cases m) (auto simp: try_admit_def admit_slot_def lock_ok_spawn split: if_splits)
next
  case (TaskStep i ch)
  assume "lock_ok e" "speech_step ev e = (e', fx)"
  then show ?thesis using TaskStep pump_step_lock by (auto simp: speech_task_step_def)
qed

lemma speech_run_lock: "lock_ok e \<Longrightarrow> run_events speech_step e evs = (e', fx) \<Longrightarrow> lock_ok e'"
proof (induction evs arbitrary: e fx)
  case (Cons ev evs)
  then show ?case by (auto split: prod.splits dest: speech_step_lock)
qed simp

section \<open>Draining\<close>

fun phase_work :: "('b, 'c) phase \<Rightarrow> nat" where
  "phase_work (Waiting b) = 3"
| "phase_work (Pumping items) = 2 + length items"
| "phase_work (Closing e) = 2"
| "phase_work Releasing = 1"
| "phase_work Ended = 0"

definition work_left :: "('b, 'c, 'o) engine \<Rightarrow> nat" where
  "work_left e = sum_list (map (\<lambda>t. phase_work (t_phase t)) (e_tasks e))"

lemma work_left_set_phase:
  assumes "i < length (e_tasks e)" "phase_work p < phase_work (t_phase (e_tasks e ! i))" "e_tasks x = e_tasks e"
  shows "work_left (set_phase i p x) < work_left e"
proof -
  have "sum_list ((map (\<lambda>t. phase_work (t_phase t)) (e_tasks e))[i := phase_work p]) <
      sum_list (map (\<lambda>t. phase_work (t_phase t)) (e_tasks e))"
    using assms(1,2) elem_le_sum_list [of i "map (\<lambda>t. phase_work (t_phase t)) (e_tasks e)"]
    by (simp add: sum_list_update)
  then show ?thesis using assms(3) by (simp add: work_left_def set_phase_def map_update)
qed

lemma speech_progress:
  fixes e :: "('b, 'c, 'o) engine"
  assumes "lock_ok e" "0 < live_tasks e"
  shows "\<exists>i ch. work_left (fst (speech_step (TaskStep i ch :: (('b, 'o, 'a) engine_core_msg, 'c choice) event) e)) < work_left e"
proof (cases "e_lock e")
  case (Some i)
  then have i: "i < length (e_tasks e)" "using_runner (t_phase (e_tasks e ! i))"
    using assms(1) by (auto simp: lock_ok_def)
  have "work_left (fst (speech_step (TaskStep i SendFails :: (('b, 'o, 'a) engine_core_msg, 'c choice) event) e)) < work_left e"
    using i by (auto simp: speech_task_step_def pump_step_def Let_def using_runner_def intro!: work_left_set_phase
        split: list.splits)
  then show ?thesis by blast
next
  case None
  obtain i where i: "i < length (e_tasks e)" "t_phase (e_tasks e ! i) \<noteq> Ended"
    using assms(2) by (auto simp: live_tasks_def filter_empty_conv in_set_conv_nth)
  have "\<not> using_runner (t_phase (e_tasks e ! i))" using assms(1) i None by (simp add: lock_ok_def)
  then consider b where "t_phase (e_tasks e ! i) = Waiting b" | "t_phase (e_tasks e ! i) = Releasing"
    using i(2) by (cases "t_phase (e_tasks e ! i)") (auto simp: using_runner_def)
  then have "work_left (fst (speech_step (TaskStep i (Answer (Inr [])) :: (('b, 'o, 'a) engine_core_msg, 'c choice) event) e)) < work_left e"
    by cases (use i None in \<open>auto simp: speech_task_step_def pump_step_def Let_def intro!: work_left_set_phase\<close>)
  then show ?thesis by blast
qed

lemma run_events_append:
  "run_events step s (xs @ ys) =
     (let (s1, f1) = run_events step s xs; (s2, f2) = run_events step s1 ys in (s2, f1 @ f2))"
  by (induction xs arbitrary: s) (auto simp: split_beta Let_def)

lemma speech_drains:
  fixes e :: "('b, 'c, 'o) engine"
  assumes "lock_ok e"
  shows "\<exists>steps. live_tasks (fst (run_events speech_step e
      (map (\<lambda>(i, ch). TaskStep i ch :: (('b, 'o, 'a) engine_core_msg, 'c choice) event) steps))) = 0"
  using assms
proof (induction "work_left e" arbitrary: e rule: less_induct)
  case less
  let ?T = "\<lambda>(i, ch). TaskStep i ch :: (('b, 'o, 'a) engine_core_msg, 'c choice) event"
  show ?case
  proof (cases "live_tasks e = 0")
    case True
    then show ?thesis by (intro exI [of _ "[]"]) simp
  next
    case False
    then obtain i ch where w: "work_left (fst (speech_step (?T (i, ch)) e)) < work_left e"
      using speech_progress [OF less.prems] by auto
    have "lock_ok (fst (speech_step (?T (i, ch)) e))" using speech_step_lock [OF less.prems surjective_pairing] .
    with less.hyps [OF w] obtain steps where
      "live_tasks (fst (run_events speech_step (fst (speech_step (?T (i, ch)) e)) (map ?T steps))) = 0" by blast
    then show ?thesis by (intro exI [of _ "(i, ch) # steps"]) (simp add: split_beta Let_def)
  qed
qed

section \<open>The load\<close>

lemma f64_ratio_unit:
  assumes "n \<le> m" "0 < m" "m \<le> 2 ^ 52"
  shows "\<exists>r. f64_div (f64_of_nat n) (f64_of_nat m) = Fin r \<and> 0 \<le> r \<and> r \<le> 1"
proof -
  have q: "(of_nat n :: rat) / of_nat m \<le> 1" "0 \<le> (of_nat n :: rat) / of_nat m" using assms by simp_all
  have nat: "f64_of_nat n = Fin (of_nat n)" "f64_of_nat m = Fin (of_nat m)"
    using assms by (simp_all add: f64_of_nat_exact)
  have b: "0 \<le> round64 (of_nat n / of_nat m)" "round64 (of_nat n / of_nat m) \<le> 1"
    using r64.rnd_nonneg [OF q(2)] r64.rnd_le_nat [of 1 "of_nat n / of_nat m"] q(1) by simp_all
  then have "f64_of_rat (of_nat n / of_nat m) = Fin (round64 (of_nat n / of_nat m))"
    by (simp add: f64_of_rat_def Let_def)
  then show ?thesis using b nat assms(2) by simp
qed

section \<open>Properties\<close>

text \<open>C14: the speech engine respects its concurrency limit.  In every interleaving of messages and
  task steps, at most \<^verbatim>\<open>max_concurrent\<close> requests are live, the counter is exactly their number, and
  at most one task uses the runner.\<close>

theorem speech_engine_limit:
  "let e = fst (run_events speech_step (new_engine cfg) evs) in
   live_tasks e \<le> unat (max_concurrent cfg) \<and> unat (e_in_flight e) = live_tasks e \<and>
   card {i. i < length (e_tasks e) \<and> using_runner (t_phase (e_tasks e ! i))} \<le> 1"
proof -
  obtain e fx where r: "run_events speech_step (new_engine cfg) evs = (e, fx)"
    by (cases "run_events speech_step (new_engine cfg) evs")
  have "lock_ok e" by (rule speech_run_lock [OF _ r]) (simp add: lock_ok_def new_engine_def)
  then have "{i. i < length (e_tasks e) \<and> using_runner (t_phase (e_tasks e ! i))} \<subseteq> (case e_lock e of None \<Rightarrow> {} | Some k \<Rightarrow> {k})"
    by (auto simp: lock_ok_def)
  then have "card {i. i < length (e_tasks e) \<and> using_runner (t_phase (e_tasks e ! i))} \<le> card (case e_lock e of None \<Rightarrow> {} | Some k \<Rightarrow> {k})"
    by (intro card_mono) (auto split: option.splits)
  also have "\<dots> \<le> 1" by (simp split: option.splits)
  finally show ?thesis
    using speech.slots_bounded [of "new_engine cfg", OF _ _ r] r by (simp add: new_engine_def live_tasks_def)
qed

text \<open>The audio engine respects its concurrency limit in every interleaving, and a request of the
  wrong modality never takes a slot.\<close>

theorem audio_engine_limit:
  "let e = fst (run_events audio_step \<lparr>cell = k, core = new_engine cfg\<rparr> evs) in
   live_tasks (core e) \<le> unat (max_concurrent cfg) \<and> unat (e_in_flight (core e)) = live_tasks (core e)"
proof -
  obtain e fx where r: "run_events audio_step \<lparr>cell = k, core = new_engine cfg\<rparr> evs = (e, fx)"
    by (cases "run_events audio_step \<lparr>cell = k, core = new_engine cfg\<rparr> evs")
  show ?thesis
    using audio.slots_bounded [of "\<lparr>cell = k, core = new_engine cfg\<rparr>", OF _ _ r] r
    by (simp add: new_engine_def live_tasks_def)
qed

text \<open>The realtime engine never has more than \<^verbatim>\<open>max_concurrent\<close> live sessions, in every
  interleaving of opening, relaying and closing, and its counter is exact.\<close>

theorem realtime_engine_limit:
  "let e = fst (run_events realtime_step (new_realtime_engine cfg) evs) in
   live_sessions e \<le> unat (rt_max_concurrent cfg) \<and> unat (rt_in_flight e) = live_sessions e"
proof -
  obtain e fx where r: "run_events realtime_step (new_realtime_engine cfg) evs = (e, fx)"
    by (cases "run_events realtime_step (new_realtime_engine cfg) evs")
  show ?thesis
    using realtime.slots_bounded [of "new_realtime_engine cfg", OF _ _ r] r
    by (simp add: new_realtime_engine_def live_sessions_def)
qed

text \<open>C27: the speech engine can always drain.  From every reachable state some sequence of task steps
  alone ends every task and returns the counter to zero: no interleaving deadlocks on the runner's
  mutex or leaks a slot.\<close>

theorem speech_engine_can_drain:
  fixes evs :: "(('b, 'o, 'a) engine_core_msg, 'c choice) event list"
  shows "\<exists>steps. let e = fst (run_events speech_step (new_engine cfg) (evs @ map (\<lambda>(i, ch). TaskStep i ch) steps)) in
     live_tasks e = 0 \<and> e_in_flight e = 0"
proof -
  let ?T = "\<lambda>steps. map (\<lambda>(i, ch). TaskStep i ch :: (('b, 'o, 'a) engine_core_msg, 'c choice) event) steps"
  obtain e fx where r: "run_events speech_step (new_engine cfg) evs = (e, fx)"
    by (cases "run_events speech_step (new_engine cfg) evs")
  have l: "lock_ok e" by (rule speech_run_lock [OF _ r]) (simp add: lock_ok_def new_engine_def)
  obtain steps where st: "live_tasks (fst (run_events speech_step e (?T steps))) = 0"
    using speech_drains [OF l] by blast
  have f: "fst (run_events speech_step (new_engine cfg) (evs @ ?T steps)) = fst (run_events speech_step e (?T steps))"
    using r by (simp add: run_events_append split_beta Let_def)
  have "unat (e_in_flight (fst (run_events speech_step (new_engine cfg) (evs @ ?T steps)))) = 0"
    using speech.slots_bounded [of "new_engine cfg" "evs @ ?T steps", OF _ _ surjective_pairing] st f
    by (simp add: new_engine_def live_tasks_def)
  then show ?thesis using st f by (intro exI [of _ steps]) (simp add: Let_def unat_eq_0)
qed

text \<open>The load report.  With a positive limit, the load that a speech engine reports in any reachable
  state is a number between 0 and 1, after rounding.\<close>

theorem speech_load_unit_interval:
  assumes "0 < max_concurrent cfg"
  shows "\<exists>r. load_of (fst (run_events speech_step (new_engine cfg) evs)) = Fin r \<and> 0 \<le> r \<and> r \<le> 1"
proof -
  obtain e fx where r: "run_events speech_step (new_engine cfg) evs = (e, fx)"
    by (cases "run_events speech_step (new_engine cfg) evs")
  have "unat (e_in_flight e) \<le> unat (max_concurrent (e_config e)) \<and>
      unat (max_concurrent (e_config e)) = unat (max_concurrent cfg)"
    using speech.slots_bounded [of "new_engine cfg", OF _ _ r] by (simp add: new_engine_def live_tasks_def)
  then show ?thesis
    using f64_ratio_unit [of "unat (e_in_flight e)" "unat (max_concurrent cfg)"] assms unat_u32_bound [of "max_concurrent cfg"] r
    by (simp add: load_of_def word_less_nat_alt)
qed

definition unit_request :: "(unit, unit, unit) add_local_request" where
  "unit_request = \<lparr>lr_batch = (), lr_output = (), lr_admission = ()\<rparr>"

theorem speech_load_unit_interval_witness:
  "\<exists>r. load_of (fst (run_events speech_step (new_engine default_speech_engine_config :: (unit, unit, unit) engine)
      [Handle (AddLocal unit_request)])) = Fin r \<and> 0 \<le> r \<and> r \<le> 1"
  using speech_load_unit_interval [of default_speech_engine_config "[Handle (AddLocal unit_request)]"]
  by (simp add: default_speech_engine_config_def)

lemma core_add:
  assumes "e_in_flight e = 0" "0 < max_concurrent (e_config e)"
  shows "\<exists>e'. core_step (Handle (AddLocal req)) e = (e', [Admitted (lr_admission req) (Inr ())]) \<and>
    e_in_flight e' = 0 \<and> live_tasks e' = Suc (live_tasks e) \<and> e_config e' = e_config e"
proof -
  have a: "admit_slot ''engine'' (max_concurrent (e_config e)) (e_in_flight e) = (Inr (), 1)"
    using assms by (simp add: admit_slot_def)
  have "saturating_sub 1 (1 :: u32) = 0" by (simp add: saturating_sub_def)
  with a show ?thesis by (simp add: try_admit_def) (simp add: release_def spawn_task_def)
qed

lemma core_add_all:
  assumes "e_in_flight e = 0" "0 < max_concurrent (e_config e)"
  shows "\<exists>e'. run_events core_step e (map (\<lambda>r. Handle (AddLocal r)) reqs) =
      (e', map (\<lambda>r. Admitted (lr_admission r) (Inr ())) reqs) \<and> e_in_flight e' = 0 \<and> live_tasks e' = live_tasks e + length reqs"
  using assms
proof (induction reqs arbitrary: e)
  case (Cons r reqs)
  obtain e1 where s1: "core_step (Handle (AddLocal r)) e = (e1, [Admitted (lr_admission r) (Inr ())])"
    "e_in_flight e1 = 0" "live_tasks e1 = Suc (live_tasks e)" "e_config e1 = e_config e"
    using core_add [OF Cons.prems, of r] by blast
  from Cons.IH [of e1] s1 Cons.prems show ?case by auto
qed simp

text \<open>The text engine does not enforce its limit.  However small the positive \<^verbatim>\<open>max_concurrent\<close>, any
  number of requests sent to a fresh engine before a task has run are all admitted, and all are live at
  the same time: the actor gives the slot back right after spawning the task, so the counter is zero
  again before the next message.\<close>

theorem core_engine_overcommits:
  fixes reqs :: "('b, 'o, 'a) add_local_request list"
  assumes "0 < max_concurrent cfg"
  shows "let (e, fx) = run_events core_step (new_engine cfg :: ('b, 'c, 'o) engine) (map (\<lambda>r. Handle (AddLocal r)) reqs) in
    live_tasks e = length reqs \<and> e_in_flight e = 0 \<and> fx = map (\<lambda>r. Admitted (lr_admission r) (Inr ())) reqs"
proof -
  let ?e = "new_engine cfg :: ('b, 'c, 'o) engine"
  have "e_in_flight ?e = 0" "0 < max_concurrent (e_config ?e)" "live_tasks ?e = 0"
    using assms by (simp_all add: new_engine_def live_tasks_def)
  then show ?thesis using core_add_all [of ?e reqs] by auto
qed

theorem core_engine_overcommits_witness:
  "let (e, fx) = run_events core_step (new_engine \<lparr>max_concurrent = 1, le_queue_capacity = 1\<rparr> :: (unit, unit, unit) engine)
      (map (\<lambda>r. Handle (AddLocal r)) [unit_request, unit_request, unit_request]) in
   live_tasks e = length [unit_request, unit_request, unit_request] \<and> e_in_flight e = 0 \<and>
   fx = map (\<lambda>r. Admitted (lr_admission r) (Inr ())) [unit_request, unit_request, unit_request]"
  by (rule core_engine_overcommits) simp

end
