(* ===== verification/Local_Worker.thy ===== *)
theory Local_Worker
  imports Classify Session Local_Engines
begin

text \<open>
  The two-tier worker of \<^verbatim>\<open>inference-runtime/src/worker.rs\<close>: the stable parent \<^verbatim>\<open>WorkerActor\<close>
  with its replaceable child, and the \<^verbatim>\<open>ContextActor\<close> that owns the runner behind an asynchronous
  mutex.  A child is known by the name it was spawned under; whether the actor system accepts a spawn
  is part of the event.  The parent is written against an abstract description of what an observer of
  its children may see, the locale \<open>child_protocol\<close>, and interprets it; the context is a state machine over the
  tasks it has spawned, in every interleaving.
  The panic of a task (tagged for the supervisor) is an effect of that task.
\<close>

section \<open>The parent\<close>

datatype ('b, 'o, 'r) local_worker_msg =
    Execute 'b 'o
  | ContextPoisoned string
  | RebuildSession session_rebuild_cause 'r

datatype ('b, 'o, 'r) context_msg =
    CtxExecute 'b 'o
  | CtxRebuild session_rebuild_cause 'r

record local_worker =
  child :: "string option"
  parent_to_child_seq :: u64

datatype ('b, 'o, 'r) parent_effect =
    SpawnedCtx string
  | SpawnFailed string
  | StoppedCtx string
  | TellCtx string "('b, 'o, 'r) context_msg"
  | ReplyErr 'r inference_error

definition new_local_worker :: local_worker where
  "new_local_worker = \<lparr>child = None, parent_to_child_seq = 0\<rparr>"

definition ctx_name :: "u64 \<Rightarrow> string" where
  "ctx_name n = ''ctx-'' @ show_word n"

definition spawn_child :: "bool \<Rightarrow> local_worker \<Rightarrow> local_worker \<times> ('b, 'o, 'r) parent_effect list" where
  "spawn_child accepted w =
     (let n = parent_to_child_seq w + 1; w1 = w\<lparr>parent_to_child_seq := n\<rparr>; name = ctx_name n in
      if accepted then (w1\<lparr>child := Some name\<rparr>, [SpawnedCtx name]) else (w1, [SpawnFailed name]))"

definition worker_pre_start :: "bool \<Rightarrow> local_worker \<Rightarrow> local_worker \<times> ('b, 'o, 'r) parent_effect list" where
  "worker_pre_start accepted w = spawn_child accepted w"

fun local_worker_handle :: "bool \<times> ('b, 'o, 'r) local_worker_msg \<Rightarrow> local_worker \<Rightarrow>
    local_worker \<times> ('b, 'o, 'r) parent_effect list" where
  "local_worker_handle (accepted, Execute b out) w = (case child w of
     None \<Rightarrow> (w, [])
   | Some c \<Rightarrow> (w, [TellCtx c (CtxExecute b out)]))"
| "local_worker_handle (accepted, ContextPoisoned reason) w =
     (let stop = (case child w of Some c \<Rightarrow> [StoppedCtx c] | None \<Rightarrow> []);
          (w1, fx) = spawn_child accepted (w\<lparr>child := None\<rparr>) in (w1, stop @ fx))"
| "local_worker_handle (accepted, RebuildSession cause r) w = (case child w of
     None \<Rightarrow> (w, [ReplyErr r (Internal ''no child'')])
   | Some c \<Rightarrow> (w, [TellCtx c (CtxRebuild cause r)]))"

text \<open>The life of a worker: \<^verbatim>\<open>pre_start\<close>, then its messages.\<close>

definition worker_life :: "bool \<Rightarrow> (bool \<times> ('b, 'o, 'r) local_worker_msg) list \<Rightarrow>
    local_worker \<times> ('b, 'o, 'r) parent_effect list" where
  "worker_life accepted ms =
     (let (w, fx) = worker_pre_start accepted new_local_worker; (w', fx') = run_events local_worker_handle w ms
      in (w', fx @ fx'))"

datatype directive = Restart | Resume | Stop | Escalate

definition decider :: "string \<Rightarrow> directive" where
  "decider err =
     (if contains err ''ContextPoisoned'' then Restart
      else if contains err ''OutOfMemory'' then Resume
      else if contains err ''Unrecoverable'' then Stop
      else Escalate)"

section \<open>The context\<close>

text \<open>
  A task of the context waits for the runner's mutex, calls the runner while it holds the guard, and
  drains the stream after the guard is dropped; an error is reported before the guard goes out of scope.
\<close>

datatype ('b, 'c, 'o, 'r) ctx_phase =
    ExecWaiting 'b 'o
  | Executing 'b 'o
  | Draining "(inference_error + 'c) list" 'o
  | Reporting inference_error 'o
  | RebuildWaiting session_rebuild_cause 'r
  | Rebuilding session_rebuild_cause 'r
  | TaskEnded

record ('b, 'c, 'o, 'r) ctx_actor =
  cx_tasks :: "('b, 'c, 'o, 'r) ctx_phase list"
  cx_lock :: "nat option"

datatype 'c ctx_choice =
    Lock
  | ExecAnswer "inference_error + (inference_error + 'c) list"
  | RebuildAnswer "unit inference_result"
  | CxSendOk
  | CxSendFails

datatype ('c, 'o, 'r) ctx_effect =
    CxSent 'o "inference_error + 'c"
  | CxReplied 'r "unit inference_result"
  | TaskPanic string

definition new_ctx_actor :: "('b, 'c, 'o, 'r) ctx_actor" where
  "new_ctx_actor = \<lparr>cx_tasks = [], cx_lock = None\<rparr>"

fun ctx_handle :: "('b, 'o, 'r) context_msg \<Rightarrow> ('b, 'c, 'o, 'r) ctx_actor \<Rightarrow> ('b, 'c, 'o, 'r) ctx_actor" where
  "ctx_handle (CtxExecute b out) c = c\<lparr>cx_tasks := cx_tasks c @ [ExecWaiting b out]\<rparr>"
| "ctx_handle (CtxRebuild cause r) c = c\<lparr>cx_tasks := cx_tasks c @ [RebuildWaiting cause r]\<rparr>"

text \<open>Sticky errors end the task with a tagged panic after they were sent.\<close>

fun poison_panic :: "inference_error \<Rightarrow> ('c, 'o, 'r) ctx_effect list" where
  "poison_panic (CudaContextPoisoned reason) = [TaskPanic (''ContextPoisoned: CUDA context poisoned: '' @ reason)]"
| "poison_panic _ = []"

definition cx_goto :: "nat \<Rightarrow> ('b, 'c, 'o, 'r) ctx_phase \<Rightarrow> nat option \<Rightarrow> ('b, 'c, 'o, 'r) ctx_actor \<Rightarrow>
    ('b, 'c, 'o, 'r) ctx_actor" where
  "cx_goto i p l c = c\<lparr>cx_tasks := (cx_tasks c)[i := p], cx_lock := l\<rparr>"

definition ctx_task_step :: "'c ctx_choice \<Rightarrow> nat \<Rightarrow> ('b, 'c, 'o, 'r) ctx_actor \<Rightarrow>
    ('b, 'c, 'o, 'r) ctx_actor \<times> ('c, 'o, 'r) ctx_effect list" where
  "ctx_task_step ch i c =
     (if length (cx_tasks c) \<le> i then (c, [])
      else case cx_tasks c ! i of
        ExecWaiting b out \<Rightarrow>
          (if ch = Lock \<and> cx_lock c = None then (cx_goto i (Executing b out) (Some i) c, []) else (c, []))
      | Executing b out \<Rightarrow>
          (case ch of
             ExecAnswer (Inr items) \<Rightarrow> (cx_goto i (Draining items out) None c, [])
           | ExecAnswer (Inl e) \<Rightarrow> (cx_goto i (Reporting e out) (cx_lock c) c, [])
           | _ \<Rightarrow> (c, []))
      | Draining [] out \<Rightarrow> (cx_goto i TaskEnded (cx_lock c) c, [])
      | Draining (x # xs) out \<Rightarrow>
          (case ch of
             CxSendOk \<Rightarrow> (cx_goto i (Draining xs out) (cx_lock c) c, [CxSent out x])
           | CxSendFails \<Rightarrow> (cx_goto i TaskEnded (cx_lock c) c, [])
           | _ \<Rightarrow> (c, []))
      | Reporting e out \<Rightarrow>
          (case ch of
             CxSendOk \<Rightarrow> (cx_goto i TaskEnded None c, CxSent out (Inl e) # poison_panic e)
           | CxSendFails \<Rightarrow> (cx_goto i TaskEnded None c, poison_panic e)
           | _ \<Rightarrow> (c, []))
      | RebuildWaiting cause r \<Rightarrow>
          (if ch = Lock \<and> cx_lock c = None then (cx_goto i (Rebuilding cause r) (Some i) c, []) else (c, []))
      | Rebuilding cause r \<Rightarrow>
          (case ch of
             RebuildAnswer x \<Rightarrow> (cx_goto i TaskEnded None c, [CxReplied r x])
           | _ \<Rightarrow> (c, []))
      | TaskEnded \<Rightarrow> (c, []))"

fun ctx_step :: "(('b, 'o, 'r) context_msg, 'c ctx_choice) event \<Rightarrow> ('b, 'c, 'o, 'r) ctx_actor \<Rightarrow>
    ('b, 'c, 'o, 'r) ctx_actor \<times> ('c, 'o, 'r) ctx_effect list" where
  "ctx_step (Handle m) c = (ctx_handle m c, [])"
| "ctx_step (TaskStep i ch) c = ctx_task_step ch i c"

section \<open>What the children see\<close>

text \<open>
  The observer of the children: a context is only started when none is alive, only the living one is
  stopped, and only the living one receives messages.
\<close>

fun observe_children :: "string option \<Rightarrow> ('b, 'o, 'r) parent_effect list \<Rightarrow> string option option" where
  "observe_children l [] = Some l"
| "observe_children l (SpawnedCtx n # fx) = (if l = None then observe_children (Some n) fx else None)"
| "observe_children l (SpawnFailed n # fx) = observe_children l fx"
| "observe_children l (StoppedCtx n # fx) = (if l = Some n then observe_children None fx else None)"
| "observe_children l (TellCtx n m # fx) = (if l = Some n then observe_children l fx else None)"
| "observe_children l (ReplyErr r e # fx) = observe_children l fx"

lemma observe_children_append:
  "observe_children l (fx @ gx) = (case observe_children l fx of None \<Rightarrow> None | Some l' \<Rightarrow> observe_children l' gx)"
  by (induction l fx rule: observe_children.induct) auto

locale child_protocol =
  fixes step :: "'ev \<Rightarrow> 's \<Rightarrow> 's \<times> ('b, 'o, 'r) parent_effect list"
    and live :: "'s \<Rightarrow> string option"
  assumes obeys: "step ev s = (s', fx) \<Longrightarrow> observe_children (live s) fx = Some (live s')"
begin

lemma run_obeys: "run_events step s evs = (s', fx) \<Longrightarrow> observe_children (live s) fx = Some (live s')"
proof (induction evs arbitrary: s fx)
  case (Cons ev evs)
  obtain s1 f1 where st: "step ev s = (s1, f1)" by (cases "step ev s")
  then obtain f2 where rn: "run_events step s1 evs = (s', f2)" and fx: "fx = f1 @ f2"
    using Cons.prems by (auto split: prod.splits)
  show ?case using Cons.IH [OF rn] obeys [OF st] by (simp add: fx observe_children_append)
qed simp

end

lemma spawn_child_obeys:
  "spawn_child a w = (w', fx) \<Longrightarrow> child w = None \<Longrightarrow> observe_children None fx = Some (child w')"
  by (auto simp: spawn_child_def Let_def split: if_splits)

lemma handle_obeys:
  "local_worker_handle ev w = (w', fx) \<Longrightarrow> observe_children (child w) fx = Some (child w')"
  by (cases ev; cases "snd ev") (auto dest: spawn_child_obeys split: option.splits prod.splits)

interpretation parent: child_protocol local_worker_handle child
  by unfold_locales (rule handle_obeys)

text \<open>The names under which children are spawned.\<close>

fun spawn_names :: "('b, 'o, 'r) parent_effect list \<Rightarrow> string list" where
  "spawn_names [] = []"
| "spawn_names (SpawnedCtx n # fx) = n # spawn_names fx"
| "spawn_names (SpawnFailed n # fx) = n # spawn_names fx"
| "spawn_names (_ # fx) = spawn_names fx"

lemma spawn_names_append [simp]: "spawn_names (fx @ gx) = spawn_names fx @ spawn_names gx"
  by (induction fx rule: spawn_names.induct) auto

lemma ctx_name_inj: "ctx_name a = ctx_name b \<Longrightarrow> a = b"
proof -
  assume "ctx_name a = ctx_name b"
  then have "show_nat (unat a) = show_nat (unat b)" by (simp add: ctx_name_def show_word_def)
  then have "Some (unat a) = Some (unat b)"
    using parse_digits_show_nat [OF unat_u64_bound [of a]] parse_digits_show_nat [OF unat_u64_bound [of b]] by metis
  then show "a = b" by (simp add: word_unat_eq_iff)
qed

text \<open>The numbers handed out: each spawn takes the next one.\<close>

lemma spawn_child_names:
  "spawn_child a w = (w', fx) \<Longrightarrow>
   parent_to_child_seq w' = parent_to_child_seq w + 1 \<and> spawn_names fx = [ctx_name (parent_to_child_seq w + 1)]"
  by (auto simp: spawn_child_def Let_def split: if_splits)

lemma handle_names:
  assumes "local_worker_handle ev w = (w', fx)"
  shows "(parent_to_child_seq w' = parent_to_child_seq w \<and> spawn_names fx = []) \<or>
    (parent_to_child_seq w' = parent_to_child_seq w + 1 \<and> spawn_names fx = [ctx_name (parent_to_child_seq w + 1)])"
  using assms
  by (cases ev; cases "snd ev") (auto dest: spawn_child_names split: option.splits prod.splits)

lemma run_names:
  assumes "run_events local_worker_handle w ms = (w', fx)"
  shows "\<exists>k \<le> length ms. spawn_names fx = map (\<lambda>i. ctx_name (parent_to_child_seq w + word_of_nat (Suc i))) [0 ..< k] \<and>
    parent_to_child_seq w' = parent_to_child_seq w + word_of_nat k"
  using assms
proof (induction ms arbitrary: w fx)
  case Nil
  then show ?case by simp
next
  case (Cons m ms)
  obtain w1 f1 where st: "local_worker_handle m w = (w1, f1)" by (cases "local_worker_handle m w")
  then obtain f2 where rn: "run_events local_worker_handle w1 ms = (w', f2)" and eq: "fx = f1 @ f2"
    using Cons.prems by (auto split: prod.splits)
  obtain k where k: "k \<le> length ms"
    "spawn_names f2 = map (\<lambda>i. ctx_name (parent_to_child_seq w1 + word_of_nat (Suc i))) [0 ..< k]"
    "parent_to_child_seq w' = parent_to_child_seq w1 + word_of_nat k"
    using Cons.IH [OF rn] by blast
  from handle_names [OF st] show ?case
  proof (elim disjE conjE)
    assume "parent_to_child_seq w1 = parent_to_child_seq w" "spawn_names f1 = []"
    then show ?thesis using k eq by (intro exI [of _ k]) simp
  next
    assume one: "parent_to_child_seq w1 = parent_to_child_seq w + 1"
      "spawn_names f1 = [ctx_name (parent_to_child_seq w + 1)]"
    have "map (\<lambda>i. ctx_name (parent_to_child_seq w + word_of_nat (Suc i))) [0 ..< Suc k] =
        ctx_name (parent_to_child_seq w + 1) #
        map (\<lambda>i. ctx_name (parent_to_child_seq w + 1 + word_of_nat (Suc i))) [0 ..< k]"
      by (simp add: upt_conv_Cons map_Suc_upt [symmetric] algebra_simps del: upt_Suc)
    then show ?thesis using k eq one by (intro exI [of _ "Suc k"]) (simp add: algebra_simps del: upt_Suc)
  qed
qed

section \<open>The runner's mutex\<close>

fun uses_runner :: "('b, 'c, 'o, 'r) ctx_phase \<Rightarrow> bool" where
  "uses_runner (Executing _ _) = True"
| "uses_runner (Reporting _ _) = True"
| "uses_runner (Rebuilding _ _) = True"
| "uses_runner _ = False"

definition lock_owner_ok :: "('b, 'c, 'o, 'r) ctx_actor \<Rightarrow> bool" where
  "lock_owner_ok c \<longleftrightarrow>
     (\<forall>j < length (cx_tasks c). uses_runner (cx_tasks c ! j) \<longleftrightarrow> cx_lock c = Some j) \<and>
     (\<forall>j. cx_lock c = Some j \<longrightarrow> j < length (cx_tasks c))"

lemma lock_owner_take:
  assumes "lock_owner_ok c" "i < length (cx_tasks c)" "cx_lock c = None" "uses_runner p"
  shows "lock_owner_ok (cx_goto i p (Some i) c)"
  using assms by (auto simp: lock_owner_ok_def cx_goto_def nth_list_update)

lemma lock_owner_keep:
  assumes "lock_owner_ok c" "i < length (cx_tasks c)" "uses_runner p \<longleftrightarrow> uses_runner (cx_tasks c ! i)"
  shows "lock_owner_ok (cx_goto i p (cx_lock c) c)"
  using assms by (auto simp: lock_owner_ok_def cx_goto_def nth_list_update)

lemma lock_owner_drop:
  assumes "lock_owner_ok c" "i < length (cx_tasks c)" "uses_runner (cx_tasks c ! i)" "\<not> uses_runner p"
  shows "lock_owner_ok (cx_goto i p None c)"
  using assms by (auto simp: lock_owner_ok_def cx_goto_def nth_list_update)

lemmas lock_owner_moves = lock_owner_take lock_owner_keep lock_owner_drop

lemma ctx_task_step_lock:
  assumes "lock_owner_ok c" shows "lock_owner_ok (fst (ctx_task_step ch i c))"
proof (cases "i < length (cx_tasks c)")
  case True
  note moves = lock_owner_take [OF assms True] lock_owner_keep [OF assms True] lock_owner_drop [OF assms True]
  show ?thesis
  proof (cases "cx_tasks c ! i")
    case (Draining xs out)
    then show ?thesis using True assms moves by (cases xs) (simp_all add: ctx_task_step_def split: ctx_choice.split)
  qed (use True assms moves in \<open>simp_all add: ctx_task_step_def split: ctx_choice.split sum.split\<close>)
qed (simp add: ctx_task_step_def assms)

lemma ctx_handle_lock: "lock_owner_ok c \<Longrightarrow> lock_owner_ok (ctx_handle m c)"
  by (cases m) (auto simp: lock_owner_ok_def nth_append less_Suc_eq)

lemma ctx_step_lock: "lock_owner_ok c \<Longrightarrow> lock_owner_ok (fst (ctx_step ev c))"
  by (cases ev) (simp_all add: ctx_handle_lock ctx_task_step_lock)

lemma ctx_run_lock: "lock_owner_ok c \<Longrightarrow> lock_owner_ok (fst (run_events ctx_step c evs))"
proof (induction evs arbitrary: c)
  case (Cons ev evs)
  then show ?case using ctx_step_lock [OF Cons.prems, of ev] by (simp add: case_prod_unfold Let_def)
qed simp

text \<open>A sticky error is sent to the caller and releases the runner; the panic of the task then carries a
  message for which the parent's decider answers \<^verbatim>\<open>Restart\<close>.\<close>

lemma sticky_error_reported:
  assumes "i < length (cx_tasks c)" "cx_tasks c ! i = Reporting (CudaContextPoisoned reason) out"
  shows "\<exists>m. ctx_task_step CxSendOk i c =
      (cx_goto i TaskEnded None c, [CxSent out (Inl (CudaContextPoisoned reason)), TaskPanic m]) \<and> decider m = Restart"
proof -
  have "contains (''ContextPoisoned: CUDA context poisoned: '' @ reason) ''ContextPoisoned''"
    unfolding contains_iff by (intro exI [of _ "[]"] exI [of _ "'': CUDA context poisoned: '' @ reason"]) simp
  then show ?thesis using assms by (simp add: ctx_task_step_def decider_def)
qed

section \<open>Properties\<close>



text \<open>C29: the runner is used by one task at a time.  In every interleaving of the messages and tasks of a
  context, the mutex is held exactly by the task that executes, reports an error or rebuilds; two tasks are
  never inside the runner together, and a task that only drains its stream does not block the others.\<close>

theorem context_runner_exclusive:
  "let c = fst (run_events ctx_step new_ctx_actor evs) in
   (\<forall>i j. i < length (cx_tasks c) \<and> j < length (cx_tasks c) \<and> uses_runner (cx_tasks c ! i) \<and> uses_runner (cx_tasks c ! j)
      \<longrightarrow> i = j) \<and>
   (cx_lock c = None \<longleftrightarrow> (\<forall>i. i < length (cx_tasks c) \<longrightarrow> \<not> uses_runner (cx_tasks c ! i)))"
proof -
  have "lock_owner_ok (fst (run_events ctx_step new_ctx_actor evs))"
    by (rule ctx_run_lock) (simp add: lock_owner_ok_def new_ctx_actor_def)
  then show ?thesis unfolding Let_def lock_owner_ok_def by (metis not_Some_eq option.inject)
qed

theorem context_runner_exclusive_witness:
  "let c = fst (run_events ctx_step new_ctx_actor [Handle (CtxExecute ''a'' ''o1''), Handle (CtxRebuild Manual ''r''),
      TaskStep 0 Lock, TaskStep 1 Lock, TaskStep 0 (ExecAnswer (Inr [Inr ''x''])), TaskStep 1 Lock])
   in cx_tasks c = [Draining [Inr ''x''] ''o1'', Rebuilding Manual ''r''] \<and> cx_lock c = Some 1"
  using context_runner_exclusive [of "[Handle (CtxExecute ''a'' ''o1''), Handle (CtxRebuild Manual ''r''),
      TaskStep 0 Lock, TaskStep 1 Lock, TaskStep 0 (ExecAnswer (Inr [Inr ''x''])), TaskStep 1 Lock]"]
  by (simp add: new_ctx_actor_def ctx_task_step_def cx_goto_def)

end
