(* ===== verification/Routing.thy ===== *)
theory Routing
  imports Core_Types "HOL-Library.AList"
begin

text \<open>
  \<^verbatim>\<open>inference-runtime/src/dp_coordinator.rs\<close> and \<^verbatim>\<open>placement.rs\<close>: which engine serves a request and
  which node hosts a replica.  Engine references are opaque values; their actor path is the argument
  \<open>path\<close>.  A \<^verbatim>\<open>HashMap\<close> is an association list with distinct keys.
\<close>

section \<open>The coordinator\<close>

record 'e route_target =
  engine_ref :: 'e
  load :: f64

type_synonym 'e routes = "(string \<times> 'e route_target list) list"

datatype ('e, 'p) dp_coordinator_msg =
    Register string "'e route_target"
  | Deregister string 'p
  | ReportLoad string 'p f64
  | RouteTo string

definition route_register :: "string \<Rightarrow> 'e route_target \<Rightarrow> 'e routes \<Rightarrow> 'e routes" where
  "route_register d t rs =
     AList.update d ((case map_of rs d of None \<Rightarrow> [] | Some v \<Rightarrow> v) @ [t]) rs"

definition route_deregister :: "('e \<Rightarrow> 'p) \<Rightarrow> string \<Rightarrow> 'p \<Rightarrow> 'e routes \<Rightarrow> 'e routes" where
  "route_deregister path d p rs = (case map_of rs d of
     None \<Rightarrow> rs
   | Some v \<Rightarrow> AList.update d (filter (\<lambda>t. path (engine_ref t) \<noteq> p) v) rs)"

definition route_report_load :: "('e \<Rightarrow> 'p) \<Rightarrow> string \<Rightarrow> 'p \<Rightarrow> f64 \<Rightarrow> 'e routes \<Rightarrow> 'e routes" where
  "route_report_load path d p l rs = (case map_of rs d of
     None \<Rightarrow> rs
   | Some v \<Rightarrow> AList.update d (map (\<lambda>t. if path (engine_ref t) = p then t\<lparr>load := l\<rparr> else t) v) rs)"

text \<open>
  \<^verbatim>\<open>Iterator::min_by\<close> keeps the first of two elements unless the comparison says \<^verbatim>\<open>Greater\<close>, which
  \<^verbatim>\<open>partial_cmp(..).unwrap_or(Equal)\<close> says only of two ordered numbers.
\<close>

fun min_by_load :: "'e route_target \<Rightarrow> 'e route_target list \<Rightarrow> 'e route_target" where
  "min_by_load m [] = m"
| "min_by_load m (t # ts) = min_by_load (if fp_lt (load t) (load m) then t else m) ts"

definition pick :: "string \<Rightarrow> 'e routes \<Rightarrow> 'e route_target inference_result" where
  "pick d rs = (case map_of rs d of
     Some (t # ts) \<Rightarrow> Inr (min_by_load t ts)
   | _ \<Rightarrow> Inl (Internal (''no engine for deployment `'' @ d @ ''`'')))"

fun coordinator_handle :: "('e \<Rightarrow> 'p) \<Rightarrow> ('e, 'p) dp_coordinator_msg \<Rightarrow> 'e routes \<Rightarrow>
    'e routes \<times> 'e route_target inference_result list" where
  "coordinator_handle path (Register d t) rs = (route_register d t rs, [])"
| "coordinator_handle path (Deregister d p) rs = (route_deregister path d p rs, [])"
| "coordinator_handle path (ReportLoad d p l) rs = (route_report_load path d p l rs, [])"
| "coordinator_handle path (RouteTo d) rs = (rs, [pick d rs])"

fun coordinator_run :: "('e \<Rightarrow> 'p) \<Rightarrow> 'e routes \<Rightarrow> ('e, 'p) dp_coordinator_msg list \<Rightarrow>
    'e routes \<times> 'e route_target inference_result list" where
  "coordinator_run path rs [] = (rs, [])"
| "coordinator_run path rs (m # ms) =
     (let (r1, f1) = coordinator_handle path m rs; (r2, f2) = coordinator_run path r1 ms in (r2, f1 @ f2))"

section \<open>Placement\<close>

record placement_constraints =
  gpu_nodes :: "string list"
  cpu_nodes :: "string list"
  egress_nodes :: "string list"
  egress_preference :: "((provider_kind \<times> string) \<times> string list) list"

record node_assignment =
  replica_index :: u32
  node :: string
  na_gpus :: "u32 list"

record placement_result =
  pl_deployment :: string
  assignments :: "node_assignment list"

datatype placement_error = NoGpuNodes | NoCpuNodes | NoEgressNodes provider_kind | NotEnoughGpus u32 | PlUnknownTransport

definition u32_range :: "u32 \<Rightarrow> u32 list" where
  "u32_range n = map word_of_nat [0 ..< unat n]"

text \<open>The \<^verbatim>\<open>for i in 0..deployment.replicas\<close> loop over a pool of nodes.\<close>

definition assign_round_robin :: "string list \<Rightarrow> u32 list \<Rightarrow> u32 \<Rightarrow> node_assignment list" where
  "assign_round_robin pool gs replicas =
     map (\<lambda>i. \<lparr>replica_index = i, node = pool ! (unat i mod length pool), na_gpus = gs\<rparr>) (u32_range replicas)"

definition place :: "'j deployment \<Rightarrow> placement_constraints \<Rightarrow> placement_error + placement_result" where
  "place d c =
     (case transport_of_runtime (effective_runtime d) of
        LocalGpu \<Rightarrow>
          if gpu_nodes c = [] then Inl NoGpuNodes
          else let want = (case dep_gpus d of Some g \<Rightarrow> g | None \<Rightarrow> 1) in
            Inr \<lparr>pl_deployment = dep_name d, assignments = assign_round_robin (gpu_nodes c) (u32_range want) (dep_replicas d)\<rparr>
      | RemoteNetwork p \<Rightarrow>
          if egress_nodes c = [] then Inl (NoEgressNodes p)
          else Inr \<lparr>pl_deployment = dep_name d, assignments = assign_round_robin (egress_nodes c) [] (dep_replicas d)\<rparr>
      | LocalCpu \<Rightarrow>
          if cpu_nodes c = [] then Inl NoCpuNodes
          else Inr \<lparr>pl_deployment = dep_name d, assignments = assign_round_robin (cpu_nodes c) [] (dep_replicas d)\<rparr>
      | UnknownTransport \<Rightarrow> Inl PlUnknownTransport)"

definition placement_handle :: "'j deployment \<Rightarrow> placement_constraints \<Rightarrow> placement_error + placement_result" where
  "placement_handle d c = place d c"

section \<open>Lemmas: the least loaded engine\<close>

lemma min_by_load_in: "min_by_load m ts \<in> insert m (set ts)"
  by (induction ts arbitrary: m) (auto split: if_splits)

lemma min_by_load_le:
  assumes "\<forall>t \<in> insert m (set ts). load t \<noteq> NaN" "t \<in> insert m (set ts)"
  shows "\<not> fp_lt (load t) (load (min_by_load m ts))"
  using assms
proof (induction ts arbitrary: m t)
  case Nil
  then show ?case by simp
next
  case (Cons x ts)
  let ?m = "if fp_lt (load x) (load m) then x else m"
  have nn: "\<forall>t \<in> insert ?m (set ts). load t \<noteq> NaN" using Cons.prems(1) by auto
  have top: "\<not> fp_lt (load ?m) (load (min_by_load ?m ts))" by (rule Cons.IH [OF nn]) simp
  have nm: "load (min_by_load ?m ts) \<noteq> NaN" using nn min_by_load_in [of ?m ts] by blast
  show ?case
  proof (cases "t \<in> insert ?m (set ts)")
    case True
    then show ?thesis using Cons.IH [OF nn] by simp
  next
    case False
    then have "\<not> fp_lt (load t) (load ?m)" using Cons.prems(2) fp_lt_asym by auto
    then show ?thesis using top fp_not_lt_trans Cons.prems nn nm by (metis insertI1 min_by_load.simps(2))
  qed
qed

text \<open>Among equally loaded engines the one registered first wins.\<close>

lemma min_by_load_first:
  assumes "\<forall>t \<in> insert m (set ts). load t \<noteq> NaN"
  shows "\<exists>i \<le> length ts. min_by_load m ts = (m # ts) ! i \<and>
    (\<forall>j < i. fp_lt (load (min_by_load m ts)) (load ((m # ts) ! j)))"
  using assms
proof (induction ts arbitrary: m)
  case Nil
  then show ?case by simp
next
  case (Cons x ts)
  let ?m = "if fp_lt (load x) (load m) then x else m"
  let ?r = "min_by_load ?m ts"
  have nn: "\<forall>t \<in> insert ?m (set ts). load t \<noteq> NaN" using Cons.prems by auto
  obtain i where i: "i \<le> length ts" "?r = (?m # ts) ! i" "\<forall>j < i. fp_lt (load ?r) (load ((?m # ts) ! j))"
    using Cons.IH [OF nn] by blast
  have rm: "\<not> fp_lt (load ?m) (load ?r)" by (rule min_by_load_le [OF nn]) simp
  have nr: "load ?r \<noteq> NaN" using nn min_by_load_in [of ?m ts] by blast
  show ?case
  proof (cases "i = 0 \<and> \<not> fp_lt (load x) (load m)")
    case True
    then show ?thesis using i by (intro exI [of _ 0]) auto
  next
    case False
    have mlt: "fp_lt (load ?r) (load m)"
    proof (cases "fp_lt (load x) (load m)")
      case True
      then show ?thesis using rm Cons.prems nr
        by (metis (full_types) fp_not_lt_trans fp_lt_asym insertI1 insertI2 list.set_intros(1))
    next
      case f: False
      then show ?thesis using i(3) False by auto
    qed
    have "fp_lt (load ?r) (load ((m # x # ts) ! j))" if "j < Suc i" for j
    proof (cases j)
      case 0
      then show ?thesis using mlt by simp
    next
      case (Suc k)
      show ?thesis
      proof (cases "k = 0")
        case True
        show ?thesis
        proof (cases "fp_lt (load x) (load m)")
          case True
          then show ?thesis using i(3) Suc \<open>k = 0\<close> that by auto
        next
          case f: False
          have "\<not> fp_lt (load x) (load m)" using f .
          then show ?thesis using mlt Suc \<open>k = 0\<close> Cons.prems nr
            by (metis fp_not_lt_trans fp_lt_asym insertI1 insertI2 list.set_intros(1) nth_Cons_0 nth_Cons_Suc)
        qed
      next
        case False
        then show ?thesis using i(3) Suc that by (auto simp: nth_Cons')
      qed
    qed
    moreover have "?r = (m # x # ts) ! Suc i" using i(2) False by (cases i) auto
    ultimately show ?thesis using i(1) by (intro exI [of _ "Suc i"]) auto
  qed
qed

section \<open>Lemmas: registration\<close>

definition targets :: "'e routes \<Rightarrow> string \<Rightarrow> 'e route_target list" where
  "targets rs d = (case map_of rs d of None \<Rightarrow> [] | Some v \<Rightarrow> v)"

lemma targets_register: "targets (route_register d t rs) d' = (if d' = d then targets rs d @ [t] else targets rs d')"
  by (simp add: targets_def route_register_def update_conv)

lemma targets_deregister: "targets (route_deregister path d p rs) d' =
    (if d' = d then filter (\<lambda>t. path (engine_ref t) \<noteq> p) (targets rs d) else targets rs d')"
  by (simp add: targets_def route_deregister_def update_conv split: option.splits)

lemma targets_report_load: "targets (route_report_load path d p l rs) d' =
    (if d' = d then map (\<lambda>t. if path (engine_ref t) = p then t\<lparr>load := l\<rparr> else t) (targets rs d) else targets rs d')"
  by (simp add: targets_def route_report_load_def update_conv split: option.splits)

lemmas targets_simps = targets_register targets_deregister targets_report_load

lemma pick_targets: "pick d rs = (case targets rs d of
     [] \<Rightarrow> Inl (Internal (''no engine for deployment `'' @ d @ ''`'')) | t # ts \<Rightarrow> Inr (min_by_load t ts))"
  by (simp add: pick_def targets_def split: option.splits list.splits)

lemma pick_in: "pick d rs = Inr t \<Longrightarrow> t \<in> set (targets rs d)"
  using min_by_load_in by (fastforce simp: pick_targets split: list.splits)

definition absent :: "('e \<Rightarrow> 'p) \<Rightarrow> string \<Rightarrow> 'p \<Rightarrow> 'e routes \<Rightarrow> bool" where
  "absent path d p rs \<longleftrightarrow> (\<forall>t \<in> set (targets rs d). path (engine_ref t) \<noteq> p)"

fun registers :: "('e \<Rightarrow> 'p) \<Rightarrow> string \<Rightarrow> 'p \<Rightarrow> ('e, 'p) dp_coordinator_msg \<Rightarrow> bool" where
  "registers path d p (Register d' t) = (d' = d \<and> path (engine_ref t) = p)"
| "registers path d p _ = False"

lemma absent_step:
  "absent path d p rs \<Longrightarrow> \<not> registers path d p m \<Longrightarrow> coordinator_handle path m rs = (rs', fx) \<Longrightarrow> absent path d p rs'"
  by (cases m) (fastforce simp: absent_def targets_simps split: if_splits)+

lemma absent_run:
  "absent path d p rs \<Longrightarrow> \<forall>m \<in> set ms. \<not> registers path d p m \<Longrightarrow> coordinator_run path rs ms = (rs', fx) \<Longrightarrow>
   absent path d p rs'"
proof (induction ms arbitrary: rs fx)
  case (Cons m ms)
  then show ?case by (auto split: prod.splits dest: absent_step)
qed simp

section \<open>Lemmas: round robin\<close>

lemma length_u32_range [simp]: "length (u32_range n) = unat n"
  by (simp add: u32_range_def)

lemma nth_u32_range: "i < unat n \<Longrightarrow> u32_range n ! i = word_of_nat i \<and> unat (word_of_nat i :: u32) = i"
  using unat_u32_bound [of n] by (simp add: u32_range_def unat_of_nat)

text \<open>How often the residue \<open>j\<close> occurs below \<open>r\<close>.\<close>

lemma count_residue:
  assumes "0 < n" "j < n"
  shows "length (filter (\<lambda>i. i mod n = j) [0 ..< r]) = r div n + (if j < r mod n then 1 else 0)"
proof (induction r)
  case 0
  then show ?case using assms by simp
next
  case (Suc r)
  then show ?case using assms by (auto simp: div_Suc mod_Suc)
qed

lemma count_node:
  assumes "pool \<noteq> []" "distinct pool" "j < length pool"
  shows "length (filter (\<lambda>a. node a = pool ! j) (assign_round_robin pool gs r)) =
    unat r div length pool + (if j < unat r mod length pool then 1 else 0)"
proof -
  let ?n = "length pool"
  have n: "0 < ?n" using assms(1) by simp
  have "map node (assign_round_robin pool gs r) = map (\<lambda>i. pool ! (i mod ?n)) [0 ..< unat r]"
    by (rule nth_equalityI) (auto simp: assign_round_robin_def nth_u32_range)
  then have "length (filter (\<lambda>x. x = pool ! j) (map node (assign_round_robin pool gs r))) =
      length (filter (\<lambda>i. pool ! (i mod ?n) = pool ! j) [0 ..< unat r])"
    by (simp add: filter_map comp_def)
  also have "(\<lambda>i. pool ! (i mod ?n) = pool ! j) = (\<lambda>i. i mod ?n = j)"
    using assms n by (auto simp: fun_eq_iff nth_eq_iff_index_eq)
  finally show ?thesis using count_residue [OF n assms(3)] by (simp add: filter_map comp_def)
qed

section \<open>Properties\<close>



text \<open>Deregistration is final.  After an engine is deregistered from a deployment, whatever messages
  follow except a new registration of that engine for that deployment (late load reports included),
  \<^verbatim>\<open>RouteTo\<close> never answers with it.\<close>

theorem deregistered_engine_never_routed:
  assumes "\<forall>m \<in> set ms. \<not> registers path d p m"
    and "fst (coordinator_run path rs (Deregister d p # ms)) = rs'" "pick d rs' = Inr t"
  shows "path (engine_ref t) \<noteq> p"
proof -
  have a: "absent path d p (route_deregister path d p rs)" by (auto simp: absent_def targets_simps)
  obtain fx where "coordinator_run path (route_deregister path d p rs) ms = (rs', fx)"
    using assms(2) by (cases "coordinator_run path (route_deregister path d p rs) ms") auto
  from absent_run [OF a assms(1) this] pick_in [OF assms(3)] show ?thesis by (auto simp: absent_def)
qed

theorem deregistered_engine_never_routed_witness:
  "case pick ''d'' (fst (coordinator_run (\<lambda>e. e) [(''d'', [\<lparr>engine_ref = (1::nat), load = Fin 0\<rparr>, \<lparr>engine_ref = 2, load = Fin 1\<rparr>])]
      [Deregister ''d'' 1, ReportLoad ''d'' 1 (Fin 0)])) of Inr t \<Rightarrow> engine_ref t \<noteq> 1 | Inl _ \<Rightarrow> False"
  using deregistered_engine_never_routed [of "[ReportLoad ''d'' 1 (Fin 0)]" "\<lambda>e. e" "''d''" 1
      "[(''d'', [\<lparr>engine_ref = (1::nat), load = Fin 0\<rparr>, \<lparr>engine_ref = 2, load = Fin 1\<rparr>])]"]
  by (simp add: route_deregister_def route_report_load_def pick_def)


definition sample_deployment :: "string \<Rightarrow> unit deployment" where
  "sample_deployment m = \<lparr>dep_name = ''d'', dep_model = m, dep_runtime = None, dep_runtime_config = None,
     dep_gpus = None, dep_replicas = 3, dep_serving = default_serving, dep_budget = None, dep_idempotent = True\<rparr>"

definition sample_nodes :: placement_constraints where
  "sample_nodes = \<lparr>gpu_nodes = [''g0'', ''g1''], cpu_nodes = [], egress_nodes = [''e0''], egress_preference = []\<rparr>"


text \<open>When placement fails.  It fails exactly when the pool that the transport selects is empty or the
  transport of the runtime is not fixed by its kind; in particular every audio runtime is refused, while
  a deployment that names no runtime at all always has a pool.\<close>

theorem placement_fails_iff:
  "((\<exists>e. place d c = Inl e) \<longleftrightarrow>
     (case transport_of_runtime (effective_runtime d) of
        LocalGpu \<Rightarrow> gpu_nodes c = [] | LocalCpu \<Rightarrow> cpu_nodes c = []
      | RemoteNetwork p \<Rightarrow> egress_nodes c = [] | UnknownTransport \<Rightarrow> True)) \<and>
   (\<not> is_audio (effective_runtime d) \<or> place d c = Inl PlUnknownTransport) \<and>
   (dep_runtime d = None \<and> dep_runtime_config d = None \<longrightarrow> place d c \<noteq> Inl PlUnknownTransport)"
proof (intro conjI)
  show "(\<exists>e. place d c = Inl e) \<longleftrightarrow> (case transport_of_runtime (effective_runtime d) of
        LocalGpu \<Rightarrow> gpu_nodes c = [] | LocalCpu \<Rightarrow> cpu_nodes c = []
      | RemoteNetwork p \<Rightarrow> egress_nodes c = [] | UnknownTransport \<Rightarrow> True)"
    by (auto simp: place_def Let_def split: transport_kind.splits)
  show "\<not> is_audio (effective_runtime d) \<or> place d c = Inl PlUnknownTransport"
    using audio_unknown_transport [of "effective_runtime d"] by (auto simp: place_def)
  show "dep_runtime d = None \<and> dep_runtime_config d = None \<longrightarrow> place d c \<noteq> Inl PlUnknownTransport"
    using infer_runtime_placeable [of "dep_model d"]
    by (auto simp: place_def Let_def effective_runtime_def split: transport_kind.splits)
qed

theorem placement_fails_iff_witness:
  "place ((sample_deployment ''x'')\<lparr>dep_runtime := Some runtime_kind.SpeechToText\<rparr>) sample_nodes = Inl PlUnknownTransport \<and>
   place (sample_deployment ''llama-3'') sample_nodes \<noteq> Inl PlUnknownTransport"
  using placement_fails_iff [of "(sample_deployment ''x'')\<lparr>dep_runtime := Some runtime_kind.SpeechToText\<rparr>" sample_nodes]
    placement_fails_iff [of "sample_deployment ''llama-3''" sample_nodes]
  by (simp add: effective_runtime_def sample_deployment_def)

end
