(* ===== verification/Control_Plane.thy ===== *)
theory Control_Plane
  imports Core_Types "HOL-Library.AList"
begin

text \<open>
  The actors of \<^verbatim>\<open>inference-runtime\<close> around a request: the deployment catalog
  (\<^verbatim>\<open>deployment_manager.rs\<close>), the metrics aggregation (\<^verbatim>\<open>metrics.rs\<close>) and the per-request actor
  (\<^verbatim>\<open>request.rs\<close>).  A \<^verbatim>\<open>HashMap\<close> is an association list with distinct keys; the order in which
  \<^verbatim>\<open>values()\<close> visits it is not specified by the library and no property depends on it.
\<close>

section \<open>The deployment catalog\<close>

datatype deployment_state = Pending | Serving | Draining | DsFailed

record 'j deployment_record =
  dr_deployment :: "'j deployment"
  dr_state :: deployment_state

type_synonym 'j catalog = "(string \<times> 'j deployment_record) list"

datatype 'j deployment_manager_msg =
    Apply "'j deployment"
  | Remove string
  | ListAll
  | Get string

datatype 'j manager_reply =
    Done "unit inference_result"
  | Listed "'j deployment_record list"
  | Got "'j deployment_record option"

fun manager_handle :: "'j deployment_manager_msg \<Rightarrow> 'j catalog \<Rightarrow> 'j catalog \<times> 'j manager_reply" where
  "manager_handle (Apply d) rs = (case validate d of
     Inr _ \<Rightarrow> (AList.update (dep_name d) \<lparr>dr_deployment = d, dr_state = Pending\<rparr> rs, Done (Inr ()))
   | Inl e \<Rightarrow> (rs, Done (Inl (Internal (show_validation_error e)))))"
| "manager_handle (Remove n) rs = (AList.delete n rs, Done (Inr ()))"
| "manager_handle ListAll rs = (rs, Listed (map snd rs))"
| "manager_handle (Get n) rs = (rs, Got (map_of rs n))"

fun manager_run :: "'j catalog \<Rightarrow> 'j deployment_manager_msg list \<Rightarrow> 'j catalog \<times> 'j manager_reply list" where
  "manager_run rs [] = (rs, [])"
| "manager_run rs (m # ms) =
     (let (r1, f1) = manager_handle m rs; (r2, f2) = manager_run r1 ms in (r2, f1 # f2))"

text \<open>Keys are unique, every record is filed under its own name and holds a valid deployment.\<close>

definition catalog_ok :: "'j catalog \<Rightarrow> bool" where
  "catalog_ok rs \<longleftrightarrow> distinct (map fst rs) \<and>
     (\<forall>(n, r) \<in> set rs. dep_name (dr_deployment r) = n \<and> validate (dr_deployment r) = Inr ())"

lemma catalog_ok_handle [step_inv]:
  assumes "catalog_ok rs" "manager_handle m rs = (rs', reply)"
  shows "catalog_ok rs'"
proof (cases m)
  case (Apply d)
  have "set (AList.update k v rs) \<subseteq> insert (k, v) (set rs)" for k v
    by (induction rs) (auto split: if_splits)
  then show ?thesis using assms Apply
    by (fastforce simp: catalog_ok_def distinct_update split: sum.splits)
next
  case (Remove n)
  then show ?thesis using assms
    by (auto simp: catalog_ok_def AList.delete_eq distinct_map_filter)
qed (use assms in auto)

lemma catalog_ok_run: "catalog_ok rs \<Longrightarrow> manager_run rs ms = (rs', fx) \<Longrightarrow> catalog_ok rs'"
proof (induction ms arbitrary: rs fx)
  case (Cons m ms)
  then show ?case by (auto split: prod.splits dest: catalog_ok_handle)
qed simp

text \<open>What a message does to the entry of a name, independently of the representation.\<close>

fun entry_after :: "string \<Rightarrow> 'j deployment_manager_msg \<Rightarrow> 'j deployment option \<Rightarrow> 'j deployment option" where
  "entry_after n (Apply d) o1 = (if dep_name d = n \<and> validate d = Inr () then Some d else o1)"
| "entry_after n (Remove k) o1 = (if k = n then None else o1)"
| "entry_after n _ o1 = o1"

lemma manager_handle_entry:
  "manager_handle m rs = (rs', reply) \<Longrightarrow>
   map_option dr_deployment (map_of rs' n) = entry_after n m (map_option dr_deployment (map_of rs n))"
  by (cases m) (auto simp: update_conv delete_conv split: sum.splits if_splits)

lemma manager_run_entry:
  "manager_run rs ms = (rs', fx) \<Longrightarrow>
   map_option dr_deployment (map_of rs' n) = fold (entry_after n) ms (map_option dr_deployment (map_of rs n))"
proof (induction ms arbitrary: rs fx)
  case (Cons m ms)
  then show ?case by (auto split: prod.splits simp: manager_handle_entry)
qed simp

section \<open>Metrics\<close>

record deployment_metrics =
  requests_succeeded :: u64
  requests_failed :: u64
  rate_limited :: u64
  circuit_open :: u64
  timed_out :: u64
  content_filtered :: u64
  dm_usage :: token_usage
  cost_usd :: f64

definition default_deployment_metrics :: deployment_metrics where
  "default_deployment_metrics = \<lparr>requests_succeeded = 0, requests_failed = 0, rate_limited = 0, circuit_open = 0,
     timed_out = 0, content_filtered = 0, dm_usage = default_token_usage, cost_usd = Fin 0\<rparr>"

type_synonym metrics_state = "(string \<times> deployment_metrics) list"

datatype failure_kind = FkRateLimited | FkCircuitOpen | FkTimeout | FkContentFiltered | FkOther

datatype metrics_msg =
    RecordSuccess string token_usage f64
  | RecordFailure string failure_kind
  | Snapshot

definition metrics_entry :: "string \<Rightarrow> metrics_state \<Rightarrow> deployment_metrics" where
  "metrics_entry n st = (case map_of st n of Some e \<Rightarrow> e | None \<Rightarrow> default_deployment_metrics)"

definition count_failure :: "failure_kind \<Rightarrow> deployment_metrics \<Rightarrow> deployment_metrics" where
  "count_failure k e0 = (let e = e0\<lparr>requests_failed := requests_failed e0 + 1\<rparr> in
     case k of
       FkRateLimited \<Rightarrow> e\<lparr>rate_limited := rate_limited e + 1\<rparr>
     | FkCircuitOpen \<Rightarrow> e\<lparr>circuit_open := circuit_open e + 1\<rparr>
     | FkTimeout \<Rightarrow> e\<lparr>timed_out := timed_out e + 1\<rparr>
     | FkContentFiltered \<Rightarrow> e\<lparr>content_filtered := content_filtered e + 1\<rparr>
     | FkOther \<Rightarrow> e)"

fun metrics_handle :: "metrics_msg \<Rightarrow> metrics_state \<Rightarrow> metrics_state \<times> metrics_state list" where
  "metrics_handle (RecordSuccess n u c) st =
     (let e = metrics_entry n st in
      (AList.update n (e\<lparr>requests_succeeded := requests_succeeded e + 1, dm_usage := usage_add (dm_usage e) u,
         cost_usd := f64_add (cost_usd e) c\<rparr>) st, []))"
| "metrics_handle (RecordFailure n k) st = (AList.update n (count_failure k (metrics_entry n st)) st, [])"
| "metrics_handle Snapshot st = (st, [st])"

definition metrics_run :: "metrics_state \<Rightarrow> metrics_msg list \<Rightarrow> metrics_state" where
  "metrics_run st ms = foldl (\<lambda>s m. fst (metrics_handle m s)) st ms"

text \<open>The records of one deployment in a message sequence.\<close>

definition successes_of :: "string \<Rightarrow> metrics_msg list \<Rightarrow> token_usage list" where
  "successes_of n ms = List.map_filter (\<lambda>m. case m of RecordSuccess k u c \<Rightarrow> if k = n then Some u else None | _ \<Rightarrow> None) ms"

definition failures_of :: "string \<Rightarrow> metrics_msg list \<Rightarrow> failure_kind list" where
  "failures_of n ms = List.map_filter (\<lambda>m. case m of RecordFailure k f \<Rightarrow> if k = n then Some f else None | _ \<Rightarrow> None) ms"

abbreviation occurrences :: "'a \<Rightarrow> 'a list \<Rightarrow> u64" where
  "occurrences x xs \<equiv> word_of_nat (length (filter ((=) x) xs))"

lemma metrics_run_snoc: "metrics_run st (ms @ [m]) = fst (metrics_handle m (metrics_run st ms))"
  by (simp add: metrics_run_def)

lemma records_snoc:
  "successes_of n (ms @ [m]) = successes_of n ms @ (case m of RecordSuccess k u c \<Rightarrow> if k = n then [u] else [] | _ \<Rightarrow> [])"
  "failures_of n (ms @ [m]) = failures_of n ms @ (case m of RecordFailure k f \<Rightarrow> if k = n then [f] else [] | _ \<Rightarrow> [])"
  by (simp_all add: successes_of_def failures_of_def map_filter_def split: metrics_msg.splits)

lemma metrics_entry_update:
  "metrics_entry n (AList.update k v st) = (if n = k then v else metrics_entry n st)"
  by (simp add: metrics_entry_def update_conv)

section \<open>The request actor\<close>

record request_actor =
  ra_dispatched :: bool
  accumulator :: tokens
  has_done :: bool

datatype 'j request_msg =
    ReqDispatch string execute_batch
  | ReqChunk "inference_error + 'j token_chunk"
  | Cancel

text \<open>The coordinator's answer to \<^verbatim>\<open>ask_with\<close>: a route, an error, or no answer within two seconds.\<close>

datatype ask_reply = Routed | RouteFailed inference_error | AskTimeout

datatype 'j request_effect =
    Mirror "inference_error + 'j token_chunk"
  | DoneTokens tokens
  | BridgeSpawned
  | StopActor

definition new_request_actor :: request_actor where
  "new_request_actor = \<lparr>ra_dispatched = False, accumulator = default_tokens, has_done = True\<rparr>"

definition finish :: "request_actor \<Rightarrow> request_actor \<times> 'j request_effect list" where
  "finish r = (if has_done r
     then (r\<lparr>has_done := False, accumulator := default_tokens\<rparr>, [DoneTokens (accumulator r)])
     else (r, []))"

definition req_dispatch :: "ask_reply \<Rightarrow> execute_batch \<Rightarrow> request_actor \<Rightarrow> request_actor \<times> 'j request_effect list" where
  "req_dispatch ask b r =
     (if ra_dispatched r then (r, [])
      else let r1 = r\<lparr>ra_dispatched := True, accumulator := (accumulator r)\<lparr>tk_request_id := request_id b\<rparr>\<rparr> in
      case ask of
        Routed \<Rightarrow> (r1, [BridgeSpawned])
      | RouteFailed e \<Rightarrow> (let (r2, fx) = finish r1 in (r2, Mirror (Inl e) # fx @ [StopActor]))
      | AskTimeout \<Rightarrow> (let (r2, fx) = finish r1 in
          (r2, Mirror (Inl (Internal ''coordinator timeout'')) # fx @ [StopActor])))"

definition is_terminal :: "inference_error + 'j token_chunk \<Rightarrow> bool" where
  "is_terminal item = (case item of Inr c \<Rightarrow> tc_finish_reason c \<noteq> None | Inl _ \<Rightarrow> True)"

fun request_handle :: "ask_reply \<Rightarrow> 'j request_msg \<Rightarrow> request_actor \<Rightarrow> request_actor \<times> 'j request_effect list" where
  "request_handle ask (ReqDispatch d b) r = req_dispatch ask b r"
| "request_handle ask (ReqChunk item) r =
     (let r1 = (case item of Inr c \<Rightarrow> r\<lparr>accumulator := tokens_append (accumulator r) c\<rparr> | Inl _ \<Rightarrow> r) in
      if is_terminal item then (let (r2, fx) = finish r1 in (r2, Mirror item # fx @ [StopActor]))
      else (r1, [Mirror item]))"
| "request_handle ask Cancel r = (let (r1, fx) = finish r in (r1, fx @ [StopActor]))"

text \<open>A stopped actor handles no further message.\<close>

fun request_run :: "ask_reply \<Rightarrow> request_actor \<Rightarrow> 'j request_msg list \<Rightarrow> request_actor \<times> 'j request_effect list" where
  "request_run ask r [] = (r, [])"
| "request_run ask r (m # ms) =
     (let (r1, f1) = request_handle ask m r in
      if StopActor \<in> set f1 then (r1, f1)
      else let (r2, f2) = request_run ask r1 ms in (r2, f1 @ f2))"

lemma tokens_append_id_update:
  "tokens_append (t\<lparr>tk_request_id := i\<rparr>) c = (tokens_append t c)\<lparr>tk_request_id := i\<rparr>"
  by (simp add: tokens_append_def Let_def split: option.splits)

text \<open>Data chunks are mirrored and accumulated one by one.\<close>

lemma request_run_data:
  assumes "\<forall>c \<in> set cs. tc_finish_reason c = None"
  shows "request_run ask r (map (\<lambda>c. ReqChunk (Inr c)) cs @ ms) =
    (let (r2, f2) = request_run ask (r\<lparr>accumulator := foldl tokens_append (accumulator r) cs\<rparr>) ms
     in (r2, map (\<lambda>c. Mirror (Inr c)) cs @ f2))"
  using assms
  by (induction cs arbitrary: r) (auto simp: is_terminal_def Let_def split_beta)

definition is_done :: "'j request_effect \<Rightarrow> bool" where
  "is_done f = (case f of DoneTokens _ \<Rightarrow> True | _ \<Rightarrow> False)"

lemma request_handle_done:
  assumes "has_done r" "request_handle ask m r = (r', fx)"
  shows "length (filter is_done fx) = (if StopActor \<in> set fx then 1 else 0) \<and> (StopActor \<notin> set fx \<longrightarrow> has_done r')"
  using assms
  by (cases m) (auto simp: req_dispatch_def finish_def is_done_def Let_def split: ask_reply.splits if_splits sum.splits)

lemma request_run_done:
  "has_done r \<Longrightarrow> request_run ask r ms = (r', fx) \<Longrightarrow>
   length (filter is_done fx) = (if StopActor \<in> set fx then 1 else 0)"
proof (induction ms arbitrary: r fx)
  case (Cons m ms)
  obtain r1 f1 where h: "request_handle ask m r = (r1, f1)" by (cases "request_handle ask m r")
  note hd = request_handle_done [OF Cons.prems(1) h]
  show ?case
  proof (cases "StopActor \<in> set f1")
    case True
    then show ?thesis using Cons.prems(2) h hd by simp
  next
    case False
    then obtain f2 where "request_run ask r1 ms = (r', f2)" "fx = f1 @ f2"
      using Cons.prems(2) h by (auto split: prod.splits)
    with Cons.IH [of r1 f2] hd False show ?thesis by auto
  qed
qed simp

section \<open>Properties\<close>

text \<open>The deployment catalog.  After any sequence of messages on an empty catalog, names are unique,
  every stored deployment is valid and filed under its own name, and \<^verbatim>\<open>Get n\<close> returns the deployment of
  the last valid \<^verbatim>\<open>Apply\<close> for \<open>n\<close> that no \<^verbatim>\<open>Remove n\<close> followed (an invalid \<^verbatim>\<open>Apply\<close> changes nothing).\<close>

theorem catalog_last_valid_apply_wins:
  "let rs = fst (manager_run [] ms) in
   catalog_ok rs \<and> map_option dr_deployment (map_of rs n) = fold (entry_after n) ms None"
proof -
  obtain rs fx where r: "manager_run [] ms = (rs, fx)" by (cases "manager_run [] ms")
  have "catalog_ok rs" by (rule catalog_ok_run [OF _ r]) (simp add: catalog_ok_def)
  with manager_run_entry [OF r, of n] r show ?thesis by simp
qed

text \<open>The metrics are exact.  For every deployment, the counters of the aggregated snapshot are the
  numbers of the corresponding records in the message sequence (modulo \<open>2^64\<close>), and its usage is the sum of
  the usages of its successes; records of other deployments do not interfere.\<close>

theorem metrics_exact:
  "let e = metrics_entry n (metrics_run [] ms) in
   requests_succeeded e = word_of_nat (length (successes_of n ms)) \<and>
   requests_failed e = word_of_nat (length (failures_of n ms)) \<and>
   rate_limited e = occurrences FkRateLimited (failures_of n ms) \<and>
   circuit_open e = occurrences FkCircuitOpen (failures_of n ms) \<and>
   timed_out e = occurrences FkTimeout (failures_of n ms) \<and>
   content_filtered e = occurrences FkContentFiltered (failures_of n ms) \<and>
   dm_usage e = foldl usage_add default_token_usage (successes_of n ms)"
proof (induction ms rule: rev_induct)
  case Nil
  then show ?case
    by (simp add: metrics_run_def metrics_entry_def default_deployment_metrics_def successes_of_def failures_of_def map_filter_def)
next
  case (snoc m ms)
  show ?case
  proof (cases m)
    case (RecordFailure k f)
    then show ?thesis using snoc
      by (cases f; cases "k = n") (simp_all add: metrics_run_snoc records_snoc metrics_entry_update Let_def count_failure_def)
  next
    case (RecordSuccess k u c)
    then show ?thesis using snoc
      by (cases "k = n") (simp_all add: metrics_run_snoc records_snoc metrics_entry_update Let_def)
  next
    case Snapshot
    then show ?thesis using snoc by (simp add: metrics_run_snoc records_snoc)
  qed
qed

text \<open>A dispatched request whose chunks end in a terminal one.\<close>

lemma request_run_aggregate:
  assumes "\<forall>c \<in> set cs. tc_finish_reason c = None" "tc_finish_reason t = Some reason"
  shows "\<exists>T. snd (request_run Routed new_request_actor
      (ReqDispatch d b # map (\<lambda>c. ReqChunk (Inr c)) (cs @ [t]) @ rest)) =
      BridgeSpawned # map (\<lambda>c. Mirror (Inr c)) (cs @ [t]) @ [DoneTokens T, StopActor] \<and>
    tk_request_id T = request_id b \<and> tk_text T = concat (map text_delta (cs @ [t])) \<and>
    tk_usage T = foldl usage_add default_token_usage (usages (cs @ [t])) \<and> tk_finish_reason T = Some reason"
proof -
  let ?t0 = "default_tokens\<lparr>tk_request_id := request_id b\<rparr>"
  let ?T = "foldl tokens_append ?t0 (cs @ [t])"
  have fr: "finish_reasons (cs @ [t]) \<noteq> [] \<and> last (finish_reasons (cs @ [t])) = reason"
    using assms by (induction cs) auto
  have "snd (request_run Routed new_request_actor (ReqDispatch d b # map (\<lambda>c. ReqChunk (Inr c)) cs @ ReqChunk (Inr t) # rest)) =
      BridgeSpawned # map (\<lambda>c. Mirror (Inr c)) cs @ [Mirror (Inr t), DoneTokens ?T, StopActor]"
    using assms by (simp add: req_dispatch_def new_request_actor_def request_run_data Let_def split_beta
        is_terminal_def finish_def)
  with tokens_accumulate [of ?t0 "cs @ [t]"] fr show ?thesis
    by (intro exI [of _ ?T]) (simp add: default_tokens_def)
qed

text \<open>A response is mirrored and accumulated exactly.  After a routed dispatch, data chunks \<open>cs\<close>
  followed by a chunk \<open>t\<close> with a finish reason are mirrored to the gateway in order, then the aggregate is
  delivered (the batch's id, the concatenated text, the summed usage, the reason of \<open>t\<close>) and the actor
  stops: whatever arrives afterwards has no effect.\<close>

theorem request_stream_aggregate:
  assumes "\<forall>c \<in> set cs. tc_finish_reason c = None" "tc_finish_reason t = Some reason"
  shows "\<exists>T. snd (request_run Routed new_request_actor
      (ReqDispatch d b # map (\<lambda>c. ReqChunk (Inr c)) (cs @ [t]) @ rest)) =
      BridgeSpawned # map (\<lambda>c. Mirror (Inr c)) (cs @ [t]) @ [DoneTokens T, StopActor] \<and>
    tk_request_id T = request_id b \<and> tk_text T = concat (map text_delta (cs @ [t])) \<and>
    tk_usage T = foldl usage_add default_token_usage (usages (cs @ [t])) \<and> tk_finish_reason T = Some reason"
  by (rule request_run_aggregate [OF assms])

definition plain_chunk :: "string \<Rightarrow> finish_reason option \<Rightarrow> unit token_chunk" where
  "plain_chunk s f = \<lparr>tc_request_id = ''r'', text_delta = s, tool_call_delta = None, tc_usage = None, tc_finish_reason = f\<rparr>"

definition plain_batch :: execute_batch where
  "plain_batch = \<lparr>request_id = ''r'', model = ''m'', messages = [], sampling = default_sampling_params,
     stream = True, estimated_tokens_field = 1\<rparr>"

theorem request_stream_aggregate_witness:
  "\<exists>T. snd (request_run Routed new_request_actor (ReqDispatch ''d'' plain_batch #
      map (\<lambda>c. ReqChunk (Inr c)) ([plain_chunk ''a'' None] @ [plain_chunk ''b'' (Some Stop)]) @ [Cancel])) =
      BridgeSpawned # map (\<lambda>c. Mirror (Inr c)) ([plain_chunk ''a'' None] @ [plain_chunk ''b'' (Some Stop)]) @ [DoneTokens T, StopActor] \<and>
    tk_text T = ''ab''"
proof -
  have "\<forall>c \<in> set [plain_chunk ''a'' None]. tc_finish_reason c = None"
    "tc_finish_reason (plain_chunk ''b'' (Some Stop)) = Some Stop"
    "concat (map text_delta ([plain_chunk ''a'' None] @ [plain_chunk ''b'' (Some Stop)])) = ''ab''"
    by (simp_all add: plain_chunk_def)
  with request_stream_aggregate show ?thesis by metis
qed


end
