(* ===== verification/Ws_Core.thy ===== *)
theory Ws_Core
  imports Backoff
begin

text \<open>
  \<^verbatim>\<open>inference-runtime-ws-core\<close>: the WebSocket layer of the audio providers: frames and their
  coalescing (\<^verbatim>\<open>frame.rs\<close>), transport errors (\<^verbatim>\<open>error.rs\<close>), the reconnect engine (\<^verbatim>\<open>reconnect.rs\<close>),
  the keepalive tracker (\<^verbatim>\<open>keepalive.rs\<close>) and the receive loop of \<^verbatim>\<open>client.rs\<close>.  The messages of
  \<^verbatim>\<open>tungstenite\<close> are a datatype; its close codes are an opaque type \<open>'k\<close> with the conversions
  \<open>to_code\<close> and \<open>of_code\<close> as arguments.
\<close>

section \<open>Frames\<close>

datatype frame = Binary "u8 list" | Text string | Ping "u8 list" | Pong "u8 list" | Close u16 string

datatype ('k, 'f) message =
    MBinary "u8 list" | MText string | MPing "u8 list" | MPong "u8 list"
  | MClose "('k \<times> string) option" | MFrame 'f

fun into_message :: "(u16 \<Rightarrow> 'k) \<Rightarrow> frame \<Rightarrow> ('k, 'f) message" where
  "into_message to_code (Binary b) = MBinary b"
| "into_message to_code (Text t) = MText t"
| "into_message to_code (Ping p) = MPing p"
| "into_message to_code (Pong p) = MPong p"
| "into_message to_code (Close code reason) = MClose (Some (to_code code, reason))"

fun from_message :: "('k \<Rightarrow> u16) \<Rightarrow> ('k, 'f) message \<Rightarrow> frame option" where
  "from_message of_code (MBinary b) = Some (Binary b)"
| "from_message of_code (MText t) = Some (Text t)"
| "from_message of_code (MPing p) = Some (Ping p)"
| "from_message of_code (MPong p) = Some (Pong p)"
| "from_message of_code (MClose (Some (k, r))) = Some (Close (of_code k) r)"
| "from_message of_code (MClose None) = Some (Close 1000 [])"
| "from_message of_code (MFrame _) = None"

fun is_control :: "frame \<Rightarrow> bool" where
  "is_control (Ping _) = True"
| "is_control (Pong _) = True"
| "is_control (Close _ _) = True"
| "is_control _ = False"

definition flush :: "u8 list \<Rightarrow> frame list \<Rightarrow> frame list" where
  "flush buf out = (if buf = [] then out else out @ [Binary buf])"

fun coalesce_loop :: "nat \<Rightarrow> u8 list \<Rightarrow> frame list \<Rightarrow> frame list \<Rightarrow> frame list" where
  "coalesce_loop k buf out [] = flush buf out"
| "coalesce_loop k buf out (Binary b # fs) =
     (if k \<le> length b then coalesce_loop k [] (flush buf out @ [Binary b]) fs
      else if k < length buf + length b then coalesce_loop k b (flush buf out) fs
      else coalesce_loop k (buf @ b) out fs)"
| "coalesce_loop k buf out (f # fs) = coalesce_loop k [] (flush buf out @ [f]) fs"

definition coalesce_binary :: "frame list \<Rightarrow> usize \<Rightarrow> frame list" where
  "coalesce_binary frames max_bytes =
     (if max_bytes = 0 \<or> length frames \<le> 1 then frames
      else coalesce_loop (unat max_bytes) [] [] frames)"

section \<open>Errors and the receive loop\<close>

datatype ws_error =
    Closed u16 string
  | ConnectTimeout u64
  | IdleTimeout u64
  | Tls string
  | Io string
  | Protocol string
  | BadUrl string
  | ReconnectExhausted u32

fun ws_is_retryable :: "ws_error \<Rightarrow> bool" where
  "ws_is_retryable (BadUrl _) = False"
| "ws_is_retryable (Tls _) = False"
| "ws_is_retryable (ReconnectExhausted _) = False"
| "ws_is_retryable _ = True"

datatype tungstenite_error =
    TConnectionClosed | TAlreadyClosed | TIo string | TTls string | TUrl string | TProtocol string | TOther string

fun ws_error_from :: "tungstenite_error \<Rightarrow> ws_error" where
  "ws_error_from TConnectionClosed = Closed 1000 []"
| "ws_error_from TAlreadyClosed = Closed 1000 []"
| "ws_error_from (TIo e) = Io e"
| "ws_error_from (TTls t) = Tls t"
| "ws_error_from (TUrl u) = BadUrl u"
| "ws_error_from (TProtocol p) = Protocol p"
| "ws_error_from (TOther e) = Protocol e"

text \<open>\<^verbatim>\<open>WsReceiver::next\<close> over the rest of the stream: the frame and what is left.\<close>

fun ws_next :: "('k \<Rightarrow> u16) \<Rightarrow> (tungstenite_error + ('k, 'f) message) list \<Rightarrow>
    (ws_error + frame option) \<times> (tungstenite_error + ('k, 'f) message) list" where
  "ws_next of_code [] = (Inr None, [])"
| "ws_next of_code (Inl e # ms) = (Inl (ws_error_from e), ms)"
| "ws_next of_code (Inr m # ms) = (case from_message of_code m of
     Some f \<Rightarrow> (Inr (Some f), ms)
   | None \<Rightarrow> ws_next of_code ms)"

section \<open>Reconnect\<close>

record reconnect_engine =
  rc_policy :: backoff_policy
  max_attempts :: u32
  attempt :: u32

definition new_reconnect_engine :: "backoff_policy \<Rightarrow> u32 \<Rightarrow> reconnect_engine" where
  "new_reconnect_engine p n = \<lparr>rc_policy = p, max_attempts = n, attempt = 0\<rparr>"

definition rc_reset :: "reconnect_engine \<Rightarrow> reconnect_engine" where
  "rc_reset e = e\<lparr>attempt := 0\<rparr>"

definition next_delay :: "powi_fn \<Rightarrow> reconnect_engine \<Rightarrow> duration option \<times> reconnect_engine" where
  "next_delay pw e =
     (if attempt e = 0 then (Some 0, e\<lparr>attempt := 1\<rparr>)
      else if max_attempts e \<noteq> 0 \<and> max_attempts e \<le> attempt e then (None, e)
      else (Some (compute_backoff pw (rc_policy e) (saturating_sub (attempt e) 1)),
            e\<lparr>attempt := saturating_add (attempt e) 1\<rparr>))"

fun delays :: "powi_fn \<Rightarrow> reconnect_engine \<Rightarrow> nat \<Rightarrow> duration option list" where
  "delays pw e 0 = []"
| "delays pw e (Suc n) = (let (d, e') = next_delay pw e in d # delays pw e' n)"

section \<open>Keepalive\<close>

record keepalive_config =
  ping_interval :: duration
  idle_timeout :: duration

definition default_keepalive_config :: keepalive_config where
  "default_keepalive_config = \<lparr>ping_interval = from_secs 15, idle_timeout = from_secs 60\<rparr>"

datatype keepalive_action = KaIdle | SendPing | Dead

record keepalive =
  ka_cfg :: keepalive_config
  last_seen :: instant
  last_ping :: "instant option"

definition new_keepalive :: "keepalive_config \<Rightarrow> instant \<Rightarrow> keepalive" where
  "new_keepalive c now = \<lparr>ka_cfg = c, last_seen = now, last_ping = None\<rparr>"

definition observe :: "instant \<Rightarrow> keepalive \<Rightarrow> keepalive" where
  "observe now k = k\<lparr>last_seen := now, last_ping := None\<rparr>"

definition tick :: "instant \<Rightarrow> keepalive \<Rightarrow> keepalive_action \<times> keepalive" where
  "tick now k =
     (let since_seen = duration_since now (last_seen k) in
      if idle_timeout (ka_cfg k) \<noteq> 0 \<and> idle_timeout (ka_cfg k) \<le> since_seen then (Dead, k)
      else if ping_interval (ka_cfg k) = 0 then (KaIdle, k)
      else let need_ping = (case last_ping k of
             None \<Rightarrow> ping_interval (ka_cfg k) \<le> since_seen
           | Some prev \<Rightarrow> ping_interval (ka_cfg k) \<le> duration_since now prev) in
        if need_ping then (SendPing, k\<lparr>last_ping := Some now\<rparr>) else (KaIdle, k))"

datatype ka_event = Seen instant | Tick instant

fun ka_run :: "keepalive \<Rightarrow> ka_event list \<Rightarrow> keepalive \<times> (instant \<times> keepalive_action) list" where
  "ka_run k [] = (k, [])"
| "ka_run k (Seen t # es) = ka_run (observe t k) es"
| "ka_run k (Tick t # es) = (let (a, k1) = tick t k; (k2, acts) = ka_run k1 es in (k2, (t, a) # acts))"

section \<open>Coalescing lemmas\<close>

text \<open>
  What must not change: the frames with every maximal run of binary frames replaced by its bytes.
  \<open>pend\<close> are the bytes of the run being read.
\<close>

fun runs_of :: "u8 list \<Rightarrow> frame list \<Rightarrow> (u8 list + frame) list" where
  "runs_of pend [] = (if pend = [] then [] else [Inl pend])"
| "runs_of pend (Binary b # fs) = runs_of (pend @ b) fs"
| "runs_of pend (f # fs) = (if pend = [] then [] else [Inl pend]) @ Inr f # runs_of [] fs"

lemma runs_of_empty: "runs_of p (fs @ Binary [] # gs) = runs_of p (fs @ gs)"
  by (induction p fs rule: runs_of.induct) auto

lemma runs_of_split: "runs_of p (fs @ Binary (a @ b) # gs) = runs_of p (fs @ Binary a # Binary b # gs)"
  by (induction p fs rule: runs_of.induct) auto

lemma runs_of_flush: "runs_of p (flush buf out @ gs) = runs_of p (out @ Binary buf # gs)"
  by (simp add: flush_def runs_of_empty)

lemma runs_of_past:
  "runs_of p ((flush buf out @ [f]) @ Binary [] # gs) = runs_of p (out @ Binary buf # f # gs)"
  using runs_of_flush [of p buf out "f # Binary [] # gs"] runs_of_empty [of p "out @ [Binary buf, f]" gs] by simp

lemma coalesce_loop_runs: "runs_of p (coalesce_loop k buf out fs) = runs_of p (out @ Binary buf # fs)"
proof (induction k buf out fs rule: coalesce_loop.induct)
  case (1 k buf out)
  then show ?case using runs_of_flush [of p buf out "[]"] by simp
next
  case (2 k buf out b fs)
  consider "k \<le> length b" | "\<not> k \<le> length b" "k < length buf + length b" | "\<not> k \<le> length b" "\<not> k < length buf + length b"
    by blast
  then show ?case
  proof cases
    case 1
    then show ?thesis using "2.IH"(1) runs_of_flush [of p buf out "Binary b # Binary [] # fs"]
        runs_of_empty [of p "out @ [Binary buf, Binary b]" fs] by simp
  next
    case 2
    then show ?thesis using runs_of_flush [of p buf out "Binary b # fs"] "2.IH"(2) by simp
  next
    case 3
    then show ?thesis using "2.IH"(3) runs_of_split [of p out buf b fs] by simp
  qed
qed (simp_all only: coalesce_loop.simps runs_of_past)

text \<open>No frame grows beyond the cap: a longer binary frame is one of the input's.\<close>

definition small_or_given :: "nat \<Rightarrow> frame set \<Rightarrow> frame \<Rightarrow> bool" where
  "small_or_given k given f \<longleftrightarrow> (case f of Binary b \<Rightarrow> length b \<le> k \<or> f \<in> given | _ \<Rightarrow> f \<in> given)"

lemma small_or_given_flush:
  "length buf \<le> k \<Longrightarrow> list_all (small_or_given k given) out \<Longrightarrow> list_all (small_or_given k given) (flush buf out)"
  by (simp add: flush_def small_or_given_def)

lemma small_or_given_member: "g \<in> given \<Longrightarrow> small_or_given k given g"
  by (cases g) (simp_all add: small_or_given_def)

lemma coalesce_loop_bound:
  "length buf \<le> k \<Longrightarrow> set fs \<subseteq> given \<Longrightarrow> list_all (small_or_given k given) out \<Longrightarrow>
   list_all (small_or_given k given) (coalesce_loop k buf out fs)"
  by (induction k buf out fs rule: coalesce_loop.induct) (simp_all add: small_or_given_flush small_or_given_member)

section \<open>Reconnect lemmas\<close>

lemma delays_exhausted:
  "attempt e \<noteq> 0 \<Longrightarrow> max_attempts e \<noteq> 0 \<Longrightarrow> max_attempts e \<le> attempt e \<Longrightarrow> delays pw e n = replicate n None"
  by (induction n) (simp_all add: next_delay_def)

lemma delays_budget:
  assumes "max_attempts e \<noteq> 0" "attempt e \<noteq> 0" "attempt e \<le> max_attempts e" "as_millis (bp_max (rc_policy e)) \<le> 2 ^ 52"
  shows "\<exists>ds. delays pw e n = map Some ds @ replicate (n - length ds) None \<and>
    length ds = min n (unat (max_attempts e) - unat (attempt e)) \<and> (\<forall>d \<in> set ds. d \<le> bp_max (rc_policy e))"
  using assms
proof (induction n arbitrary: e)
  case 0
  then show ?case by simp
next
  case (Suc n)
  show ?case
  proof (cases "max_attempts e \<le> attempt e")
    case True
    then have "unat (max_attempts e) - unat (attempt e) = 0" by (simp add: word_le_nat_alt)
    then show ?thesis using True Suc.prems delays_exhausted [of e pw "Suc n"] by (intro exI [of _ "[]"]) simp
  next
    case False
    let ?e = "e\<lparr>attempt := saturating_add (attempt e) 1\<rparr>"
    have lt: "unat (attempt e) < unat (max_attempts e)" using False by (simp add: word_le_nat_alt)
    have at: "unat (saturating_add (attempt e) 1) = Suc (unat (attempt e))"
      using lt unat_u32_bound [of "max_attempts e"] by (simp add: unat_saturating_add min_def)
    obtain ds where ds: "delays pw ?e n = map Some ds @ replicate (n - length ds) None"
      "length ds = min n (unat (max_attempts e) - Suc (unat (attempt e)))" "\<forall>d \<in> set ds. d \<le> bp_max (rc_policy e)"
      using Suc.IH [of ?e] Suc.prems at lt by (force simp: word_le_nat_alt unat_eq_0 [symmetric])
    have "compute_backoff pw (rc_policy e) (saturating_sub (attempt e) 1) \<le> bp_max (rc_policy e)"
      by (rule compute_backoff_bounded [OF Suc.prems(4)])
    then show ?thesis using ds lt Suc.prems False
      by (intro exI [of _ "compute_backoff pw (rc_policy e) (saturating_sub (attempt e) 1) # ds"])
        (auto simp: next_delay_def)
  qed
qed

section \<open>Keepalive lemmas\<close>

text \<open>The last instant at which a frame was seen in an event sequence.\<close>

fun last_seen_at :: "instant \<Rightarrow> ka_event list \<Rightarrow> instant" where
  "last_seen_at t0 [] = t0"
| "last_seen_at t0 (Seen t # es) = last_seen_at t es"
| "last_seen_at t0 (Tick t # es) = last_seen_at t0 es"

lemma tick_keeps: "last_seen (snd (tick t k)) = last_seen k" "ka_cfg (snd (tick t k)) = ka_cfg k"
  by (simp_all add: tick_def Let_def)

lemma tick_dead:
  "fst (tick t k) = Dead \<longleftrightarrow> idle_timeout (ka_cfg k) \<noteq> 0 \<and> idle_timeout (ka_cfg k) \<le> duration_since t (last_seen k)"
  by (simp add: tick_def Let_def)

lemma ka_run_last_seen:
  "last_seen (fst (ka_run k es)) = last_seen_at (last_seen k) es \<and> ka_cfg (fst (ka_run k es)) = ka_cfg k"
proof (induction es arbitrary: k)
  case (Cons ev es)
  then show ?case by (cases ev) (simp_all add: observe_def case_prod_unfold tick_keeps Let_def)
qed simp

section \<open>Properties\<close>

text \<open>C16: coalescing keeps the stream.  For every list of frames and every cap, replacing each maximal run
  of binary frames by its bytes gives the same sequence before and after: no byte is lost, duplicated or
  reordered, no bytes cross a non-binary frame, and no such frame is dropped.  Every binary frame of the
  result is at most the cap long or was already in the input.\<close>

theorem coalesce_preserves_stream:
  "runs_of [] (coalesce_binary frames max_bytes) = runs_of [] frames \<and>
   (\<forall>f. f \<in> set (coalesce_binary frames max_bytes) \<longrightarrow> small_or_given (unat max_bytes) (set frames) f)"
proof (cases "max_bytes = 0 \<or> length frames \<le> 1")
  case True
  then show ?thesis by (auto simp: coalesce_binary_def small_or_given_def split: frame.splits)
next
  case False
  have "runs_of [] (coalesce_loop (unat max_bytes) [] [] frames) = runs_of [] frames"
    using coalesce_loop_runs [of "[]" "unat max_bytes" "[]" "[]" frames] by simp
  moreover have "list_all (small_or_given (unat max_bytes) (set frames)) (coalesce_loop (unat max_bytes) [] [] frames)"
    by (rule coalesce_loop_bound) simp_all
  ultimately show ?thesis using False by (simp add: coalesce_binary_def list_all_iff)
qed

theorem coalesce_preserves_stream_witness:
  "coalesce_binary [Binary [1, 2], Binary [3], Ping [], Binary [4, 5], Binary [6, 7]] 3 =
     [Binary [1, 2, 3], Ping [], Binary [4, 5], Binary [6, 7]] \<and>
   small_or_given 3 (set [Binary [1, 2], Binary [3], Ping [], Binary [4, 5], Binary [6, 7]]) (Binary [1, 2, 3])"
  using coalesce_preserves_stream [of "[Binary [1, 2], Binary [3], Ping [], Binary [4, 5], Binary [6, 7]]" 3]
  by (simp add: coalesce_binary_def flush_def)

text \<open>Frames survive the wire.  Converting a frame to a message and back yields the same frame,
  provided the library's close codes convert back to the number they came from.\<close>

theorem frame_message_roundtrip:
  assumes "\<And>c. of_code (to_code c) = c"
  shows "from_message of_code (into_message to_code f) = Some f"
  using assms by (cases f) auto

theorem frame_message_roundtrip_witness:
  "from_message (\<lambda>c. c) (into_message (\<lambda>c. c) (Close 1011 ''boom'') :: (u16, unit) message) = Some (Close 1011 ''boom'')"
  by (rule frame_message_roundtrip) (rule refl)

text \<open>The reconnect budget.  With a positive cap \<open>n\<close>, a fresh (or reset) engine hands out exactly \<open>n\<close>
  delays, the first of them zero and each at most the configured maximum, and then refuses for ever.\<close>

theorem reconnect_budget:
  assumes "0 < max_att" "as_millis (bp_max p) \<le> 2 ^ 52"
  shows "\<exists>ds. delays pw (new_reconnect_engine p max_att) (Suc n) = Some 0 # map Some ds @ replicate (n - length ds) None \<and>
    length ds = min n (unat max_att - 1) \<and> (\<forall>d \<in> set ds. d \<le> bp_max p)"
proof -
  let ?e = "(new_reconnect_engine p max_att)\<lparr>attempt := 1\<rparr>"
  have "\<exists>ds. delays pw ?e n = map Some ds @ replicate (n - length ds) None \<and>
      length ds = min n (unat (max_attempts ?e) - unat (attempt ?e)) \<and> (\<forall>d \<in> set ds. d \<le> bp_max (rc_policy ?e))"
    using assms by (intro delays_budget) (auto simp: new_reconnect_engine_def word_le_nat_alt word_less_nat_alt unat_eq_0)
  then show ?thesis by (auto simp: new_reconnect_engine_def next_delay_def)
qed

theorem reconnect_budget_witness:
  "\<exists>ds. delays powi_sq (new_reconnect_engine (backoff_policy_from default_retry_policy) 2) (Suc 3) =
      Some 0 # map Some ds @ replicate (3 - length ds) None \<and>
    length ds = min 3 (unat (2 :: u32) - 1) \<and> (\<forall>d \<in> set ds. d \<le> bp_max (backoff_policy_from default_retry_policy))"
  by (rule reconnect_budget) (simp_all add: backoff_policy_from_def default_retry_policy_def)

text \<open>Liveness detection.  In every sequence of observed frames and ticks, a tick reports a dead link
  exactly when an idle timeout is configured and at least that long has passed since the last frame seen
  (or the start), however many pings were sent meanwhile.\<close>

theorem keepalive_dead_iff_silent:
  "fst (tick now (fst (ka_run (new_keepalive cfg t0) es))) = Dead \<longleftrightarrow>
     idle_timeout cfg \<noteq> 0 \<and> idle_timeout cfg \<le> now - last_seen_at t0 es"
  using ka_run_last_seen [of "new_keepalive cfg t0" es]
  by (simp add: tick_dead duration_since_def new_keepalive_def)

end
