(* ===== verification/Whisper_Decode.thy ===== *)
theory Whisper_Decode
  imports Audio_Types
begin

text \<open>
  The audio front end of the local Whisper runtime, \<^verbatim>\<open>inference-runtime-whisper-local/src/audio_decode.rs\<close>
  and \<^verbatim>\<open>error.rs\<close>: from a static payload to the samples handed to the model, with the RIFF/WAVE chunk
  walker.  Slicing a byte buffer out of its bounds is a panic, kept as a value of the result type, so
  that the absence of panics is a theorem.  The file system is a function from paths to bytes or an error, and
  \<^verbatim>\<open>from_utf8_lossy\<close>, which only decorates a message, is the argument \<open>lossy\<close>.
\<close>

unbundle bit_operations_syntax

section \<open>Little-endian numbers\<close>

text \<open>\<^verbatim>\<open>f32::from_bits\<close>: sign, exponent and fraction.\<close>

definition f32_of_bits :: "u32 \<Rightarrow> f32" where
  "f32_of_bits w =
     (let sgn = (if bit w 31 then - 1 else 1 :: rat); e = unat (drop_bit 23 w AND 255); m = unat (w AND 0x7fffff)
      in if e = 255 then (if m \<noteq> 0 then NaN else if bit w 31 then NInf else PInf)
         else if e = 0 then Fin (sgn * of_nat m * 2 powi (- 149))
         else Fin (sgn * of_nat (m + 2 ^ 23) * 2 powi (int e - 150)))"

definition u16_from_le_bytes :: "u8 \<Rightarrow> u8 \<Rightarrow> u16" where
  "u16_from_le_bytes a b = ucast a OR push_bit 8 (ucast b)"

definition u32_from_le_bytes :: "u8 \<Rightarrow> u8 \<Rightarrow> u8 \<Rightarrow> u8 \<Rightarrow> u32" where
  "u32_from_le_bytes a b c d = ucast a OR push_bit 8 (ucast b) OR push_bit 16 (ucast c) OR push_bit 24 (ucast d)"

section \<open>Errors\<close>

datatype whisper_error =
    ModelNotFound string
  | ModelIo string string
  | UnsupportedAudio string
  | StreamingNotSupported
  | Backend string
  | FeatureDisabled
  | UnsupportedArch string

text \<open>The rendering of the errors that are passed on as text is the argument \<open>to_string\<close>.\<close>

fun whisper_error_into :: "(whisper_error \<Rightarrow> string) \<Rightarrow> whisper_error \<Rightarrow> inference_error" where
  "whisper_error_into to_string (UnsupportedAudio m) = UnsupportedAudioFormat m"
| "whisper_error_into to_string StreamingNotSupported = Unsupported ''execute_audio'' runtime_kind.SpeechToText"
| "whisper_error_into to_string (UnsupportedArch a) = Unsupported (''execute_audio'' @ '' (host arch `'' @ a @
     ''` is not in the supported set: linux-x86_64, linux-aarch64)'') runtime_kind.SpeechToText"
| "whisper_error_into to_string (ModelNotFound p) = BadRequest (to_string (ModelNotFound p))"
| "whisper_error_into to_string (ModelIo p e) = BadRequest (to_string (ModelIo p e))"
| "whisper_error_into to_string (Backend b) = Internal (to_string (Backend b))"
| "whisper_error_into to_string FeatureDisabled = Internal (to_string FeatureDisabled)"

datatype fault = Err whisper_error | Panic

datatype io_error = NotFound | OtherIo string

type_synonym file_system = "string \<Rightarrow> io_error + u8 list"

section \<open>Samples\<close>

text \<open>\<^verbatim>\<open>s as f32 / i16::MAX as f32\<close>.\<close>

definition pcm16_sample :: "u16 \<Rightarrow> f32" where
  "pcm16_sample s = f32_div (f32_of_rat (of_int (sint s))) (f32_of_rat 32767)"

fun pcm16_samples :: "u8 list \<Rightarrow> f32 list" where
  "pcm16_samples (a # b # rest) = pcm16_sample (u16_from_le_bytes a b) # pcm16_samples rest"
| "pcm16_samples _ = []"

fun f32_samples :: "u8 list \<Rightarrow> f32 list" where
  "f32_samples (a # b # c # d # rest) = f32_of_bits (u32_from_le_bytes a b c d) # f32_samples rest"
| "f32_samples _ = []"

definition decode_pcm16 :: "u8 list \<Rightarrow> fault + f32 list" where
  "decode_pcm16 data =
     (if length data mod 2 \<noteq> 0
      then Inl (Err (UnsupportedAudio (''Pcm16Le payload byte length '' @ show_nat (length data) @ '' is not a multiple of 2'')))
      else Inr (pcm16_samples data))"

definition decode_pcm_f32 :: "u8 list \<Rightarrow> fault + f32 list" where
  "decode_pcm_f32 data =
     (if length data mod 4 \<noteq> 0
      then Inl (Err (UnsupportedAudio (''PcmF32Le payload byte length '' @ show_nat (length data) @ '' is not a multiple of 4'')))
      else Inr (f32_samples data))"

section \<open>WAV\<close>

definition bytes_of :: "string \<Rightarrow> u8 list" where
  "bytes_of s = map (\<lambda>c. word_of_nat (byte_of c)) s"

definition slice :: "nat \<Rightarrow> nat \<Rightarrow> u8 list \<Rightarrow> u8 list option" where
  "slice a b xs = (if a \<le> b \<and> b \<le> length xs then Some (take (b - a) (drop a xs)) else None)"

record wav_state =
  fmt_tag :: "u16 option"
  w_channels :: "u16 option"
  w_sample_rate :: "u32 option"
  bits_per_sample :: "u16 option"
  audio :: "u8 list option"

definition wav_start :: wav_state where
  "wav_start = \<lparr>fmt_tag = None, w_channels = None, w_sample_rate = None, bits_per_sample = None, audio = None\<rparr>"

definition wav_chunk :: "u8 list \<Rightarrow> u8 list \<Rightarrow> wav_state \<Rightarrow> wav_state" where
  "wav_chunk cid body st =
     (if cid = bytes_of ''fmt '' \<and> 16 \<le> length body
      then st\<lparr>fmt_tag := Some (u16_from_le_bytes (body ! 0) (body ! 1)),
              w_channels := Some (u16_from_le_bytes (body ! 2) (body ! 3)),
              w_sample_rate := Some (u32_from_le_bytes (body ! 4) (body ! 5) (body ! 6) (body ! 7)),
              bits_per_sample := Some (u16_from_le_bytes (body ! 14) (body ! 15))\<rparr>
      else if cid = bytes_of ''data'' then st\<lparr>audio := Some body\<rparr>
      else st)"

function wav_loop :: "(u8 list \<Rightarrow> string) \<Rightarrow> u8 list \<Rightarrow> nat \<Rightarrow> wav_state \<Rightarrow> fault + wav_state" where
  "wav_loop lossy data pos st =
     (if length data < pos + 8 then Inr st
      else case (slice pos (pos + 4) data, slice (pos + 4) (pos + 8) data) of
        (Some cid, Some [a, b, c, d]) \<Rightarrow>
          (let size = unat (u32_from_le_bytes a b c d); body_start = pos + 8; body_end = body_start + size in
           if 2 ^ 64 \<le> body_end then Inl (Err (UnsupportedAudio ''WAV: chunk size overflow''))
           else if length data < body_end
             then Inl (Err (UnsupportedAudio (''WAV: chunk `'' @ lossy cid @ ''` extends past EOF'')))
           else case slice body_start body_end data of
               None \<Rightarrow> Inl Panic
             | Some body \<Rightarrow>
                 wav_loop lossy data (body_start + (if size mod 2 = 0 then size else size + 1)) (wav_chunk cid body st))
      | _ \<Rightarrow> Inl Panic)"
  by pat_completeness auto
termination by (relation "measure (\<lambda>(_, data, pos, _). length data - pos)") auto

declare wav_loop.simps [simp del]

definition wav_finish :: "wav_state \<Rightarrow> fault + f32 list" where
  "wav_finish st =
     (case fmt_tag st of None \<Rightarrow> Inl (Err (UnsupportedAudio ''WAV: missing fmt chunk''))
      | Some tag \<Rightarrow>
          (let ch = (case w_channels st of None \<Rightarrow> 0 | Some c \<Rightarrow> c);
               rate = (case w_sample_rate st of None \<Rightarrow> 0 | Some r \<Rightarrow> r);
               bits = (case bits_per_sample st of None \<Rightarrow> 0 | Some b \<Rightarrow> b) in
           case audio st of None \<Rightarrow> Inl (Err (UnsupportedAudio ''WAV: missing data chunk''))
           | Some body \<Rightarrow>
               if ch \<noteq> 1 then Inl (Err (UnsupportedAudio (''WAV: expected mono, got '' @ show_word ch @ '' channels'')))
               else if rate \<noteq> 16000 then Inl (Err (UnsupportedAudio (''WAV: expected 16000 Hz, got '' @ show_word rate @ '' Hz'')))
               else if tag = 1 \<and> bits = 16 then decode_pcm16 body
               else if tag = 3 \<and> bits = 32 then decode_pcm_f32 body
               else Inl (Err (UnsupportedAudio
                 (''WAV: only PCM-16 (fmt 1, 16-bit) or IEEE-FLOAT (fmt 3, 32-bit) supported; got fmt '' @
                  show_word tag @ ''/'' @ show_word bits @ ''-bit'')))))"

definition decode_wav :: "(u8 list \<Rightarrow> string) \<Rightarrow> u8 list \<Rightarrow> fault + f32 list" where
  "decode_wav lossy data =
     (if length data < 12 \<or> slice 0 4 data \<noteq> Some (bytes_of ''RIFF'') \<or> slice 8 12 data \<noteq> Some (bytes_of ''WAVE'')
      then Inl (Err (UnsupportedAudio ''WAV: missing RIFF/WAVE header''))
      else case wav_loop lossy data 12 wav_start of Inl f \<Rightarrow> Inl f | Inr st \<Rightarrow> wav_finish st)"

section \<open>Payloads\<close>

fun show_format :: "audio_format \<Rightarrow> string" where
  "show_format Pcm16Le = ''Pcm16Le''"
| "show_format Pcm24Le = ''Pcm24Le''"
| "show_format PcmF32Le = ''PcmF32Le''"
| "show_format OggOpus = ''OggOpus''"
| "show_format Mp3 = ''Mp3''"
| "show_format Flac = ''Flac''"
| "show_format Wav = ''Wav''"

definition decode_bytes :: "(u8 list \<Rightarrow> string) \<Rightarrow> u8 list \<Rightarrow> audio_params \<Rightarrow> fault + f32 list" where
  "decode_bytes lossy data p = (case ap_format p of
     Pcm16Le \<Rightarrow> decode_pcm16 data
   | PcmF32Le \<Rightarrow> decode_pcm_f32 data
   | Wav \<Rightarrow> decode_wav lossy data
   | f \<Rightarrow> Inl (Err (UnsupportedAudio (''format '' @ show_format f @
       '' not handled by whisper-local; supply Pcm16Le, PcmF32Le or Wav''))))"

definition check_params :: "audio_params \<Rightarrow> u32 \<Rightarrow> fault + unit" where
  "check_params p rate =
     (if sample_rate_hz p \<noteq> rate
      then Inl (Err (UnsupportedAudio (''expected '' @ show_word rate @ '' Hz, got '' @ show_word (sample_rate_hz p) @
        '' Hz (resample upstream '' @ map char_of [226 :: nat, 128, 148] @ '' whisper.cpp is hard-coded to 16 kHz)'')))
      else if channels p \<noteq> 1
      then Inl (Err (UnsupportedAudio (''expected mono, got '' @ show_word (channels p) @ '' channels (mix down upstream)'')))
      else Inr ())"

definition read_file :: "file_system \<Rightarrow> string \<Rightarrow> fault + u8 list" where
  "read_file fs path = (case fs path of
     Inr d \<Rightarrow> Inr d
   | Inl NotFound \<Rightarrow> Inl (Err (UnsupportedAudio (''audio file not found at '' @ path)))
   | Inl (OtherIo e) \<Rightarrow> Inl (Err (UnsupportedAudio (''audio file io error at '' @ path @ '': '' @ e))))"

fun payload_to_f32_pcm :: "(u8 list \<Rightarrow> string) \<Rightarrow> file_system \<Rightarrow> audio_payload \<Rightarrow> u32 \<Rightarrow> fault + f32 list" where
  "payload_to_f32_pcm lossy fs (Bytes data p) rate = (case check_params p rate of
     Inl e \<Rightarrow> Inl e
   | Inr _ \<Rightarrow> decode_bytes lossy data p)"
| "payload_to_f32_pcm lossy fs (Path path p) rate = (case check_params p rate of
     Inl e \<Rightarrow> Inl e
   | Inr _ \<Rightarrow> (case read_file fs path of Inl e \<Rightarrow> Inl e | Inr d \<Rightarrow> decode_bytes lossy d p))"
| "payload_to_f32_pcm lossy fs (Url u p) rate =
     Inl (Err (UnsupportedAudio ''AudioPayload::Url not implemented for local whisper.cpp; fetch upstream''))"

section \<open>Slices and little-endian numbers\<close>

lemma slice_middle:
  "a = length pre \<Longrightarrow> b = length pre + length mid \<Longrightarrow> slice a b (pre @ mid @ suf) = Some mid"
  by (simp add: slice_def)

lemma slice_some: "a \<le> b \<Longrightarrow> b \<le> length xs \<Longrightarrow> \<exists>ys. slice a b xs = Some ys \<and> length ys = b - a"
  by (simp add: slice_def)

lemma length_4: "length ys = 4 \<Longrightarrow> \<exists>a b c d. ys = [a, b, c, d]"
  by (auto simp: eval_nat_numeral length_Suc_conv)

definition le_bytes16 :: "u16 \<Rightarrow> u8 list" where
  "le_bytes16 w = [ucast w, ucast (drop_bit 8 w)]"

definition le_bytes32 :: "u32 \<Rightarrow> u8 list" where
  "le_bytes32 w = [ucast w, ucast (drop_bit 8 w), ucast (drop_bit 16 w), ucast (drop_bit 24 w)]"

lemma u16_roundtrip: "u16_from_le_bytes (ucast w) (ucast (drop_bit 8 w)) = w"
  unfolding u16_from_le_bytes_def by (rule bit_word_eqI) (auto simp: bit_simps)

lemma u32_roundtrip:
  "u32_from_le_bytes (ucast w) (ucast (drop_bit 8 w)) (ucast (drop_bit 16 w)) (ucast (drop_bit 24 w)) = w"
  unfolding u32_from_le_bytes_def
proof (rule bit_word_eqI)
  fix n assume "n < LENGTH(32)"
  then have n: "n < 32" by simp
  consider "n < 8" | "8 \<le> n" "n < 16" | "16 \<le> n" "n < 24" | "24 \<le> n" by linarith
  then show "bit ((ucast (ucast w :: u8) :: u32) OR push_bit 8 (ucast (ucast (drop_bit 8 w) :: u8)) OR
      push_bit 16 (ucast (ucast (drop_bit 16 w) :: u8)) OR push_bit 24 (ucast (ucast (drop_bit 24 w) :: u8))) n = bit w n"
    using n by cases (auto simp: bit_simps)
qed

lemma pcm16_samples_bytes: "pcm16_samples (concat (map le_bytes16 ss)) = map pcm16_sample ss"
  by (induction ss) (simp_all add: le_bytes16_def u16_roundtrip)

lemma length_le_bytes16 [simp]: "length (concat (map le_bytes16 ss)) = 2 * length ss"
  by (induction ss) (simp_all add: le_bytes16_def)

section \<open>The chunk walker\<close>

text \<open>A chunk on disk: four bytes of name, the length, the body, and a padding byte after an odd body.\<close>

fun riff_chunk :: "u8 list \<times> u8 list \<Rightarrow> u8 list" where
  "riff_chunk (cid, body) =
     cid @ le_bytes32 (word_of_nat (length body)) @ body @ (if length body mod 2 = 0 then [] else [0])"

fun chunk_ok :: "u8 list \<times> u8 list \<Rightarrow> bool" where
  "chunk_ok (cid, body) \<longleftrightarrow> length cid = 4 \<and> length body < 2 ^ 32"

definition apply_chunk :: "wav_state \<Rightarrow> u8 list \<times> u8 list \<Rightarrow> wav_state" where
  "apply_chunk st ch = wav_chunk (fst ch) (snd ch) st"

lemma wav_loop_step:
  assumes "slice pos (pos + 4) data = Some cid" "slice (pos + 4) (pos + 8) data = Some (le_bytes32 (word_of_nat n))"
    "n < 2 ^ 32" "slice (pos + 8) (pos + 8 + n) data = Some body" "length data < 2 ^ 64"
  shows "wav_loop lossy data pos st =
    wav_loop lossy data (pos + 8 + (if n mod 2 = 0 then n else n + 1)) (wav_chunk cid body st)"
proof -
  have "unat (word_of_nat n :: u32) = n" using assms(3) by (simp add: unat_of_nat)
  moreover have "pos + 8 + n \<le> length data" using assms(4) by (simp add: slice_def split: if_splits)
  ultimately show ?thesis
    using assms by (subst wav_loop.simps) (simp add: le_bytes32_def u32_roundtrip Let_def)
qed

lemma wav_loop_chunk:
  assumes "length cid = 4" "length body < 2 ^ 32" "length (pre @ riff_chunk (cid, body) @ suf) < 2 ^ 64"
  shows "wav_loop lossy (pre @ riff_chunk (cid, body) @ suf) (length pre) st =
    wav_loop lossy (pre @ riff_chunk (cid, body) @ suf) (length (pre @ riff_chunk (cid, body))) (wav_chunk cid body st)"
proof -
  let ?le = "le_bytes32 (word_of_nat (length body))" and ?pad = "if length body mod 2 = 0 then [] else [0 :: u8]"
  let ?d = "pre @ riff_chunk (cid, body) @ suf"
  have le: "length ?le = 4" by (simp add: le_bytes32_def)
  have d: "?d = pre @ cid @ ?le @ body @ ?pad @ suf" by simp
  have s1: "slice (length pre) (length pre + 4) ?d = Some cid"
    unfolding d by (rule slice_middle) (simp_all add: assms(1))
  have s2: "slice (length pre + 4) (length pre + 8) ?d = Some ?le"
    using slice_middle [of "length pre + 4" "pre @ cid" "length pre + 8" ?le "body @ ?pad @ suf"] assms(1) le
    by (simp add: d)
  have s3: "slice (length pre + 8) (length pre + 8 + length body) ?d = Some body"
    using slice_middle [of "length pre + 8" "pre @ cid @ ?le" "length pre + 8 + length body" body "?pad @ suf"] assms(1) le
    by (simp add: d)
  have "length (pre @ riff_chunk (cid, body)) = length pre + 8 + (if length body mod 2 = 0 then length body else length body + 1)"
    using assms(1) le by simp
  then show ?thesis using wav_loop_step [OF s1 s2 assms(2) s3 assms(3), of lossy st] by metis
qed

lemma wav_loop_chunks:
  assumes "list_all chunk_ok cs" "length rest < 8" "length (pre @ concat (map riff_chunk cs) @ rest) < 2 ^ 64"
  shows "wav_loop lossy (pre @ concat (map riff_chunk cs) @ rest) (length pre) st = Inr (foldl apply_chunk st cs)"
  using assms
proof (induction cs arbitrary: pre st)
  case Nil
  then show ?case by (subst wav_loop.simps) simp
next
  case (Cons ch cs)
  obtain cid body where ch: "ch = (cid, body)" by (cases ch)
  then show ?case
    using Cons.prems Cons.IH [of "pre @ riff_chunk (cid, body)" "wav_chunk cid body st"]
      wav_loop_chunk [of cid body pre "concat (map riff_chunk cs) @ rest" lossy st]
    by (simp add: apply_chunk_def del: riff_chunk.simps)
qed

text \<open>The two outcomes the decoder may have: a value, or a refusal.\<close>

definition value_or_unsupported :: "fault + 'a \<Rightarrow> bool" where
  "value_or_unsupported r \<longleftrightarrow> (\<exists>v. r = Inr v) \<or> (\<exists>m. r = Inl (Err (UnsupportedAudio m)))"

lemma value_or_unsupported_simps [simp]:
  "value_or_unsupported (Inr v)" "value_or_unsupported (Inl (Err (UnsupportedAudio m)))"
  by (simp_all add: value_or_unsupported_def)

lemma wav_loop_no_panic: "value_or_unsupported (wav_loop lossy data pos st)"
proof (induction lossy data pos st rule: wav_loop.induct)
  case (1 lossy data pos st)
  show ?case
  proof (cases "length data < pos + 8")
    case False
    obtain cid where c: "slice pos (pos + 4) data = Some cid" using slice_some [of pos "pos + 4" data] False by auto
    obtain sz where "slice (pos + 4) (pos + 8) data = Some sz" "length sz = 4"
      using slice_some [of "pos + 4" "pos + 8" data] False by auto
    then obtain x y z w where sz: "slice (pos + 4) (pos + 8) data = Some [x, y, z, w]" using length_4 by blast
    let ?size = "unat (u32_from_le_bytes x y z w)"
    show ?thesis
    proof (cases "length data < pos + 8 + ?size")
      case True
      then show ?thesis using False c sz by (subst wav_loop.simps) (simp add: Let_def)
    next
      case fits: False
      obtain body where "slice (pos + 8) (pos + 8 + ?size) data = Some body"
        using slice_some [of "pos + 8" "pos + 8 + ?size" data] fits by auto
      then show ?thesis using False fits c sz 1 by (subst wav_loop.simps) (simp add: Let_def)
    qed
  qed (subst wav_loop.simps, simp)
qed

section \<open>Samples in range\<close>

lemma f32_int_exact: "\<bar>k\<bar> \<le> 2 ^ 24 \<Longrightarrow> f32_of_rat (of_int k) = Fin (of_int k)"
proof -
  assume k: "\<bar>k\<bar> \<le> 2 ^ 24"
  have "round_pos 24 (- 149) (of_int \<bar>k\<bar>) = of_int \<bar>k\<bar>"
    using k by (intro round_pos_exact [where m = "\<bar>k\<bar>" and k = 0]) simp_all
  then have r: "round_fp 24 (- 149) (of_int k) = of_int k" by (cases "0 \<le> k") (simp_all add: round_fp_def)
  have "\<bar>of_int k :: rat\<bar> \<le> 2 ^ 24" using k by (metis of_int_abs of_int_le_iff of_int_numeral of_int_power)
  then have "(of_int k :: rat) < 2 ^ 128" "- (2 ^ 128) < (of_int k :: rat)" by (simp_all add: abs_le_iff)
  then show ?thesis using r by (simp add: f32_of_rat_def)
qed

lemma sint_u16_range: "- 32768 \<le> sint (s :: u16) \<and> sint s \<le> 32767"
  using sint_ge [of s] sint_less [of s] by simp

lemma round_min: "round_fp 24 (- 149) (- 32768 / 32767) = - 32769 / 32768"
proof -
  have l: "ilog2 (32768 / 32767) = 0" by (rule ilog2_unique) simp_all
  then have u: "ulp_exp 24 (- 149) (32768 / 32767) = - 23" by (simp add: ulp_exp_def)
  have "\<lfloor>(32768 / 32767 / 2 powi (- 23) :: rat)\<rfloor> = 8388864" by (simp add: power_int_minus floor_eq_iff)
  then have "rne (32768 / 32767 / 2 powi (- 23)) = 8388864" by (simp add: rne_def power_int_minus)
  then show ?thesis using u by (simp add: round_fp_def round_pos_def power_int_minus)
qed

lemma round_unit: "round_fp 24 (- 149) 1 = 1"
proof -
  have "round_pos 24 (- 149) 1 = 1" by (rule round_pos_exact [where m = 1 and k = 0]) simp_all
  then show ?thesis by (simp add: round_fp_def)
qed

lemma pcm16_round_range:
  "- 32769 / 32768 \<le> round_fp 24 (- 149) (of_int (sint (s :: u16)) / 32767)"
  "round_fp 24 (- 149) (of_int (sint (s :: u16)) / 32767) \<le> 1"
proof -
  have b: "(- 32768 :: rat) \<le> of_int (sint s)" "(of_int (sint s) :: rat) \<le> 32767"
    using sint_u16_range [of s] by linarith+
  show "- 32769 / 32768 \<le> round_fp 24 (- 149) (of_int (sint s) / 32767)"
    using round_fp_mono [of 24 "- 32768 / 32767" "of_int (sint s) / 32767" "- 149"] b(1) by (simp add: round_min [simplified])
  show "round_fp 24 (- 149) (of_int (sint s) / 32767) \<le> 1"
    using round_fp_mono [of 24 "of_int (sint s) / 32767" 1 "- 149"] b(2) by (simp add: round_unit)
qed

lemma pcm16_sample_round:
  "pcm16_sample s = Fin (round_fp 24 (- 149) (of_int (sint s) / 32767))"
proof -
  have "\<bar>sint s\<bar> \<le> 2 ^ 24" using sint_u16_range [of s] by (simp add: abs_le_iff)
  then have "f32_of_rat (of_int (sint s)) = Fin (of_int (sint s))" by (rule f32_int_exact)
  moreover have "f32_of_rat 32767 = Fin 32767" using f32_int_exact [of 32767] by simp
  moreover have "round_fp 24 (- 149) (of_int (sint s) / 32767) < 2 ^ 128"
    by (rule order_le_less_trans [OF pcm16_round_range(2)]) simp
  moreover have "- (2 ^ 128) < round_fp 24 (- 149) (of_int (sint s) / 32767)"
    by (rule order_less_le_trans [OF _ pcm16_round_range(1)]) simp
  ultimately show ?thesis by (simp add: pcm16_sample_def f32_of_rat_def)
qed

section \<open>Clean outcomes\<close>

lemma value_or_unsupported_bind:
  "value_or_unsupported r \<Longrightarrow> (\<And>v. value_or_unsupported (f v)) \<Longrightarrow>
   value_or_unsupported (case r of Inl e \<Rightarrow> Inl e | Inr v \<Rightarrow> f v)"
  by (cases r) (auto simp: value_or_unsupported_def)

lemma pcm_clean: "value_or_unsupported (decode_pcm16 d)" "value_or_unsupported (decode_pcm_f32 d)"
  by (simp_all add: decode_pcm16_def decode_pcm_f32_def)

lemma wav_finish_clean: "value_or_unsupported (wav_finish st)"
  by (simp add: wav_finish_def Let_def pcm_clean split: option.split)

lemma decode_wav_clean: "value_or_unsupported (decode_wav lossy data)"
  unfolding decode_wav_def by (simp add: value_or_unsupported_bind wav_loop_no_panic wav_finish_clean)

lemma decode_bytes_clean: "value_or_unsupported (decode_bytes lossy data p)"
  by (simp add: decode_bytes_def pcm_clean decode_wav_clean split: audio_format.split)

lemma payload_clean: "value_or_unsupported (payload_to_f32_pcm lossy fs p rate)"
proof (cases p)
  case (Path path ps)
  have "value_or_unsupported (read_file fs path)"
    by (simp add: read_file_def split: sum.split io_error.split)
  then show ?thesis
    unfolding Path payload_to_f32_pcm.simps
    by (intro value_or_unsupported_bind decode_bytes_clean) (simp_all add: check_params_def)
next
  case (Bytes data ps)
  show ?thesis
    unfolding Bytes payload_to_f32_pcm.simps
    by (intro value_or_unsupported_bind decode_bytes_clean) (simp add: check_params_def)
qed simp

section \<open>Properties\<close>

text \<open>A chunk the decoder skips, and the format chunk of mono audio at 16 kHz.\<close>

fun other_chunk :: "u8 list \<times> u8 list \<Rightarrow> bool" where
  "other_chunk (cid, body) \<longleftrightarrow> chunk_ok (cid, body) \<and> cid \<noteq> bytes_of ''fmt '' \<and> cid \<noteq> bytes_of ''data''"

definition fmt_body :: "u16 \<Rightarrow> u16 \<Rightarrow> u8 list \<Rightarrow> u8 list \<Rightarrow> u8 list" where
  "fmt_body tag bits mid tail = le_bytes16 tag @ le_bytes16 1 @ le_bytes32 16000 @ mid @ le_bytes16 bits @ tail"

lemma foldl_other_chunks: "list_all other_chunk cs \<Longrightarrow> foldl apply_chunk st cs = st"
  by (induction cs arbitrary: st) (auto simp: apply_chunk_def wav_chunk_def)

lemma wav_chunk_fmt:
  assumes "length mid = 6"
  shows "wav_chunk (bytes_of ''fmt '') (fmt_body tag bits mid tail) st =
    st\<lparr>fmt_tag := Some tag, w_channels := Some 1, w_sample_rate := Some 16000, bits_per_sample := Some bits\<rparr>"
proof -
  obtain a b c d e f where "mid = [a, b, c, d, e, f]" using assms by (auto simp: eval_nat_numeral length_Suc_conv)
  then show ?thesis
    using u16_roundtrip [of tag] u16_roundtrip [of bits] u16_roundtrip [of 1] u32_roundtrip [of 16000]
    by (simp add: wav_chunk_def fmt_body_def le_bytes16_def le_bytes32_def)
qed

lemma wav_chunk_data: "wav_chunk (bytes_of ''data'') body st = st\<lparr>audio := Some body\<rparr>"
  by (simp add: wav_chunk_def bytes_of_def byte_of_def)

definition wav_file :: "u8 list \<Rightarrow> (u8 list \<times> u8 list) list \<Rightarrow> u8 list \<Rightarrow> u8 list" where
  "wav_file sz cs rest = bytes_of ''RIFF'' @ sz @ bytes_of ''WAVE'' @ concat (map riff_chunk cs) @ rest"

lemma decode_wav_file:
  assumes "length sz = 4" "list_all chunk_ok cs" "length rest < 8" "length (wav_file sz cs rest) < 2 ^ 64"
  shows "decode_wav lossy (wav_file sz cs rest) = wav_finish (foldl apply_chunk wav_start cs)"
proof -
  let ?pre = "bytes_of ''RIFF'' @ sz @ bytes_of ''WAVE''"
  have f: "wav_file sz cs rest = ?pre @ concat (map riff_chunk cs) @ rest" by (simp add: wav_file_def)
  have p: "length ?pre = 12" using assms(1) by (simp add: bytes_of_def)
  have "slice 0 4 (wav_file sz cs rest) = Some (bytes_of ''RIFF'')"
    using slice_middle [of 0 "[]" 4 "bytes_of ''RIFF''" "sz @ bytes_of ''WAVE'' @ concat (map riff_chunk cs) @ rest"]
    by (simp add: wav_file_def bytes_of_def)
  moreover have "slice 8 12 (wav_file sz cs rest) = Some (bytes_of ''WAVE'')"
    using slice_middle [of 8 "bytes_of ''RIFF'' @ sz" 12 "bytes_of ''WAVE''" "concat (map riff_chunk cs) @ rest"] assms(1)
    by (simp add: wav_file_def bytes_of_def)
  moreover have "wav_loop lossy (wav_file sz cs rest) 12 wav_start = Inr (foldl apply_chunk wav_start cs)"
    using wav_loop_chunks [of cs rest ?pre lossy wav_start] assms(2,3,4) p f by simp
  ultimately show ?thesis using p by (simp add: decode_wav_def f)
qed

text \<open>C17: WAV files are read back.  For every list of 16-bit samples, a RIFF/WAVE file that holds them in its
  data chunk after a mono, 16 kHz, PCM-16 format chunk is decoded to exactly those samples, in order,
  whatever other chunks stand before, between and after (odd lengths and their padding included), whatever the
  bytes of the format chunk the decoder does not read, and whatever shorter than a chunk header follows.\<close>

theorem wav_pcm16_roundtrip:
  assumes "length sz = 4" "length mid = 6" "length rest < 8"
    "list_all other_chunk before" "list_all other_chunk between" "list_all other_chunk after"
    "length tail < 2 ^ 31" "length samples < 2 ^ 31"
    "length (wav_file sz (before @ (bytes_of ''fmt '', fmt_body 1 16 mid tail) # between @
       (bytes_of ''data'', concat (map le_bytes16 samples)) # after) rest) < 2 ^ 64"
  shows "decode_wav lossy (wav_file sz (before @ (bytes_of ''fmt '', fmt_body 1 16 mid tail) # between @
       (bytes_of ''data'', concat (map le_bytes16 samples)) # after) rest) = Inr (map pcm16_sample samples)"
proof -
  let ?cs = "before @ (bytes_of ''fmt '', fmt_body 1 16 mid tail) # between @
       (bytes_of ''data'', concat (map le_bytes16 samples)) # after"
  have ok: "list_all chunk_ok cs" if "list_all other_chunk cs" for cs
    using that by (induction cs) auto
  have "list_all chunk_ok ?cs"
    using assms ok by (simp add: bytes_of_def fmt_body_def le_bytes16_def le_bytes32_def)
  then have "decode_wav lossy (wav_file sz ?cs rest) = wav_finish (foldl apply_chunk wav_start ?cs)"
    using assms by (intro decode_wav_file)
  also have "foldl apply_chunk wav_start ?cs = \<lparr>fmt_tag = Some 1, w_channels = Some 1, w_sample_rate = Some 16000,
      bits_per_sample = Some 16, audio = Some (concat (map le_bytes16 samples))\<rparr>"
    using assms by (simp add: foldl_other_chunks apply_chunk_def wav_chunk_fmt wav_chunk_data wav_start_def)
  also have "wav_finish \<dots> = Inr (map pcm16_sample samples)"
    by (simp add: wav_finish_def decode_pcm16_def pcm16_samples_bytes)
  finally show ?thesis .
qed

theorem wav_pcm16_roundtrip_witness:
  "decode_wav (\<lambda>_. []) (wav_file [0, 0, 0, 0] ([(bytes_of ''LIST'', [7])] @ (bytes_of ''fmt '', fmt_body 1 16 [0, 125, 0, 0, 2, 0] []) # [] @
       (bytes_of ''data'', concat (map le_bytes16 [0, 0x7fff, 0x8000])) # []) [1]) = Inr (map pcm16_sample [0, 0x7fff, 0x8000])"
  by (rule wav_pcm16_roundtrip)
    (simp_all add: bytes_of_def byte_of_def wav_file_def fmt_body_def le_bytes16_def le_bytes32_def)


text \<open>Decoded samples are finite, at most one and at least \<open>-32769/32768\<close>, and their order is the order
  of the 16-bit samples: the largest sample decodes to exactly one.  The lower bound is below \<open>-1\<close> because
  the divisor is \<^verbatim>\<open>i16::MAX\<close>.\<close>

theorem pcm16_sample_bounds:
  "\<exists>x. pcm16_sample s = Fin x \<and> - 32769 / 32768 \<le> x \<and> x \<le> 1 \<and>
    (sint t \<le> sint s \<longrightarrow> fp_le (pcm16_sample t) (pcm16_sample s)) \<and> pcm16_sample 0x7fff = Fin 1"
proof -
  have "pcm16_sample 0x7fff = Fin 1" by (simp add: pcm16_sample_round round_unit)
  moreover have "fp_le (pcm16_sample t) (pcm16_sample s)" if le: "sint t \<le> sint s"
  proof -
    have "(of_int (sint t) / 32767 :: rat) \<le> of_int (sint s) / 32767" 
      by (rule divide_right_mono, unfold of_int_le_iff, rule le, simp)
    then have "round_fp 24 (- 149) (of_int (sint t) / 32767) \<le> round_fp 24 (- 149) (of_int (sint s) / 32767)"
      by (intro round_fp_mono) simp_all
    then show ?thesis by (auto simp: pcm16_sample_round fp_le_def)
  qed
  ultimately show ?thesis using pcm16_round_range [of s] by (simp add: pcm16_sample_round)
qed

theorem pcm16_sample_bounds_witness:
  "sint (0 :: u16) \<le> sint (5 :: u16) \<and> fp_le (pcm16_sample 0) (pcm16_sample 5)"
  using pcm16_sample_bounds [of 5 0] by auto

end
