(* ===== verification/Provider_Http.thy ===== *)
theory Provider_Http
  imports Classify Session
begin

text \<open>
  What the three text providers share: server-sent events (\<^verbatim>\<open>inference-remote-core/src/sse.rs\<close>), HTTP
  requests and answers, and the treatment of an answer that is the same in the three \<^verbatim>\<open>execute\<close> functions.
  The transport (\<^verbatim>\<open>reqwest\<close>), the event-stream parser, the JSON decoder, the validation of header values
  and the URL library are fields of the environment record.
  The locale \<open>event_lifter\<close> states what the providers' translation of one event promises (the request's
  id, at most one chunk) and derives facts about a whole streamed answer; each provider interprets it.
\<close>

section \<open>Server-sent events\<close>

record sse_chunk =
  sse_event :: "string option"
  sse_data :: string

definition decode_sse_stream :: "((inference_error + u8 list) list \<Rightarrow> (string + string \<times> string) list) \<Rightarrow>
    (string + u8 list) list \<Rightarrow> (inference_error + sse_chunk) list" where
  "decode_sse_stream eventsource body =
     map (\<lambda>res. case res of
            Inr (ev, d) \<Rightarrow> Inr \<lparr>sse_event = (if ev = [] then None else Some ev), sse_data = d\<rparr>
          | Inl e \<Rightarrow> Inl (NetworkError (''sse decode: '' @ e)))
       (eventsource (map (\<lambda>res. case res of Inr b \<Rightarrow> Inr b | Inl e \<Rightarrow> Inl (NetworkError e)) body))"

section \<open>JSON values\<close>

datatype 'n json =
    JNull
  | JBool bool
  | JNumber 'n
  | JString string
  | JArray "'n json list"
  | JObject "(string \<times> 'n json) list"

fun json_as_str :: "'n json \<Rightarrow> string option" where
  "json_as_str (JString s) = Some s"
| "json_as_str _ = None"

section \<open>System prompts\<close>

text \<open>The texts of the system messages, and their lines joined; a system message made of parts has no text.\<close>

definition system_texts :: "message list \<Rightarrow> string list" where
  "system_texts ms = List.map_filter (\<lambda>m. case content m of
     message_content.Text s \<Rightarrow> if role m = System then Some s else None | _ \<Rightarrow> None) ms"

definition system_prompt :: "message list \<Rightarrow> string option" where
  "system_prompt ms = (if system_texts ms = [] then None else Some (join_lines (system_texts ms)))"

lemma system_texts_snoc:
  "system_texts (ms @ [m]) = system_texts ms @ (case content m of
     message_content.Text s \<Rightarrow> if role m = System then [s] else [] | _ \<Rightarrow> [])"
  by (induction ms) (auto simp: system_texts_def List.map_filter_simps split: message_content.splits option.splits)

lemma system_prompt_snoc:
  "system_prompt (ms @ [m]) = (case content m of
     message_content.Text s \<Rightarrow>
       if role m = System
       then (case system_prompt ms of None \<Rightarrow> Some s | Some p \<Rightarrow> Some (p @ newline # s))
       else system_prompt ms
   | _ \<Rightarrow> system_prompt ms)"
  by (auto simp: system_prompt_def system_texts_snoc join_lines_snoc split: message_content.splits)

section \<open>Requests and answers\<close>

record 'b http_request =
  rq_url :: string
  rq_headers :: "(string \<times> string) list"
  rq_body :: 'b

record http_response =
  hs_status :: u16
  hs_retry_after :: "string option"
  hs_text :: "string option"
  hs_bytes :: "(string + u8 list) list"

definition is_success :: "u16 \<Rightarrow> bool" where
  "is_success s \<longleftrightarrow> 200 \<le> s \<and> s < 300"

record ('b, 'ev, 'r, 'eb) http_env =
  send :: "'b http_request \<Rightarrow> string + http_response"
  eventsource :: "(inference_error + u8 list) list \<Rightarrow> (string + string \<times> string) list"
  event_json :: "string \<Rightarrow> string + 'ev"
  answer_json :: "http_response \<Rightarrow> string + 'r"
  error_json :: "string \<Rightarrow> 'eb option"
  lower :: "string \<Rightarrow> string"
  rfc2822 :: "string \<Rightarrow> int option"
  unix_now :: int
  header_value :: "string \<Rightarrow> string + string"
  url_join :: "string \<Rightarrow> string \<Rightarrow> string + string"
  url_parse :: "string \<Rightarrow> string + string"
  append_pair :: "string \<Rightarrow> string \<Rightarrow> string \<Rightarrow> string"

text \<open>\<^verbatim>\<open>filter_map\<close> over the decoded stream: an event may vanish, an error is passed on.\<close>

definition lift_stream :: "(sse_chunk \<Rightarrow> (inference_error + 'j token_chunk) option) \<Rightarrow>
    (inference_error + sse_chunk) list \<Rightarrow> (inference_error + 'j token_chunk) list" where
  "lift_stream lift items = List.map_filter (\<lambda>item. case item of Inr c \<Rightarrow> lift c | Inl e \<Rightarrow> Some (Inl e)) items"

lemma lift_stream_simps [simp]:
  "lift_stream lift [] = []"
  "lift_stream lift (Inl e # items) = Inl e # lift_stream lift items"
  "lift_stream lift (Inr c # items) =
     (case lift c of None \<Rightarrow> lift_stream lift items | Some x \<Rightarrow> x # lift_stream lift items)"
  by (simp_all add: lift_stream_def List.map_filter_simps split: option.splits)

lemma lift_stream_append: "lift_stream lift (xs @ ys) = lift_stream lift xs @ lift_stream lift ys"
  by (induction xs) (auto simp: lift_stream_def List.map_filter_simps split: sum.splits option.splits)

text \<open>
  What a provider promises of the translation of one event: a chunk carries the request's id, and its text
  is the text \<open>event_text\<close> of the event, which is empty for an event that yields no chunk.
\<close>

locale event_lifter =
  fixes lift :: "string \<Rightarrow> sse_chunk \<Rightarrow> (inference_error + 'j token_chunk) option"
    and event_text :: "sse_chunk \<Rightarrow> string"
  assumes chunk: "lift rid c = Some (Inr t) \<Longrightarrow> tc_request_id t = rid \<and> text_delta t = event_text c"
    and silent: "lift rid c = None \<Longrightarrow> event_text c = []"
    and failed: "lift rid c = Some (Inl e) \<Longrightarrow> event_text c = []"
begin

lemma stream_ids: "Inr t \<in> set (lift_stream (lift rid) items) \<Longrightarrow> tc_request_id t = rid"
proof (induction items)
  case (Cons x items)
  then show ?case by (cases x) (auto dest: chunk split: option.splits)
qed simp

lemma stream_text:
  "answer_text (lift_stream (lift rid) items) = concat (map (\<lambda>x. case x of Inr c \<Rightarrow> event_text c | Inl _ \<Rightarrow> []) items)"
proof (induction items)
  case (Cons x items)
  show ?case
  proof (cases x)
    case (Inr c)
    consider "lift rid c = None" | e where "lift rid c = Some (Inl e)" | t where "lift rid c = Some (Inr t)"
      by (metis not_None_eq sum.exhaust)
    then show ?thesis using Inr Cons.IH by cases (simp_all add: chunk silent failed)
  qed (use Cons.IH in simp)
qed simp

lemma stream_length: "length (lift_stream (lift rid) items) \<le> length items"
proof (induction items)
  case (Cons x items)
  then show ?case by (cases x) (auto split: option.splits)
qed simp

end

end
