(* ===== verification/Provider_OpenAi.thy ===== *)
theory Provider_OpenAi
  imports Provider_Http
begin

text \<open>
  \<^verbatim>\<open>inference-runtime-openai\<close>: the configuration's URL, the wire types, the translation of a batch
  into a chat request and of stream events and answers into token chunks, \<^verbatim>\<open>execute\<close> and the price table.
\<close>

section \<open>Configuration and wire types\<close>

datatype openai_variant = Direct string | Azure string string string

fun chat_completions_url :: "('b, 'ev, 'r, 'eb) http_env \<Rightarrow> openai_variant \<Rightarrow> string + string" where
  "chat_completions_url env (Direct endpoint) = url_join env endpoint ''chat/completions''"
| "chat_completions_url env (Azure resource dep version) =
     url_parse env (''https://'' @ resource @ ''.openai.azure.com/openai/deployments/'' @ dep @
       ''/chat/completions?api-version='' @ version)"

record 'n chat_message =
  cm_role :: string
  cm_content :: "'n json"

record 'n chat_request =
  cr_model :: string
  cr_messages :: "'n chat_message list"
  cr_temperature :: "f32 option"
  cr_top_p :: "f32 option"
  cr_max_tokens :: "u32 option"
  cr_stop :: "string list"
  cr_stream :: bool
  cr_seed :: "u64 option"

fun openai_role :: "role \<Rightarrow> string" where
  "openai_role System = ''system''"
| "openai_role User = ''user''"
| "openai_role Assistant = ''assistant''"
| "openai_role Tool = ''tool''"

text \<open>\<open>to_value\<close> is the derived serialisation of the content parts.\<close>

definition serialize_message :: "(content_part list \<Rightarrow> 'n json option) \<Rightarrow> message \<Rightarrow> 'n chat_message" where
  "serialize_message to_value m = \<lparr>cm_role = openai_role (role m), cm_content = (case content m of
     message_content.Text t \<Rightarrow> JString t
   | Parts ps \<Rightarrow> (case to_value ps of Some v \<Rightarrow> v | None \<Rightarrow> JString []))\<rparr>"

definition chat_request_from_batch :: "(content_part list \<Rightarrow> 'n json option) \<Rightarrow> execute_batch \<Rightarrow> 'n chat_request" where
  "chat_request_from_batch to_value b = \<lparr>cr_model = model b, cr_messages = map (serialize_message to_value) (messages b),
     cr_temperature = temperature (sampling b), cr_top_p = top_p (sampling b), cr_max_tokens = max_tokens (sampling b),
     cr_stop = stop (sampling b), cr_stream = stream b, cr_seed = seed (sampling b)\<rparr>"

record openai_usage =
  ou_prompt_tokens :: u32
  ou_completion_tokens :: u32
  ou_cached :: "u32 option"
  ou_reasoning :: "u32 option"

record 'j choice_delta =
  cd_content :: "string option"
  cd_tool_calls :: "'j option"
  cd_finish_reason :: "string option"

record 'j chat_chunk =
  cc_choices :: "'j choice_delta list"
  cc_usage :: "openai_usage option"

record 'n chat_choice =
  co_message :: "'n chat_message"
  co_finish_reason :: "string option"

record 'n chat_response =
  cp_choices :: "'n chat_choice list"
  cp_usage :: "openai_usage option"

section \<open>Translation of answers\<close>

definition openai_finish_reason :: "string \<Rightarrow> finish_reason option" where
  "openai_finish_reason s =
     (if s = ''stop'' \<or> s = ''end_turn'' then Some finish_reason.Stop
      else if s = ''length'' then Some Length
      else if s = ''tool_calls'' \<or> s = ''function_call'' then Some ToolCalls
      else if s = ''content_filter'' then Some ContentFilter
      else Some finish_reason.Stop)"

definition openai_chunk :: "string \<Rightarrow> 'j chat_chunk \<Rightarrow> 'j token_chunk" where
  "openai_chunk rid p =
     (let (text, fin) = foldl (\<lambda>(text, fin) ch.
            (case cd_content ch of Some c \<Rightarrow> text @ c | None \<Rightarrow> text,
             Option.bind (cd_finish_reason ch) openai_finish_reason)) ([], None) (cc_choices p)
      in \<lparr>tc_request_id = rid, text_delta = text,
          tool_call_delta = (case List.map_filter cd_tool_calls (cc_choices p) of [] \<Rightarrow> None | v # _ \<Rightarrow> Some v),
          tc_usage = map_option (\<lambda>u. \<lparr>input_tokens = ou_prompt_tokens u, output_tokens = ou_completion_tokens u,
            reasoning_tokens = (case ou_reasoning u of Some d \<Rightarrow> d | None \<Rightarrow> 0),
            cached_tokens = (case ou_cached u of Some d \<Rightarrow> d | None \<Rightarrow> 0)\<rparr>) (cc_usage p),
          tc_finish_reason = fin\<rparr>)"

definition openai_lift :: "(string \<Rightarrow> string + 'j chat_chunk) \<Rightarrow> string \<Rightarrow> sse_chunk \<Rightarrow>
    (inference_error + 'j token_chunk) option" where
  "openai_lift dec rid sc =
     (if sse_data sc = ''[DONE]'' then None
      else case dec (sse_data sc) of
        Inl e \<Rightarrow> Some (Inl (Internal (''openai chunk decode: '' @ e)))
      | Inr p \<Rightarrow> Some (Inr (openai_chunk rid p)))"

definition openai_unary :: "string \<Rightarrow> 'n chat_response \<Rightarrow> 'j token_chunk" where
  "openai_unary rid p =
     (let (text, fin) = foldl (\<lambda>(text, fin) ch.
            (case json_as_str (cm_content (co_message ch)) of Some s \<Rightarrow> text @ s | None \<Rightarrow> text,
             Option.bind (co_finish_reason ch) openai_finish_reason)) ([], None) (cp_choices p)
      in \<lparr>tc_request_id = rid, text_delta = text, tool_call_delta = None,
          tc_usage = map_option (\<lambda>u. default_token_usage\<lparr>input_tokens := ou_prompt_tokens u,
            output_tokens := ou_completion_tokens u\<rparr>) (cp_usage p),
          tc_finish_reason = (case fin of Some f \<Rightarrow> Some f | None \<Rightarrow> Some finish_reason.Stop)\<rparr>)"

section \<open>Execution\<close>

record openai_runner =
  or_chat_url :: string
  or_organization :: "string option"
  or_project :: "string option"

definition opt_header :: "(string \<Rightarrow> string + string) \<Rightarrow> string \<Rightarrow> string \<Rightarrow> string option \<Rightarrow> (string \<times> string) list \<Rightarrow>
    (string \<times> string) list inference_result" where
  "opt_header hv what name v hs = (case v of
     None \<Rightarrow> Inr hs
   | Some x \<Rightarrow> (case hv x of
       Inl e \<Rightarrow> Inl (Internal (''invalid '' @ what @ '' header: '' @ e))
     | Inr y \<Rightarrow> Inr (hs @ [(name, y)])))"

definition openai_auth_headers :: "('b, 'ev, 'r, 'eb) http_env \<Rightarrow> openai_runner \<Rightarrow> string \<Rightarrow>
    (string \<times> string) list inference_result" where
  "openai_auth_headers env r token = (case header_value env (''Bearer '' @ token) of
     Inl e \<Rightarrow> Inl (Internal (''invalid bearer token: '' @ e))
   | Inr v \<Rightarrow>
     (case opt_header (header_value env) ''org'' ''openai-organization'' (or_organization r) [(''authorization'', v)] of
        Inl e \<Rightarrow> Inl e
      | Inr hs \<Rightarrow> opt_header (header_value env) ''project'' ''openai-project'' (or_project r) hs))"

definition openai_execute :: "('n chat_request, 'j chat_chunk, 'n chat_response, openai_error_body) http_env \<Rightarrow>
    (content_part list \<Rightarrow> 'n json option) \<Rightarrow> openai_runner \<Rightarrow> string \<Rightarrow> execute_batch \<Rightarrow>
    (inference_error + 'j token_chunk) list inference_result" where
  "openai_execute env to_value r token b = (case openai_auth_headers env r token of
     Inl e \<Rightarrow> Inl e
   | Inr hs \<Rightarrow>
     (case send env \<lparr>rq_url = or_chat_url r, rq_headers = hs, rq_body = chat_request_from_batch to_value b\<rparr> of
        Inl e \<Rightarrow> Inl (NetworkError e)
      | Inr resp \<Rightarrow>
          if \<not> is_success (hs_status resp)
          then Inl (classify_openai_error (error_json env) (rfc2822 env) (unix_now env) (hs_status resp) (hs_retry_after resp) (hs_text resp))
          else if stream b
          then Inr (lift_stream (openai_lift (event_json env) (request_id b)) (decode_sse_stream (eventsource env) (hs_bytes resp)))
          else (case answer_json env resp of
             Inl e \<Rightarrow> Inl (Internal (''openai response decode: '' @ e))
           | Inr p \<Rightarrow> Inr [Inr (openai_unary (request_id b) p)])))"

section \<open>Prices\<close>

record model_price =
  input_per_mtok_usd :: f64
  output_per_mtok_usd :: f64

definition price :: "rat \<Rightarrow> rat \<Rightarrow> model_price" where
  "price i out = \<lparr>input_per_mtok_usd = f64_of_rat i, output_per_mtok_usd = f64_of_rat out\<rparr>"

definition openai_pricing :: "(string \<times> model_price) list" where
  "openai_pricing = [(''gpt-4o'', price (5 / 2) 10), (''gpt-4o-mini'', price (15 / 100) (60 / 100)),
     (''gpt-4-turbo'', price 10 30), (''o1-preview'', price 15 60), (''o1-mini'', price 3 12)]"

definition estimate_from :: "(string \<times> model_price) list \<Rightarrow> execute_batch \<Rightarrow> f64" where
  "estimate_from table b = (case map_of table (model b) of
     None \<Rightarrow> Fin 0
   | Some p \<Rightarrow> usd (from_rates (input_per_mtok_usd p) (output_per_mtok_usd p) b))"

definition openai_estimate_cost_usd :: "execute_batch \<Rightarrow> f64" where
  "openai_estimate_cost_usd b = estimate_from openai_pricing b"

section \<open>Lemmas\<close>

definition choice_text :: "'j choice_delta \<Rightarrow> string" where
  "choice_text ch = (case cd_content ch of Some c \<Rightarrow> c | None \<Rightarrow> [])"

lemma openai_chunk_fold:
  "foldl (\<lambda>(text, fin) ch. (case cd_content ch of Some c \<Rightarrow> text @ c | None \<Rightarrow> text,
      Option.bind (cd_finish_reason ch) openai_finish_reason)) (t0, f0) chs =
   (t0 @ concat (map choice_text chs),
    if chs = [] then f0 else Option.bind (cd_finish_reason (last chs)) openai_finish_reason)"
  by (induction chs arbitrary: t0 f0) (auto simp: choice_text_def split: option.splits)

lemma openai_chunk_fields:
  "tc_request_id (openai_chunk rid p) = rid"
  "text_delta (openai_chunk rid p) = concat (map choice_text (cc_choices p))"
  "tc_finish_reason (openai_chunk rid p) =
     (if cc_choices p = [] then None else Option.bind (cd_finish_reason (last (cc_choices p))) openai_finish_reason)"
  by (simp_all add: openai_chunk_def openai_chunk_fold)

definition openai_event_text :: "(string \<Rightarrow> string + 'j chat_chunk) \<Rightarrow> sse_chunk \<Rightarrow> string" where
  "openai_event_text dec sc = (if sse_data sc = ''[DONE]'' then [] else case dec (sse_data sc) of
     Inl e \<Rightarrow> [] | Inr p \<Rightarrow> concat (map choice_text (cc_choices p)))"

interpretation openai: event_lifter "openai_lift dec" "openai_event_text dec"
  for dec :: "string \<Rightarrow> string + 'j chat_chunk"
  by unfold_locales (auto simp: openai_lift_def openai_event_text_def openai_chunk_fields split: if_splits sum.splits)

section \<open>Properties\<close>

text \<open>A streamed OpenAI answer is complete and in order.  When the provider accepts a streaming request,
  the chunks handed on all carry the request's id, and their text is the text of all choices of all events
  the body decodes to, in order; the end marker and undecodable events contribute no text, and the latter are
  reported as errors in their place.\<close>

theorem openai_stream_complete:
  assumes "openai_auth_headers env r token = Inr hs"
    "send env \<lparr>rq_url = or_chat_url r, rq_headers = hs, rq_body = chat_request_from_batch to_value b\<rparr> = Inr resp"
    "is_success (hs_status resp)" "stream b"
  shows "\<exists>items. openai_execute env to_value r token b = Inr items \<and>
    (\<forall>t. Inr t \<in> set items \<longrightarrow> tc_request_id t = request_id b) \<and>
    answer_text items = concat (map (\<lambda>x. case x of Inr c \<Rightarrow> openai_event_text (event_json env) c | Inl _ \<Rightarrow> [])
      (decode_sse_stream (eventsource env) (hs_bytes resp)))"
  using assms openai.stream_ids [of _ "event_json env" "request_id b"]
    openai.stream_text [of "event_json env" "request_id b"]
  by (auto simp: openai_execute_def)

definition echo_env :: "(unit chat_request, unit chat_chunk, unit chat_response, openai_error_body) http_env" where
  "echo_env = \<lparr>send = (\<lambda>_. Inr \<lparr>hs_status = 200, hs_retry_after = None, hs_text = None, hs_bytes = []\<rparr>),
     eventsource = (\<lambda>_. [Inr ([], ''he''), Inr ([], ''llo''), Inr ([], ''[DONE]'')]),
     event_json = (\<lambda>s. Inr \<lparr>cc_choices = [\<lparr>cd_content = Some s, cd_tool_calls = None, cd_finish_reason = None\<rparr>], cc_usage = None\<rparr>),
     answer_json = (\<lambda>_. Inl ''none''), error_json = (\<lambda>_. None), lower = (\<lambda>s. s), rfc2822 = (\<lambda>_. None), unix_now = 0,
     header_value = Inr, url_join = (\<lambda>a b. Inr (a @ b)), url_parse = Inr, append_pair = (\<lambda>u k v. u @ ''&'' @ k @ ''='' @ v)\<rparr>"

definition streaming_batch :: execute_batch where
  "streaming_batch = \<lparr>request_id = ''r1'', model = ''gpt-4o'', messages = [\<lparr>role = User, content = message_content.Text ''hi''\<rparr>],
     sampling = default_sampling_params, stream = True, estimated_tokens_field = 8\<rparr>"

theorem openai_stream_complete_witness:
  "\<exists>items. openai_execute echo_env (\<lambda>_. None) \<lparr>or_chat_url = ''u'', or_organization = None, or_project = None\<rparr> ''k'' streaming_batch = Inr items \<and>
    answer_text items = ''hello''"
proof -
  let ?r = "\<lparr>or_chat_url = ''u'', or_organization = None, or_project = None\<rparr>"
  have "openai_auth_headers echo_env ?r ''k'' = Inr [(''authorization'', ''Bearer k'')]"
    by (simp add: openai_auth_headers_def opt_header_def echo_env_def)
  from openai_stream_complete [OF this, of "\<lambda>_. None" streaming_batch] show ?thesis
    by (auto simp: echo_env_def streaming_batch_def is_success_def decode_sse_stream_def openai_event_text_def choice_text_def)
qed

end
