(* ===== verification/Provider_Anthropic.thy ===== *)
theory Provider_Anthropic
  imports Provider_OpenAi
begin

text \<open>
  \<^verbatim>\<open>inference-runtime-anthropic\<close>: the Messages wire types, the translation of a batch (system prompts
  are hoisted out of the message list) and of stream events and answers, \<^verbatim>\<open>execute\<close> and the price table.
\<close>

section \<open>Requests\<close>

record 'n messages_message =
  mm_role :: string
  mm_content :: "'n json"

record 'n messages_request =
  mr_model :: string
  mr_messages :: "'n messages_message list"
  mr_system :: "string option"
  mr_max_tokens :: "u32 option"
  mr_temperature :: "f32 option"
  mr_top_p :: "f32 option"
  mr_stop_sequences :: "string list"
  mr_stream :: bool

fun anthropic_part :: "content_part \<Rightarrow> 'n json" where
  "anthropic_part (content_part.Text t) = JObject [(''type'', JString ''text''), (''text'', JString t)]"
| "anthropic_part (ImageBase64 mime data) = JObject [(''type'', JString ''image''),
     (''source'', JObject [(''type'', JString ''base64''), (''media_type'', JString mime), (''data'', JString data)])]"
| "anthropic_part (ImageUrl url) = JObject [(''type'', JString ''image''),
     (''source'', JObject [(''type'', JString ''url''), (''url'', JString url)])]"

definition anthropic_message :: "message \<Rightarrow> 'n messages_message" where
  "anthropic_message m = \<lparr>mm_role = (if role m = Assistant then ''assistant'' else ''user''),
     mm_content = (case content m of message_content.Text t \<Rightarrow> JString t | Parts ps \<Rightarrow> JArray (map anthropic_part ps))\<rparr>"

definition anthropic_step :: "string option \<times> 'n messages_message list \<Rightarrow> message \<Rightarrow> string option \<times> 'n messages_message list" where
  "anthropic_step st m = (case st of (sys, msgs) \<Rightarrow>
     if role m = System
     then (case content m of
             message_content.Text s \<Rightarrow> (case sys of Some prev \<Rightarrow> Some (prev @ newline # s) | None \<Rightarrow> Some s, msgs)
           | _ \<Rightarrow> (sys, msgs))
     else (sys, msgs @ [anthropic_message m]))"

definition messages_request_from_batch :: "execute_batch \<Rightarrow> 'n messages_request" where
  "messages_request_from_batch b =
     (let (sys, msgs) = foldl anthropic_step (None, []) (messages b) in
      \<lparr>mr_model = model b, mr_messages = msgs, mr_system = sys,
       mr_max_tokens = (case max_tokens (sampling b) of Some n \<Rightarrow> Some n | None \<Rightarrow> Some 1024),
       mr_temperature = temperature (sampling b), mr_top_p = top_p (sampling b),
       mr_stop_sequences = stop (sampling b), mr_stream = stream b\<rparr>)"

section \<open>Events and answers\<close>

record anthropic_usage =
  au_input_tokens :: u32
  au_output_tokens :: u32
  au_cache_creation :: u32
  au_cache_read :: u32

datatype block_delta = TextDelta string | InputJsonDelta string

datatype anthropic_event =
    MessageStart string "anthropic_usage option"
  | ContentBlockStart u32
  | ContentBlockDelta u32 block_delta
  | ContentBlockStop u32
  | MessageDelta "string option" "anthropic_usage option"
  | MessageStop
  | AnthropicPing
  | AnthropicError string string

datatype 'n response_content = RcText string | RcToolUse string string "'n json"

record 'n messages_response =
  rs_content :: "'n response_content list"
  rs_stop_reason :: "string option"
  rs_usage :: "anthropic_usage option"

definition map_stop_reason :: "string \<Rightarrow> finish_reason" where
  "map_stop_reason s =
     (if s = ''end_turn'' \<or> s = ''stop_sequence'' then finish_reason.Stop
      else if s = ''max_tokens'' then Length
      else if s = ''tool_use'' then ToolCalls
      else finish_reason.Stop)"

definition anthropic_token_usage :: "anthropic_usage \<Rightarrow> token_usage" where
  "anthropic_token_usage u = default_token_usage\<lparr>input_tokens := au_input_tokens u, output_tokens := au_output_tokens u,
     cached_tokens := au_cache_read u\<rparr>"

definition bare_chunk :: "string \<Rightarrow> 'j token_chunk" where
  "bare_chunk rid = \<lparr>tc_request_id = rid, text_delta = [], tool_call_delta = None, tc_usage = None, tc_finish_reason = None\<rparr>"

definition lift_event :: "(string \<Rightarrow> string + anthropic_event) \<Rightarrow> string \<Rightarrow> sse_chunk \<Rightarrow>
    (inference_error + 'n json token_chunk) option" where
  "lift_event dec rid sc =
     (if sse_event sc = Some ''ping'' \<or> sse_data sc = [] then None
      else case dec (sse_data sc) of
        Inl e \<Rightarrow> Some (Inl (Internal (''anthropic event decode: '' @ e)))
      | Inr (ContentBlockDelta _ (TextDelta t)) \<Rightarrow> Some (Inr ((bare_chunk rid)\<lparr>text_delta := t\<rparr>))
      | Inr (ContentBlockDelta _ (InputJsonDelta p)) \<Rightarrow> Some (Inr ((bare_chunk rid)\<lparr>tool_call_delta := Some (JString p)\<rparr>))
      | Inr (MessageDelta reason u) \<Rightarrow>
          Some (Inr ((bare_chunk rid)\<lparr>tc_usage := map_option anthropic_token_usage u,
            tc_finish_reason := map_option map_stop_reason reason\<rparr>))
      | Inr (MessageStart _ _) \<Rightarrow> None
      | Inr MessageStop \<Rightarrow> Some (Inr ((bare_chunk rid)\<lparr>tc_finish_reason := Some finish_reason.Stop\<rparr>))
      | Inr (AnthropicError k m) \<Rightarrow> Some (Inl (Internal (''anthropic stream error: '' @ k @ '': '' @ m)))
      | Inr _ \<Rightarrow> None)"

definition anthropic_unary :: "string \<Rightarrow> 'n messages_response \<Rightarrow> 'j token_chunk" where
  "anthropic_unary rid p =
     (let text = foldl (\<lambda>text c. case c of RcText t \<Rightarrow> text @ t | _ \<Rightarrow> text) [] (rs_content p) in
      (bare_chunk rid)\<lparr>text_delta := text, tc_usage := map_option anthropic_token_usage (rs_usage p),
        tc_finish_reason := (case map_option map_stop_reason (rs_stop_reason p) of Some f \<Rightarrow> Some f | None \<Rightarrow> Some finish_reason.Stop)\<rparr>)"

section \<open>Execution\<close>

record anthropic_runner =
  an_messages_url :: string
  an_version :: string

definition messages_url :: "('b, 'ev, 'r, 'eb) http_env \<Rightarrow> string \<Rightarrow> string + string" where
  "messages_url env endpoint = url_join env endpoint ''messages''"

definition anthropic_auth_headers :: "('b, 'ev, 'r, 'eb) http_env \<Rightarrow> anthropic_runner \<Rightarrow> string \<Rightarrow>
    (string \<times> string) list inference_result" where
  "anthropic_auth_headers env r token = (case header_value env token of
     Inl e \<Rightarrow> Inl (Internal (''invalid api key: '' @ e))
   | Inr k \<Rightarrow> (case header_value env (an_version r) of
       Inl e \<Rightarrow> Inl (Internal (''invalid version: '' @ e))
     | Inr v \<Rightarrow> Inr [(''x-api-key'', k), (''anthropic-version'', v)]))"

definition anthropic_execute :: "('n messages_request, anthropic_event, 'n messages_response, anthropic_error_body) http_env \<Rightarrow>
    anthropic_runner \<Rightarrow> string \<Rightarrow> execute_batch \<Rightarrow> (inference_error + 'n json token_chunk) list inference_result" where
  "anthropic_execute env r token b = (case anthropic_auth_headers env r token of
     Inl e \<Rightarrow> Inl e
   | Inr hs \<Rightarrow>
     (case send env \<lparr>rq_url = an_messages_url r, rq_headers = hs, rq_body = messages_request_from_batch b\<rparr> of
        Inl e \<Rightarrow> Inl (NetworkError e)
      | Inr resp \<Rightarrow>
          if \<not> is_success (hs_status resp)
          then Inl (classify_anthropic_error (error_json env) (lower env) (rfc2822 env) (unix_now env)
                 (hs_status resp) (hs_retry_after resp) (hs_text resp))
          else if stream b
          then Inr (lift_stream (lift_event (event_json env) (request_id b)) (decode_sse_stream (eventsource env) (hs_bytes resp)))
          else (case answer_json env resp of
             Inl e \<Rightarrow> Inl (Internal (''anthropic decode: '' @ e))
           | Inr p \<Rightarrow> Inr [Inr (anthropic_unary (request_id b) p)])))"

definition anthropic_pricing :: "(string \<times> model_price) list" where
  "anthropic_pricing = [(''claude-opus-4'', price 15 75), (''claude-sonnet-4'', price 3 15), (''claude-3-5-sonnet'', price 3 15),
     (''claude-3-5-haiku'', price (4 / 5) 4), (''claude-3-haiku'', price (1 / 4) (5 / 4))]"

definition anthropic_estimate_cost_usd :: "execute_batch \<Rightarrow> f64" where
  "anthropic_estimate_cost_usd b = estimate_from anthropic_pricing b"

section \<open>Lemmas\<close>

definition not_system :: "message \<Rightarrow> bool" where
  "not_system m \<longleftrightarrow> role m \<noteq> System"

lemma anthropic_fold:
  "foldl anthropic_step (None, []) ms = (system_prompt ms, map anthropic_message (filter not_system ms))"
proof (induction ms rule: rev_induct)
  case Nil
  then show ?case by (simp add: system_prompt_def system_texts_def List.map_filter_simps)
next
  case (snoc m ms)
  then show ?case
    by (auto simp: anthropic_step_def system_prompt_snoc not_system_def split: message_content.splits)
qed

definition anthropic_event_text :: "(string \<Rightarrow> string + anthropic_event) \<Rightarrow> sse_chunk \<Rightarrow> string" where
  "anthropic_event_text dec sc = (if sse_event sc = Some ''ping'' \<or> sse_data sc = [] then []
     else case dec (sse_data sc) of Inr (ContentBlockDelta _ (TextDelta t)) \<Rightarrow> t | _ \<Rightarrow> [])"

interpretation anthropic: event_lifter "lift_event dec" "anthropic_event_text dec"
  for dec :: "string \<Rightarrow> string + anthropic_event"
  by unfold_locales
    (auto simp: lift_event_def anthropic_event_text_def bare_chunk_def
      split: if_splits sum.splits anthropic_event.splits block_delta.splits)

text \<open>The events of an answer before its end, and the text they carry.\<close>

fun body_event :: "anthropic_event \<Rightarrow> bool" where
  "body_event (MessageStart _ _) = True"
| "body_event (ContentBlockStart _) = True"
| "body_event (ContentBlockDelta _ (TextDelta _)) = True"
| "body_event (ContentBlockStop _) = True"
| "body_event AnthropicPing = True"
| "body_event _ = False"

fun body_text :: "anthropic_event \<Rightarrow> string" where
  "body_text (ContentBlockDelta _ (TextDelta t)) = t"
| "body_text _ = []"

definition carries :: "(string \<Rightarrow> string + anthropic_event) \<Rightarrow> sse_chunk \<Rightarrow> anthropic_event \<Rightarrow> bool" where
  "carries dec sc ev \<longleftrightarrow> sse_event sc \<noteq> Some ''ping'' \<and> sse_data sc \<noteq> [] \<and> dec (sse_data sc) = Inr ev"

text \<open>A body yields text chunks only; the delta that gives the reason and the stop event yield one terminal chunk each.\<close>

lemma lift_body:
  assumes "list_all2 (carries dec) scs evs" and "list_all body_event evs"
  shows "\<exists>cs :: 'n json token_chunk list. lift_stream (lift_event dec rid) (map Inr scs) = map Inr cs \<and> (\<forall>c \<in> set cs. tc_finish_reason c = None \<and> tc_usage c = None) \<and>
    concat (map text_delta cs) = concat (map body_text evs)"
  using assms
proof (induction scs evs rule: list_all2_induct)
  case (Cons sc scs ev evs)
  then obtain cs :: "'n json token_chunk list" where cs: "lift_stream (lift_event dec rid) (map Inr scs) = map Inr cs"
    "\<forall>c \<in> set cs. tc_finish_reason c = None \<and> tc_usage c = None" "concat (map text_delta cs) = concat (map body_text evs)"
    by auto
  show ?case
  proof (cases "\<exists>i t. ev = ContentBlockDelta i (TextDelta t)")
    case True
    then obtain i t where "ev = ContentBlockDelta i (TextDelta t)" by blast
    then have "lift_stream (lift_event dec rid) (map Inr (sc # scs)) = map Inr (((bare_chunk rid)\<lparr>text_delta := t\<rparr>) # cs)"
      and "body_text ev = t" using Cons(1) cs(1) by (simp_all add: carries_def lift_event_def)
    then show ?thesis using cs by (intro exI[of _ "((bare_chunk rid)\<lparr>text_delta := t\<rparr>) # cs"]) (simp add: bare_chunk_def)
  next
    case False
    then have "(lift_event dec rid sc :: (inference_error + 'n json token_chunk) option) = None" and "body_text ev = []"
      using Cons by (cases ev rule: body_event.cases; auto simp: carries_def lift_event_def)+
    then show ?thesis using cs by (intro exI[of _ cs]) simp
  qed
qed simp

lemma lift_end:
  "carries dec sc (MessageDelta (Some reason) (Some u)) \<Longrightarrow> lift_event dec rid sc =
     Some (Inr ((bare_chunk rid)\<lparr>tc_usage := Some (anthropic_token_usage u), tc_finish_reason := Some (map_stop_reason reason)\<rparr>))"
  "carries dec sc MessageStop \<Longrightarrow> lift_event dec rid sc = Some (Inr ((bare_chunk rid)\<lparr>tc_finish_reason := Some finish_reason.Stop\<rparr>))"
  by (simp_all add: carries_def lift_event_def)

section \<open>Properties\<close>

text \<open>The Anthropic request says what the batch says.  The system prompt is the text of all system
  messages joined by newlines (absent when there is none), every other message is kept, in order, tool
  messages speaking as the user, and the sampling parameters are carried over, with a limit of 1024 tokens
  when the batch sets none.\<close>

theorem anthropic_request_faithful:
  "let r = messages_request_from_batch b in
   mr_system r = system_prompt (messages b) \<and>
   mr_messages r = map anthropic_message (filter not_system (messages b)) \<and>
   mr_max_tokens r = Some (case max_tokens (sampling b) of Some n \<Rightarrow> n | None \<Rightarrow> 1024) \<and>
   mr_stop_sequences r = stop (sampling b) \<and> mr_stream r = stream b \<and> mr_model r = model b"
  by (simp add: messages_request_from_batch_def anthropic_fold split: option.split)

end
