(* ===== verification/Provider_Gemini.thy ===== *)
theory Provider_Gemini
  imports Provider_Anthropic
begin

text \<open>
  \<^verbatim>\<open>inference-runtime-gemini\<close>: the endpoint URLs of AI Studio and Vertex, the wire types, the translation of a
  batch and of stream chunks and answers, \<^verbatim>\<open>execute\<close> with its two ways of authenticating, and the prices.
\<close>

section \<open>Configuration\<close>

datatype gemini_variant = AiStudio string | Vertex string string

record safety_setting =
  category :: string
  threshold :: string

record gemini_config =
  gc_variant :: gemini_variant
  gc_safety :: "safety_setting list"

definition generate_content_url :: "('b, 'ev, 'r, 'eb) http_env \<Rightarrow> gemini_config \<Rightarrow> string \<Rightarrow> bool \<Rightarrow> string + string" where
  "generate_content_url env cfg m strm =
     (let suffix = (if strm then '':streamGenerateContent?alt=sse'' else '':generateContent'') in
      case gc_variant cfg of
        AiStudio endpoint \<Rightarrow> url_join env endpoint (''models/'' @ m @ suffix)
      | Vertex project region \<Rightarrow> url_parse env (''https://'' @ region @ ''-aiplatform.googleapis.com/v1/projects/'' @ project @
          ''/locations/'' @ region @ ''/publishers/google/models/'' @ m @ suffix))"

section \<open>Wire types\<close>

datatype gemini_part = GpText string | InlineData string string | FileData string string

record gemini_content =
  gm_role :: string
  gm_parts :: "gemini_part list"

record generation_config =
  gg_temperature :: "f32 option"
  gg_top_p :: "f32 option"
  gg_top_k :: "u32 option"
  gg_max_output_tokens :: "u32 option"
  gg_stop_sequences :: "string list"

record generate_content_request =
  gr_contents :: "gemini_content list"
  gr_system_instruction :: "gemini_content option"
  gr_generation_config :: "generation_config option"
  gr_safety_settings :: "safety_setting list"

fun gemini_part_of :: "content_part \<Rightarrow> gemini_part" where
  "gemini_part_of (content_part.Text t) = GpText t"
| "gemini_part_of (ImageBase64 mime data) = InlineData mime data"
| "gemini_part_of (ImageUrl url) = FileData ''image/jpeg'' url"

definition gemini_content_of :: "message \<Rightarrow> gemini_content" where
  "gemini_content_of m = \<lparr>gm_role = (if role m = Assistant then ''model'' else ''user''),
     gm_parts = (case content m of message_content.Text t \<Rightarrow> [GpText t] | Parts ps \<Rightarrow> map gemini_part_of ps)\<rparr>"

definition gemini_step :: "string option \<times> gemini_content list \<Rightarrow> message \<Rightarrow> string option \<times> gemini_content list" where
  "gemini_step st m = (case st of (sys, cs) \<Rightarrow>
     if role m = System
     then (case content m of
             message_content.Text t \<Rightarrow> (Some (case sys of Some s \<Rightarrow> s @ newline # t | None \<Rightarrow> t), cs)
           | _ \<Rightarrow> (sys, cs))
     else (sys, cs @ [gemini_content_of m]))"

definition generate_request_from_batch :: "execute_batch \<Rightarrow> safety_setting list \<Rightarrow> generate_content_request" where
  "generate_request_from_batch b safety =
     (let (sys, cs) = foldl gemini_step (None, []) (messages b) in
      \<lparr>gr_contents = cs,
       gr_system_instruction = map_option (\<lambda>t. \<lparr>gm_role = ''system'', gm_parts = [GpText t]\<rparr>) sys,
       gr_generation_config = Some \<lparr>gg_temperature = temperature (sampling b), gg_top_p = top_p (sampling b),
         gg_top_k = top_k (sampling b), gg_max_output_tokens = max_tokens (sampling b), gg_stop_sequences = stop (sampling b)\<rparr>,
       gr_safety_settings = safety\<rparr>)"

record usage_metadata =
  prompt_token_count :: u32
  candidates_token_count :: u32
  cached_content_token_count :: u32

record candidate =
  ca_parts :: "string option list option"
  ca_finish_reason :: "string option"

record generate_content_response =
  candidates :: "candidate list"
  gu_usage :: "usage_metadata option"

section \<open>Translation of answers\<close>

definition map_finish :: "string \<Rightarrow> finish_reason" where
  "map_finish s =
     (if s = ''STOP'' then finish_reason.Stop
      else if s = ''MAX_TOKENS'' then Length
      else if s = ''SAFETY'' then ContentFilter
      else finish_reason.Stop)"

definition gemini_collect :: "generate_content_response \<Rightarrow> string \<times> finish_reason option" where
  "gemini_collect p = foldl (\<lambda>(text, fin) c.
     (case ca_parts c of
        Some ps \<Rightarrow> foldl (\<lambda>t q. case q of Some s \<Rightarrow> t @ s | None \<Rightarrow> t) text ps
      | None \<Rightarrow> text,
      case ca_finish_reason c of Some s \<Rightarrow> Some (map_finish s) | None \<Rightarrow> fin)) ([], None) (candidates p)"

definition gemini_token_usage :: "usage_metadata \<Rightarrow> token_usage" where
  "gemini_token_usage u = default_token_usage\<lparr>input_tokens := prompt_token_count u, output_tokens := candidates_token_count u,
     cached_tokens := cached_content_token_count u\<rparr>"

definition gemini_lift :: "(string \<Rightarrow> string + generate_content_response) \<Rightarrow> string \<Rightarrow> sse_chunk \<Rightarrow>
    (inference_error + 'j token_chunk) option" where
  "gemini_lift dec rid sc =
     (if sse_data sc = [] then None
      else case dec (sse_data sc) of
        Inl e \<Rightarrow> Some (Inl (Internal (''gemini chunk decode: '' @ e)))
      | Inr p \<Rightarrow> (let (text, fin) = gemini_collect p in
          Some (Inr ((bare_chunk rid)\<lparr>text_delta := text, tc_usage := map_option gemini_token_usage (gu_usage p),
            tc_finish_reason := fin\<rparr>))))"

definition gemini_unary :: "string \<Rightarrow> generate_content_response \<Rightarrow> 'j token_chunk" where
  "gemini_unary rid p = (let (text, fin) = gemini_collect p in
     (bare_chunk rid)\<lparr>text_delta := text, tc_usage := map_option gemini_token_usage (gu_usage p),
       tc_finish_reason := (case fin of Some f \<Rightarrow> Some f | None \<Rightarrow> Some finish_reason.Stop)\<rparr>)"

section \<open>Execution\<close>

text \<open>\<^verbatim>\<open>auth_apply\<close> returns the request and leaves the changed URL in its mutable argument.\<close>

definition gemini_auth_apply :: "('b, 'ev, 'r, 'eb) http_env \<Rightarrow> gemini_config \<Rightarrow> string \<Rightarrow> 'b http_request \<Rightarrow> string \<Rightarrow>
    ('b http_request \<times> string) inference_result" where
  "gemini_auth_apply env cfg token builder url = (case gc_variant cfg of
     AiStudio _ \<Rightarrow> Inr (builder, append_pair env url ''key'' token)
   | Vertex _ _ \<Rightarrow> (case header_value env (''Bearer '' @ token) of
       Inl e \<Rightarrow> Inl (Internal (''invalid bearer token: '' @ e))
     | Inr v \<Rightarrow> Inr (builder\<lparr>rq_headers := rq_headers builder @ [(''authorization'', v)]\<rparr>, url)))"

definition gemini_execute :: "(generate_content_request, generate_content_response, generate_content_response, gemini_error_body) http_env \<Rightarrow>
    gemini_config \<Rightarrow> string \<Rightarrow> execute_batch \<Rightarrow> (inference_error + 'j token_chunk) list inference_result" where
  "gemini_execute env cfg token b = (case generate_content_url env cfg (model b) (stream b) of
     Inl e \<Rightarrow> Inl (Internal (''gemini url: '' @ e))
   | Inr url \<Rightarrow>
     (let body = generate_request_from_batch b (gc_safety cfg);
          request0 = \<lparr>rq_url = url, rq_headers = [], rq_body = body\<rparr> in
      case gemini_auth_apply env cfg token request0 url of
        Inl e \<Rightarrow> Inl e
      | Inr (request, url') \<Rightarrow>
        (case send env request of
           Inl e \<Rightarrow> Inl (NetworkError e)
         | Inr resp \<Rightarrow>
             if \<not> is_success (hs_status resp)
             then Inl (classify_gemini_error (error_json env) (lower env) (rfc2822 env) (unix_now env)
                    (hs_status resp) (hs_retry_after resp) (hs_text resp))
             else if stream b
             then Inr (lift_stream (gemini_lift (event_json env) (request_id b)) (decode_sse_stream (eventsource env) (hs_bytes resp)))
             else (case answer_json env resp of
                Inl e \<Rightarrow> Inl (Internal (''gemini decode: '' @ e))
              | Inr p \<Rightarrow> Inr [Inr (gemini_unary (request_id b) p)]))))"

definition gemini_pricing :: "(string \<times> model_price) list" where
  "gemini_pricing = [(''gemini-2.0-pro'', price (5 / 4) 5), (''gemini-1.5-pro'', price (5 / 4) 5),
     (''gemini-1.5-flash'', price (75 / 1000) (3 / 10)), (''gemini-2.0-flash'', price (75 / 1000) (3 / 10))]"

definition gemini_estimate_cost_usd :: "execute_batch \<Rightarrow> f64" where
  "gemini_estimate_cost_usd b = estimate_from gemini_pricing b"

section \<open>Lemmas\<close>

lemma gemini_fold:
  "foldl gemini_step (None, []) ms = (system_prompt ms, map gemini_content_of (filter not_system ms))"
proof (induction ms rule: rev_induct)
  case Nil
  then show ?case by (simp add: system_prompt_def system_texts_def List.map_filter_simps)
next
  case (snoc m ms)
  then show ?case
    by (auto simp: gemini_step_def system_prompt_snoc not_system_def split: message_content.splits option.splits)
qed

definition gemini_event_text :: "(string \<Rightarrow> string + generate_content_response) \<Rightarrow> sse_chunk \<Rightarrow> string" where
  "gemini_event_text dec sc = (if sse_data sc = [] then [] else case dec (sse_data sc) of
     Inl _ \<Rightarrow> [] | Inr p \<Rightarrow> fst (gemini_collect p))"

interpretation gemini: event_lifter "gemini_lift dec" "gemini_event_text dec"
  for dec :: "string \<Rightarrow> string + generate_content_response"
  by unfold_locales
    (auto simp: gemini_lift_def gemini_event_text_def bare_chunk_def split: if_splits sum.splits prod.splits)

section \<open>Properties\<close>

text \<open>the Gemini request says what the batch says, and streamed and single answers are read alike.  The
  system instruction is the joined text of the system messages, every other message is kept in order, and
  one decoded response yields the same text and usage whether it arrives as an event of a stream or as
  the whole answer; only the single answer gets a finish reason when the provider gives none.\<close>

theorem gemini_request_and_answer:
  "gr_system_instruction (generate_request_from_batch b safety) =
     map_option (\<lambda>t. \<lparr>gm_role = ''system'', gm_parts = [GpText t]\<rparr>) (system_prompt (messages b)) \<and>
   gr_contents (generate_request_from_batch b safety) = map gemini_content_of (filter not_system (messages b)) \<and>
   (sse_data sc \<noteq> [] \<longrightarrow> dec (sse_data sc) = Inr p \<longrightarrow>
     (\<exists>t. gemini_lift dec rid sc = Some (Inr t) \<and>
       gemini_unary rid p = t\<lparr>tc_finish_reason := Some (case tc_finish_reason t of Some f \<Rightarrow> f | None \<Rightarrow> finish_reason.Stop)\<rparr>))"
  by (auto simp: generate_request_from_batch_def gemini_fold gemini_lift_def gemini_unary_def bare_chunk_def
      split: prod.splits option.splits)

definition sample_gemini_response :: generate_content_response where
  "sample_gemini_response = \<lparr>candidates = [\<lparr>ca_parts = Some [Some ''hel'', None, Some ''lo''], ca_finish_reason = None\<rparr>],
     gu_usage = None\<rparr>"

theorem gemini_request_and_answer_witness:
  "\<exists>t :: unit token_chunk. gemini_lift (\<lambda>_. Inr sample_gemini_response) ''r'' \<lparr>sse_event = None, sse_data = ''x''\<rparr> = Some (Inr t) \<and>
     text_delta t = ''hello'' \<and> tc_finish_reason t = None \<and>
     gemini_unary ''r'' sample_gemini_response = t\<lparr>tc_finish_reason := Some finish_reason.Stop\<rparr>"
proof -
  let ?sc = "\<lparr>sse_event = None, sse_data = ''x''\<rparr>"
  have "\<exists>t :: unit token_chunk. gemini_lift (\<lambda>_. Inr sample_gemini_response) ''r'' ?sc = Some (Inr t) \<and>
     gemini_unary ''r'' sample_gemini_response =
       t\<lparr>tc_finish_reason := Some (case tc_finish_reason t of Some f \<Rightarrow> f | None \<Rightarrow> finish_reason.Stop)\<rparr>"
    by (rule gemini_request_and_answer [of streaming_batch "[]" ?sc "\<lambda>_. Inr sample_gemini_response" sample_gemini_response "''r''",
          THEN conjunct2, THEN conjunct2, rule_format]) simp_all
  then show ?thesis
    by (auto simp: gemini_lift_def sample_gemini_response_def gemini_collect_def bare_chunk_def)
qed

text \<open>The AI Studio key is never sent.  With the AI Studio variant the whole execution, and so the request
  that goes out, is the same for every credential: the key is appended to a copy of the URL after the
  request has been built from the original one.\<close>

theorem gemini_ai_studio_key_unused:
  assumes "gc_variant cfg = AiStudio endpoint"
  shows "gemini_execute env cfg token1 b = gemini_execute env cfg token2 b"
  using assms by (simp add: gemini_execute_def gemini_auth_apply_def Let_def split: sum.split)


definition echo_gemini_env :: "(generate_content_request, generate_content_response, generate_content_response, gemini_error_body) http_env" where
  "echo_gemini_env = \<lparr>send = (\<lambda>rq. Inr \<lparr>hs_status = 200, hs_retry_after = None, hs_text = Some (rq_url rq), hs_bytes = []\<rparr>),
     eventsource = (\<lambda>_. [Inr ([], ''x'')]), event_json = (\<lambda>s. Inr sample_gemini_response),
     answer_json = (\<lambda>_. Inr sample_gemini_response), error_json = (\<lambda>_. None), lower = (\<lambda>s. s), rfc2822 = (\<lambda>_. None), unix_now = 0,
     header_value = Inr, url_join = (\<lambda>a b. Inr (a @ b)), url_parse = Inr, append_pair = (\<lambda>u k v. u @ ''&'' @ k @ ''='' @ v)\<rparr>"

theorem gemini_ai_studio_key_unused_witness:
  "(gemini_execute echo_gemini_env \<lparr>gc_variant = AiStudio ''https://host/'', gc_safety = []\<rparr> ''secret'' streaming_batch ::
      (inference_error + unit token_chunk) list inference_result) =
   gemini_execute echo_gemini_env \<lparr>gc_variant = AiStudio ''https://host/'', gc_safety = []\<rparr> [] streaming_batch"
  by (rule gemini_ai_studio_key_unused [of _ "''https://host/''"]) simp

end
