(* ===== verification/Ort_Model.thy ===== *)
theory Ort_Model
  imports Core_Types
begin

text \<open>
  \<^verbatim>\<open>inference-runtime-ort\<close> without its generation loop: the configuration, the mapping of ONNX Runtime errors, the
  choice of execution providers, the search for a tokenizer, the rendering of a conversation to a prompt,
  and the probing of a model's inputs and outputs.  The file system, the tokenizer loader and the two
  regular expressions of the probe are parameters.  The lemmas show that probing pairs the cache tensors of
  equal layer index and equal role, in increasing order of the index.
\<close>

section \<open>Errors\<close>

definition map_ort_err :: "string \<Rightarrow> inference_error" where
  "map_ort_err msg =
     (let lowered = to_ascii_lowercase msg in
      if contains lowered ''invalid'' \<or> contains lowered ''shape'' \<or> contains lowered ''missing'' \<or> contains lowered ''expected''
      then BadRequest (''ort: '' @ msg) else Internal (''ort: '' @ msg))"

definition ort_internal :: "string \<Rightarrow> string \<Rightarrow> inference_error" where
  "ort_internal prefix e = Internal (''ort: '' @ prefix @ '': '' @ e)"

section \<open>Configuration\<close>

datatype execution_provider = Cpu | Cuda | TensorRt | DirectMl

record ort_config =
  onnx_path :: string
  execution_provider :: execution_provider
  device_id :: u32
  tokenizer_path :: "string option"
  hf_repo :: "string option"
  intra_threads :: "nat option"
  default_max_new_tokens_field :: u32

definition default_max_new_tokens :: u32 where
  "default_max_new_tokens = 256"

definition default_execution_provider :: execution_provider where
  "default_execution_provider = Cpu"

datatype ep_dispatch = CPUExecutionProvider | CUDAExecutionProvider "32 word"

text \<open>The flag says whether the cargo feature \<^verbatim>\<open>ort-cuda\<close> is on.\<close>

definition providers_for :: "bool \<Rightarrow> ort_config \<Rightarrow> ep_dispatch list inference_result" where
  "providers_for ort_cuda cfg = (case execution_provider cfg of
     Cpu \<Rightarrow> Inr [CPUExecutionProvider]
   | Cuda \<Rightarrow>
       if ort_cuda then Inr [CUDAExecutionProvider (device_id cfg), CPUExecutionProvider]
       else Inl (BadRequest (''ort: execution_provider=cuda requires the `ort-cuda` cargo feature '' @
              ''(rebuild with --features ort,ort-cuda)''))
   | TensorRt \<Rightarrow> Inl (BadRequest (''ort: execution_provider=tensor_rt is not wired in this build '' @ em_dash @
       '' use the `tensorrt` runner crate instead, or open an issue if you need ORT's TensorRT EP specifically''))
   | DirectMl \<Rightarrow> Inl (BadRequest ''ort: execution_provider=direct_ml is not wired in this build''))"

section \<open>Tokenizer\<close>

record 'tok tokenizer_env =
  from_file :: "string \<Rightarrow> string + 'tok"
  path_parent :: "string \<Rightarrow> string option"
  path_join :: "string \<Rightarrow> string \<Rightarrow> string"
  path_is_file :: "string \<Rightarrow> bool"
  feature_hf_hub :: bool
  hf_api :: "string + unit"
  hf_get :: "string \<Rightarrow> string + string"

definition load_tokenizer :: "'tok tokenizer_env \<Rightarrow> string \<Rightarrow> 'tok inference_result" where
  "load_tokenizer env path = (case from_file env path of
     Inl e \<Rightarrow> Inl (ort_internal (''tokenizer.json '' @ path) e) | Inr t \<Rightarrow> Inr t)"

definition resolve_via_hf_hub :: "'tok tokenizer_env \<Rightarrow> string \<Rightarrow> 'tok inference_result" where
  "resolve_via_hf_hub env repo = (case hf_api env of
     Inl e \<Rightarrow> Inl (ort_internal ''hf-hub api'' e)
   | Inr _ \<Rightarrow> (case hf_get env repo of
       Inl e \<Rightarrow> Inl (ort_internal (''hf-hub get '' @ repo @ ''/tokenizer.json'') e)
     | Inr path \<Rightarrow> load_tokenizer env path))"

definition sibling_tokenizer :: "'tok tokenizer_env \<Rightarrow> ort_config \<Rightarrow> string option" where
  "sibling_tokenizer env cfg = (case path_parent env (onnx_path cfg) of
     Some parent \<Rightarrow> (let s = path_join env parent ''tokenizer.json'' in if path_is_file env s then Some s else None)
   | None \<Rightarrow> None)"

definition resolve_tokenizer :: "'tok tokenizer_env \<Rightarrow> ort_config \<Rightarrow> 'tok option inference_result" where
  "resolve_tokenizer env cfg = (case tokenizer_path cfg of
     Some path \<Rightarrow> map_sum id Some (load_tokenizer env path)
   | None \<Rightarrow> (case sibling_tokenizer env cfg of
       Some s \<Rightarrow> map_sum id Some (load_tokenizer env s)
     | None \<Rightarrow> (case hf_repo cfg of
         Some repo \<Rightarrow> if feature_hf_hub env then map_sum id Some (resolve_via_hf_hub env repo) else Inr None
       | None \<Rightarrow> Inr None)))"

fun role_name :: "role \<Rightarrow> string" where
  "role_name System = ''system''"
| "role_name User = ''user''"
| "role_name Assistant = ''assistant''"
| "role_name Tool = ''tool''"

definition message_text :: "message \<Rightarrow> string" where
  "message_text m = (case content m of
     message_content.Text s \<Rightarrow> s
   | Parts ps \<Rightarrow> join_lines (List.map_filter (\<lambda>p. case p of content_part.Text t \<Rightarrow> Some t | _ \<Rightarrow> None) ps))"

definition render_turn :: "message \<Rightarrow> string" where
  "render_turn m = ''<|'' @ role_name (role m) @ ''|>'' @ [newline] @ message_text m @ [newline]"

definition render_chat :: "message list \<Rightarrow> string inference_result" where
  "render_chat ms = (if ms = [] then Inl (BadRequest ''ort: empty messages list'')
     else Inr (foldl (\<lambda>out m. out @ render_turn m) [] ms @ ''<|assistant|>'' @ [newline]))"

section \<open>Topology\<close>

datatype model_kind = TextGenWithKv | TextGenStateless | EncoderOnly | Unknown

text \<open>Element types other than single-precision floats are named by their debug text.\<close>

datatype element_type = Float32 | OtherElement string

datatype value_type = TensorValue element_type "int list" | OtherValue

record session_shape =
  ss_inputs :: "(string \<times> value_type) list"
  ss_outputs :: "(string \<times> value_type) list"

record kv_layer =
  past_key_input :: string
  past_value_input :: string
  present_key_output :: string
  present_value_output :: string

record topology =
  kind :: model_kind
  input_ids_name :: "string option"
  attention_mask_name :: "string option"
  position_ids_name :: "string option"
  logits_name :: "string option"
  logits_dtype :: "element_type option"
  kv_layers :: "kv_layer list"
  all_input_names :: "string list"
  all_output_names :: "string list"

fun pick_first :: "string list \<Rightarrow> string list \<Rightarrow> string option" where
  "pick_first haystack [] = None"
| "pick_first haystack (n # ns) = (case find (\<lambda>h. eq_ignore_ascii_case h n) haystack of
     Some found \<Rightarrow> Some found
   | None \<Rightarrow> pick_first haystack ns)"

text \<open>\<^verbatim>\<open>str::parse::<u32>\<close>.\<close>

definition digit_value :: "char \<Rightarrow> nat option" where
  "digit_value c = (if 48 \<le> byte_of c \<and> byte_of c \<le> 57 then Some (byte_of c - 48) else None)"

fun parse_digits :: "nat \<Rightarrow> string \<Rightarrow> nat option" where
  "parse_digits acc [] = Some acc"
| "parse_digits acc (c # cs) = (case digit_value c of Some d \<Rightarrow> parse_digits (10 * acc + d) cs | None \<Rightarrow> None)"

definition parse_u32 :: "string \<Rightarrow> u32 option" where
  "parse_u32 s = (let ds = (case s of c # cs \<Rightarrow> if c = CHR ''+'' then cs else s | [] \<Rightarrow> s) in
     if ds = [] then None
     else case parse_digits 0 ds of Some n \<Rightarrow> if n < 2 ^ 32 then Some (word_of_nat n) else None | None \<Rightarrow> None)"

text \<open>A \<^verbatim>\<open>BTreeMap\<close> from layer index to the two names, in increasing order of the index.\<close>

type_synonym kv_names = "string option \<times> string option"

fun bt_modify :: "u32 \<Rightarrow> (kv_names \<Rightarrow> kv_names) \<Rightarrow> (u32 \<times> kv_names) list \<Rightarrow> (u32 \<times> kv_names) list" where
  "bt_modify k f [] = [(k, f (None, None))]"
| "bt_modify k f ((j, v) # m) =
     (if k < j then (k, f (None, None)) # (j, v) # m
      else if k = j then (j, f v) # m
      else (j, v) # bt_modify k f m)"

text \<open>The regular expression is its capture function: the layer digits and the word \<^verbatim>\<open>key\<close> or \<^verbatim>\<open>value\<close>.\<close>

type_synonym kv_regex = "string \<Rightarrow> (string \<times> string) option"

definition layer_index :: "string \<Rightarrow> u32" where
  "layer_index ds = (case parse_u32 ds of Some i \<Rightarrow> i | None \<Rightarrow> 0)"

definition set_kv_name :: "string \<Rightarrow> string \<Rightarrow> kv_names \<Rightarrow> kv_names" where
  "set_kv_name which name kv =
     (if which = ''key'' then (Some name, snd kv) else if which = ''value'' then (fst kv, Some name) else kv)"

definition by_layer :: "kv_regex \<Rightarrow> string list \<Rightarrow> (u32 \<times> kv_names) list" where
  "by_layer re names = foldl (\<lambda>m name. case re name of
     Some (ds, which) \<Rightarrow> bt_modify (layer_index ds) (set_kv_name which name) m | None \<Rightarrow> m) [] names"

definition pair_layer :: "(u32 \<times> kv_names) list \<Rightarrow> u32 \<times> kv_names \<Rightarrow> kv_layer option" where
  "pair_layer present entry = (case entry of (i, pk, pv) \<Rightarrow>
     (case map_of present i of
        Some (Some sk, Some sv) \<Rightarrow>
          (case (pk, pv) of
             (Some k, Some v) \<Rightarrow> Some \<lparr>past_key_input = k, past_value_input = v, present_key_output = sk, present_value_output = sv\<rparr>
           | _ \<Rightarrow> None)
      | _ \<Rightarrow> None))"

definition pair_kv_layers :: "string list \<Rightarrow> string list \<Rightarrow> kv_regex \<Rightarrow> kv_regex \<Rightarrow> kv_layer list" where
  "pair_kv_layers inputs outputs past_re present_re =
     List.map_filter (pair_layer (by_layer present_re outputs)) (by_layer past_re inputs)"

definition probe :: "kv_regex \<Rightarrow> kv_regex \<Rightarrow> session_shape \<Rightarrow> topology" where
  "probe past_re present_re session =
     (let inputs = map fst (ss_inputs session);
          outputs = map fst (ss_outputs session);
          ids = pick_first inputs [''input_ids'', ''inputs'', ''tokens''];
          mask = pick_first inputs [''attention_mask'', ''mask''];
          positions = pick_first inputs [''position_ids'', ''positions''];
          logits = pick_first outputs [''logits'', ''output'', ''last_hidden_state''];
          dtype = Option.bind logits (\<lambda>name. Option.bind (find (\<lambda>o'. fst o' = name) (ss_outputs session))
            (\<lambda>o'. case snd o' of TensorValue ty _ \<Rightarrow> Some ty | OtherValue \<Rightarrow> None));
          layers = pair_kv_layers inputs outputs past_re present_re;
          k = (if layers \<noteq> [] then TextGenWithKv
               else if ids \<noteq> None \<and> logits = Some ''logits'' then TextGenStateless
               else if ids \<noteq> None \<and> logits \<noteq> None then EncoderOnly
               else Unknown)
      in \<lparr>kind = k, input_ids_name = ids, attention_mask_name = mask, position_ids_name = positions,
          logits_name = logits, logits_dtype = dtype, kv_layers = layers,
          all_input_names = inputs, all_output_names = outputs\<rparr>)"


section \<open>Layer pairing\<close>

text \<open>\<open>kv_name re names i w n\<close>: the name \<open>n\<close> occurs and the expression reads it as tensor \<open>w\<close> of layer \<open>i\<close>.\<close>

definition kv_name :: "kv_regex \<Rightarrow> string list \<Rightarrow> u32 \<Rightarrow> string \<Rightarrow> string \<Rightarrow> bool" where
  "kv_name re names i w n \<longleftrightarrow> n \<in> set names \<and> (\<exists>ds. re n = Some (ds, w) \<and> layer_index ds = i)"

definition names_of :: "(u32 \<times> kv_names) list \<Rightarrow> u32 \<Rightarrow> kv_names" where
  "names_of m i = (case map_of m i of Some kv \<Rightarrow> kv | None \<Rightarrow> (None, None))"

lemma set_bt_modify: "fst ` set (bt_modify k f m) = insert k (fst ` set m)"
  by (induction k f m rule: bt_modify.induct) auto

lemma sorted_bt_modify: "sorted_wrt (<) (map fst m) \<Longrightarrow> sorted_wrt (<) (map fst (bt_modify k f m))"
proof (induction k f m rule: bt_modify.induct)
  case (2 k f j v m)
  have "\<forall>i \<in> fst ` set (bt_modify k f m). j < i" if "\<not> k < j" "k \<noteq> j"
    using 2 that unfolding set_bt_modify by auto
  then show ?case using 2 by auto
qed simp

lemma map_of_bt_modify:
  "sorted_wrt (<) (map fst m) \<Longrightarrow>
   map_of (bt_modify k f m) i = (if i = k then Some (f (names_of m k)) else map_of m i)"
proof (induction k f m rule: bt_modify.induct)
  case (2 k f j v m)
  have "map_of m k = None" if "k < j" using 2(2) that by (force simp: map_of_eq_None_iff)
  then show ?case using 2 by (auto simp: names_of_def split: option.splits)
qed (simp add: names_of_def)

lemma sorted_by_layer: "sorted_wrt (<) (map fst (by_layer re names))"
  by (induction names rule: rev_induct) (auto simp: by_layer_def sorted_bt_modify split: option.splits)

lemma by_layer_snoc:
  "by_layer re (names @ [n]) = (case re n of
     Some (ds, which) \<Rightarrow> bt_modify (layer_index ds) (set_kv_name which n) (by_layer re names) | None \<Rightarrow> by_layer re names)"
  unfolding by_layer_def by simp

lemma names_of_by_layer_snoc:
  "names_of (by_layer re (names @ [n])) i = (case re n of
     Some (ds, which) \<Rightarrow> if i = layer_index ds then set_kv_name which n (names_of (by_layer re names) i)
                        else names_of (by_layer re names) i
   | None \<Rightarrow> names_of (by_layer re names) i)"
  using map_of_bt_modify[OF sorted_by_layer]
  by (auto simp: by_layer_snoc split: option.splits) (auto simp: names_of_def)

lemma kv_name_snoc:
  "kv_name re (names @ [n]) i w x \<longleftrightarrow> kv_name re names i w x \<or> (x = n \<and> (\<exists>ds. re n = Some (ds, w) \<and> layer_index ds = i))"
  by (auto simp: kv_name_def)

text \<open>The table holds, for every layer and role, a name that occurs with them, if there is one.\<close>

lemma by_layer_names:
  "(case fst (names_of (by_layer re names) i) of Some n \<Rightarrow> kv_name re names i ''key'' n | None \<Rightarrow> \<not> Ex (kv_name re names i ''key''))"
  "(case snd (names_of (by_layer re names) i) of Some n \<Rightarrow> kv_name re names i ''value'' n | None \<Rightarrow> \<not> Ex (kv_name re names i ''value''))"
proof (induction names rule: rev_induct)
  case Nil
  { case 1 show ?case by (simp add: names_of_def by_layer_def kv_name_def) }
  { case 2 show ?case by (simp add: names_of_def by_layer_def kv_name_def) }
next
  case (snoc n names)
  { case 1 show ?case
      using snoc(1) by (auto simp: names_of_by_layer_snoc set_kv_name_def kv_name_snoc split: option.splits) }
  { case 2 show ?case
      using snoc(2) by (auto simp: names_of_by_layer_snoc set_kv_name_def kv_name_snoc split: option.splits) }
qed

lemma in_by_layer_iff: "(i, kv) \<in> set (by_layer re names) \<longleftrightarrow> map_of (by_layer re names) i = Some kv"
  using sorted_by_layer[of re names] by (intro map_of_eq_Some_iff[symmetric]) (simp add: strict_sorted_iff)

text \<open>The layers that are kept, with their indices.\<close>

definition paired_indices :: "string list \<Rightarrow> string list \<Rightarrow> kv_regex \<Rightarrow> kv_regex \<Rightarrow> u32 list" where
  "paired_indices inputs outputs past_re present_re =
     map fst (filter (\<lambda>e. pair_layer (by_layer present_re outputs) e \<noteq> None) (by_layer past_re inputs))"

lemma pair_layer_names:
  assumes "e \<in> set (by_layer past_re inputs)" and "pair_layer (by_layer present_re outputs) e = Some l"
  shows "kv_name past_re inputs (fst e) ''key'' (past_key_input l) \<and> kv_name past_re inputs (fst e) ''value'' (past_value_input l) \<and>
    kv_name present_re outputs (fst e) ''key'' (present_key_output l) \<and> kv_name present_re outputs (fst e) ''value'' (present_value_output l)"
proof -
  obtain i pk pv where e: "e = (i, pk, pv)" by (metis prod.exhaust)
  then have past: "names_of (by_layer past_re inputs) i = (pk, pv)"
    using assms(1) by (simp add: in_by_layer_iff names_of_def)
  have present: "names_of (by_layer present_re outputs) i = (Some (present_key_output l), Some (present_value_output l))"
    and l: "pk = Some (past_key_input l)" "pv = Some (past_value_input l)"
    using assms(2) e by (auto simp: pair_layer_def names_of_def split: option.splits)
  show ?thesis
    using by_layer_names[of past_re inputs i] by_layer_names[of present_re outputs i] by (simp add: e past present l)
qed

lemma pair_layer_complete:
  assumes "Ex (kv_name past_re inputs i ''key'')" "Ex (kv_name past_re inputs i ''value'')"
    "Ex (kv_name present_re outputs i ''key'')" "Ex (kv_name present_re outputs i ''value'')"
  shows "i \<in> set (paired_indices inputs outputs past_re present_re)"
proof -
  obtain pk pv where past: "map_of (by_layer past_re inputs) i = Some (Some pk, Some pv)"
    using assms(1,2) by_layer_names[of past_re inputs i] by (auto simp: names_of_def split: option.splits)
  obtain sk sv where "map_of (by_layer present_re outputs) i = Some (Some sk, Some sv)"
    using assms(3,4) by_layer_names[of present_re outputs i] by (auto simp: names_of_def split: option.splits)
  then have "pair_layer (by_layer present_re outputs) (i, Some pk, Some pv) \<noteq> None" by (simp add: pair_layer_def)
  moreover have "(i, Some pk, Some pv) \<in> set (by_layer past_re inputs)" using past by (simp add: in_by_layer_iff)
  ultimately show ?thesis unfolding paired_indices_def by force
qed

text \<open>A model whose logits have no name has no logits type either, so the generation loop refuses it early.\<close>

lemma probe_no_logits: "logits_name (probe past_re present_re ss) = None \<Longrightarrow> logits_dtype (probe past_re present_re ss) = None"
  by (simp add: probe_def Let_def)

section \<open>Properties\<close>

text \<open>Probing an ONNX model pairs the right cache tensors.  The layers found are in strictly increasing order of
  their index; each layer's four names carry that index and the right role on the right side (past names are
  inputs, present names outputs); and a layer is found for exactly the indices for which all four exist.\<close>

theorem kv_layers_paired:
  "\<exists>idx. length idx = length (pair_kv_layers inputs outputs past_re present_re) \<and> sorted_wrt (<) idx \<and>
     (\<forall>(i, l) \<in> set (zip idx (pair_kv_layers inputs outputs past_re present_re)).
        kv_name past_re inputs i ''key'' (past_key_input l) \<and> kv_name past_re inputs i ''value'' (past_value_input l) \<and>
        kv_name present_re outputs i ''key'' (present_key_output l) \<and> kv_name present_re outputs i ''value'' (present_value_output l)) \<and>
     (\<forall>i. i \<in> set idx \<longleftrightarrow> Ex (kv_name past_re inputs i ''key'') \<and> Ex (kv_name past_re inputs i ''value'') \<and>
        Ex (kv_name present_re outputs i ''key'') \<and> Ex (kv_name present_re outputs i ''value''))"
proof -
  let ?pair = "pair_layer (by_layer present_re outputs)"
  let ?es = "filter (\<lambda>e. ?pair e \<noteq> None) (by_layer past_re inputs)"
  let ?idx = "paired_indices inputs outputs past_re present_re"
  let ?named = "\<lambda>i l. kv_name past_re inputs i ''key'' (past_key_input l) \<and> kv_name past_re inputs i ''value'' (past_value_input l) \<and>
        kv_name present_re outputs i ''key'' (present_key_output l) \<and> kv_name present_re outputs i ''value'' (present_value_output l)"
  have layers: "pair_kv_layers inputs outputs past_re present_re = map (the \<circ> ?pair) ?es"
    by (simp add: pair_kv_layers_def List.map_filter_def)
  have named: "?named (fst e) (the (?pair e))" if "e \<in> set ?es" for e
    using that pair_layer_names[of e past_re inputs present_re outputs "the (?pair e)"] by auto
  have "sorted_wrt (<) ?idx"
    unfolding paired_indices_def using sorted_by_layer[of past_re inputs]
    by (simp add: sorted_wrt_map sorted_wrt_filter)
  moreover have "\<forall>(i, l) \<in> set (zip ?idx (map (the \<circ> ?pair) ?es)). ?named i l"
    unfolding paired_indices_def zip_map_map zip_same_conv_map using named by fastforce
  moreover have "i \<in> set ?idx \<longleftrightarrow> Ex (kv_name past_re inputs i ''key'') \<and> Ex (kv_name past_re inputs i ''value'') \<and>
        Ex (kv_name present_re outputs i ''key'') \<and> Ex (kv_name present_re outputs i ''value'')" for i
  proof
    assume "i \<in> set ?idx"
    then obtain e where "e \<in> set ?es" "i = fst e" unfolding paired_indices_def by auto
    then show "Ex (kv_name past_re inputs i ''key'') \<and> Ex (kv_name past_re inputs i ''value'') \<and>
        Ex (kv_name present_re outputs i ''key'') \<and> Ex (kv_name present_re outputs i ''value'')" using named by blast
  qed (use pair_layer_complete in blast)
  ultimately show ?thesis
    unfolding layers by (intro exI[of _ ?idx]) (simp add: paired_indices_def)
qed


definition demo_past :: kv_regex where
  "demo_past = map_of [(''past.0.key'', (''0'', ''key'')), (''past.0.value'', (''0'', ''value''))]"

definition demo_present :: kv_regex where
  "demo_present = map_of [(''present.0.key'', (''0'', ''key'')), (''present.0.value'', (''0'', ''value''))]"

theorem kv_layers_paired_witness:
  "\<exists>idx. length idx = length (pair_kv_layers [''input_ids'', ''past.0.value'', ''past.0.key''] [''present.0.key'', ''present.0.value'']
       demo_past demo_present) \<and> (0 :: u32) \<in> set idx"
proof -
  let ?ins = "[''input_ids'', ''past.0.value'', ''past.0.key'']" and ?outs = "[''present.0.key'', ''present.0.value'']"
  have zero: "layer_index ''0'' = 0"
    by (simp add: layer_index_def parse_u32_def digit_value_def byte_of_def)
  have "kv_name demo_past ?ins 0 ''key'' ''past.0.key''" "kv_name demo_past ?ins 0 ''value'' ''past.0.value''"
    "kv_name demo_present ?outs 0 ''key'' ''present.0.key''" "kv_name demo_present ?outs 0 ''value'' ''present.0.value''"
    by (simp_all add: kv_name_def demo_past_def demo_present_def zero)
  then have named: "Ex (kv_name demo_past ?ins 0 ''key'') \<and> Ex (kv_name demo_past ?ins 0 ''value'') \<and>
      Ex (kv_name demo_present ?outs 0 ''key'') \<and> Ex (kv_name demo_present ?outs 0 ''value'')" by metis
  obtain idx where len: "length idx = length (pair_kv_layers ?ins ?outs demo_past demo_present)"
    and all: "\<forall>i. i \<in> set idx \<longleftrightarrow> Ex (kv_name demo_past ?ins i ''key'') \<and> Ex (kv_name demo_past ?ins i ''value'') \<and>
        Ex (kv_name demo_present ?outs i ''key'') \<and> Ex (kv_name demo_present ?outs i ''value'')"
    using kv_layers_paired[of ?ins ?outs demo_past demo_present] by (elim exE conjE) (rule that)
  have "0 \<in> set idx" using all named by (simp only: simp_thms)
  with len show ?thesis by blast
qed

end
