(* ===== verification/Ort_Sampling.thy ===== *)
theory Ort_Sampling
  imports Core_Types "HOL-Library.Multiset"
begin

text \<open>
  \<^verbatim>\<open>inference-runtime-ort/src/sampling.rs\<close>: from logits to the next token.  The exponential function, the
  partial selection of the standard library (\<^verbatim>\<open>select_nth_unstable_by\<close>, whose order within the two
  parts is unspecified) and the weighted choice of \<^verbatim>\<open>rand\<close> are fields of an environment; the locale
  \<open>sampler\<close> states what their documentation promises.
\<close>

section \<open>Definitions\<close>

type_synonym scored = "(u32 \<times> f32) list"

record 'rng sampling_env =
  se_exp :: "f32 \<Rightarrow> f32"
  se_select_nth :: "nat \<Rightarrow> scored \<Rightarrow> scored"
  se_sort :: "scored \<Rightarrow> scored"
  se_weighted :: "f32 list \<Rightarrow> 'rng \<Rightarrow> (nat \<times> 'rng) option"

definition argmax_step :: "nat \<times> f32 \<Rightarrow> nat \<times> f32 \<Rightarrow> nat \<times> f32" where
  "argmax_step best iv = (if fp_lt (snd best) (snd iv) then iv else best)"

definition argmax :: "f32 list \<Rightarrow> u32" where
  "argmax logits = word_of_nat (fst (foldl argmax_step (0, NInf) (enumerate 0 logits)))"

definition f32_sum :: "f32 list \<Rightarrow> f32" where
  "f32_sum xs = foldl f32_add (Fin 0) xs"

definition scale_logits :: "f32 \<Rightarrow> f32 list \<Rightarrow> scored" where
  "scale_logits temp logits = map (\<lambda>(i, l). (word_of_nat i, f32_div l temp)) (enumerate 0 logits)"

text \<open>Division by the sum when it is positive, which ends both normalisations.\<close>

definition renormalise :: "f32 \<Rightarrow> scored \<Rightarrow> scored" where
  "renormalise s xs = (if fp_lt (Fin 0) s then map (\<lambda>(t, w). (t, f32_div w s)) xs else xs)"

definition softmax :: "(f32 \<Rightarrow> f32) \<Rightarrow> scored \<Rightarrow> scored" where
  "softmax ex sc =
     (let mx = foldl fp_max NInf (map snd sc);
          exps = map (\<lambda>(t, l). (t, ex (f32_sub l mx))) sc;
          total = f32_sum (map snd exps)
      in renormalise total exps)"

text \<open>The number of leading entries whose weights first reach \<open>p\<close>.\<close>

fun nucleus :: "f32 \<Rightarrow> f32 \<Rightarrow> nat \<Rightarrow> f32 list \<Rightarrow> nat option" where
  "nucleus p acc i [] = None"
| "nucleus p acc i (w # ws) =
     (let acc1 = f32_add acc w in if fp_le p acc1 then Some (i + 1) else nucleus p acc1 (i + 1) ws)"

definition apply_top_k :: "'rng sampling_env \<Rightarrow> u32 option \<Rightarrow> scored \<Rightarrow> scored" where
  "apply_top_k env k sc = (case k of
     None \<Rightarrow> sc
   | Some n \<Rightarrow> if unat n < length sc \<and> 0 < n then take (unat n) (se_select_nth env (unat n - 1) sc) else sc)"

definition apply_top_p :: "'rng sampling_env \<Rightarrow> f32 option \<Rightarrow> scored \<Rightarrow> scored" where
  "apply_top_p env p probs = (case p of
     None \<Rightarrow> probs
   | Some q \<Rightarrow>
       if fp_le (Fin 0) q \<and> fp_lt q (Fin 1)
       then (let sorted = se_sort env probs;
                 cutoff = (case nucleus q (Fin 0) 0 (map snd sorted) of Some c \<Rightarrow> c | None \<Rightarrow> length sorted);
                 kept = take cutoff sorted;
                 s = f32_sum (map snd kept)
             in renormalise s kept)
       else probs)"

definition sample_next :: "'rng sampling_env \<Rightarrow> f32 list \<Rightarrow> sampling_params \<Rightarrow> 'rng \<Rightarrow> u32 \<times> 'rng" where
  "sample_next env logits params rng =
     (let temp = (case temperature params of Some t \<Rightarrow> t | None \<Rightarrow> Fin 1) in
      if fp_le temp (Fin 0) then (argmax logits, rng)
      else
        (let sc = scale_logits temp logits;
             probs = apply_top_p env (top_p params) (softmax (se_exp env) (apply_top_k env (top_k params) sc))
         in case se_weighted env (map snd probs) rng of
              Some (i, rng') \<Rightarrow> (fst (probs ! i), rng')
            | None \<Rightarrow> (case probs of (t, _) # _ \<Rightarrow> t | [] \<Rightarrow> argmax logits, rng)))"

section \<open>Greedy choice\<close>

lemma unat_u32_of_nat: "n < 2 ^ 32 \<Longrightarrow> unat (word_of_nat n :: u32) = n"
  by (simp add: unsigned_of_nat take_bit_nat_eq_self)

text \<open>Scanning for the maximum ignores values that are not numbers and keeps the first of equal ones.\<close>

lemma argmax_fold:
  assumes "v \<noteq> NaN"
  shows "case foldl argmax_step (b, v) (enumerate 0 xs) of (j, m) \<Rightarrow>
     m \<noteq> NaN \<and> (\<forall>x \<in> set xs. \<not> fp_lt m x) \<and>
     (j = b \<and> m = v \<or> j < length xs \<and> xs ! j = m \<and> (\<forall>i < j. xs ! i = NaN \<or> fp_lt (xs ! i) m))"
proof (induction xs rule: rev_induct)
  case Nil
  then show ?case using assms by simp
next
  case (snoc x xs)
  obtain j m where f: "foldl argmax_step (b, v) (enumerate 0 xs) = (j, m)" by (meson surj_pair)
  have ih: "m \<noteq> NaN" "\<forall>y \<in> set xs. \<not> fp_lt m y"
    "j = b \<and> m = v \<or> j < length xs \<and> xs ! j = m \<and> (\<forall>i < j. xs ! i = NaN \<or> fp_lt (xs ! i) m)"
    using snoc f by simp_all
  show ?case
  proof (cases "fp_lt m x")
    case True
    have lt: "xs ! i = NaN \<or> fp_lt (xs ! i) x" if "i < length xs" for i
      using ih(2) nth_mem[OF that] by (intro fp_lt_if_not_greater[OF True]) blast
    have "foldl argmax_step (b, v) (enumerate 0 (xs @ [x])) = (length xs, x)"
      using f True by (simp add: enumerate_append_eq argmax_step_def)
    moreover have "\<not> fp_lt x y" if "y \<in> set xs" for y
      using ih(2) that fp_lt_trans[OF True] by blast
    ultimately show ?thesis
      using lt fp_lt_not_NaN[OF True] by (simp add: nth_append)
  next
    case False
    then have "foldl argmax_step (b, v) (enumerate 0 (xs @ [x])) = (j, m)"
      using f by (simp add: enumerate_append_eq argmax_step_def)
    then show ?thesis using ih False by (auto simp: nth_append)
  qed
qed

section \<open>The library's promises\<close>

text \<open>
  What the documentation of \<^verbatim>\<open>select_nth_unstable_by\<close>, \<^verbatim>\<open>sort_by\<close> and \<^verbatim>\<open>WeightedIndex\<close> says: the first two permute the
  slice, the selection puts nothing behind position \<open>n\<close> that the comparator (descending here) would order
  before it when the comparator is a total order, and an index drawn lies within the weights.
\<close>

definition sampling_laws :: "'rng sampling_env \<Rightarrow> bool" where
  "sampling_laws env \<longleftrightarrow>
     (\<forall>n xs. n < length xs \<longrightarrow> mset (se_select_nth env n xs) = mset xs \<and>
        (list_all (\<lambda>a. snd a \<noteq> NaN) xs \<longrightarrow>
          (\<forall>a \<in> set (take (Suc n) (se_select_nth env n xs)). \<forall>b \<in> set (drop (Suc n) (se_select_nth env n xs)).
             \<not> fp_lt (snd a) (snd b)))) \<and>
     (\<forall>xs. mset (se_sort env xs) = mset xs) \<and>
     (\<forall>ws rng i rng'. se_weighted env ws rng = Some (i, rng') \<longrightarrow> i < length ws)"

lemma select_nth_law:
  assumes "sampling_laws env" and "n < length xs"
  shows "mset (se_select_nth env n xs) = mset xs"
    and "list_all (\<lambda>a. snd a \<noteq> NaN) xs \<Longrightarrow>
      \<forall>a \<in> set (take (Suc n) (se_select_nth env n xs)). \<forall>b \<in> set (drop (Suc n) (se_select_nth env n xs)).
        \<not> fp_lt (snd a) (snd b)"
  using assms unfolding sampling_laws_def by blast+

section \<open>Candidates\<close>

lemma fst_renormalise [simp]: "map fst (renormalise s xs) = map fst xs"
  by (auto simp: renormalise_def)

lemma fst_softmax: "map fst (softmax ex sc) = map fst sc"
  by (auto simp: softmax_def Let_def)

lemma nucleus_pos: "nucleus p acc i ws = Some c \<Longrightarrow> i < c"
  by (induction p acc i ws rule: nucleus.induct) (force simp: Let_def split: if_splits)+

text \<open>Nucleus truncation keeps a prefix, never an empty one, of the sorted candidates.\<close>

lemma fst_top_p:
  assumes "apply_top_p env p probs \<noteq> probs"
  shows "\<exists>c. map fst (apply_top_p env p probs) = take (Suc c) (map fst (se_sort env probs))"
proof -
  obtain q where q: "p = Some q" "fp_le (Fin 0) q \<and> fp_lt q (Fin 1)"
    using assms by (auto simp: apply_top_p_def split: option.splits if_splits)
  show ?thesis
  proof (cases "nucleus q (Fin 0) 0 (map snd (se_sort env probs))")
    case None
    then show ?thesis
      using q by (intro exI[of _ "length (se_sort env probs)"]) (simp add: apply_top_p_def Let_def)
  next
    case (Some c)
    then obtain c' where "c = Suc c'" using nucleus_pos[OF Some] by (cases c) auto
    then show ?thesis using q Some by (auto simp: apply_top_p_def Let_def take_map)
  qed
qed

lemma fst_image_top_p:
  assumes "sampling_laws env"
  shows "fst ` set (apply_top_p env p probs) \<subseteq> fst ` set probs"
proof (cases "apply_top_p env p probs = probs")
  case False
  then obtain c where c: "map fst (apply_top_p env p probs) = take c (map fst (se_sort env probs))"
    using fst_top_p by blast
  have "set (se_sort env probs) = set probs"
    using assms unfolding sampling_laws_def by (metis set_mset_mset)
  then show ?thesis by (metis c list.set_map set_take_subset)
qed simp

lemma top_p_not_empty:
  assumes "sampling_laws env" and "probs \<noteq> []"
  shows "apply_top_p env p probs \<noteq> []"
proof (cases "apply_top_p env p probs = probs")
  case False
  then obtain c where c: "map fst (apply_top_p env p probs) = take (Suc c) (map fst (se_sort env probs))"
    using fst_top_p by blast
  have "mset (se_sort env probs) = mset probs" using assms(1) by (simp add: sampling_laws_def)
  then have "se_sort env probs \<noteq> []" using assms(2) by auto
  then show ?thesis using c by auto
qed (use assms in simp)

lemma top_k_subset:
  assumes "sampling_laws env"
  shows "set (apply_top_k env k sc) \<subseteq> set sc"
proof -
  have "set (se_select_nth env n sc) = set sc" if "n < length sc" for n
    using assms that unfolding sampling_laws_def by (metis set_mset_mset)
  then show ?thesis
    by (auto simp: apply_top_k_def unat_gt_0 dest!: in_set_takeD split: option.splits)
qed

lemma top_k_not_empty:
  assumes "sampling_laws env" and "sc \<noteq> []"
  shows "apply_top_k env k sc \<noteq> []"
proof -
  have "se_select_nth env n sc \<noteq> []" if "n < length sc" for n
    using assms that unfolding sampling_laws_def by (metis mset_zero_iff)
  then show ?thesis
    using assms(2) by (auto simp: apply_top_k_def unat_gt_0 less_imp_diff_less split: option.splits)
qed

text \<open>The token drawn labels one of the entries left by the truncation to the \<open>k\<close> best.\<close>

lemma sampled_from_candidates:
  assumes "sampling_laws env" and "logits \<noteq> []"
    and "temp = (case temperature params of Some t \<Rightarrow> t | None \<Rightarrow> Fin 1)" and "\<not> fp_le temp (Fin 0)"
    and "sample_next env logits params rng = (t, rng')"
  shows "t \<in> fst ` set (apply_top_k env (top_k params) (scale_logits temp logits))"
proof -
  define cand where "cand = apply_top_k env (top_k params) (scale_logits temp logits)"
  define probs where "probs = apply_top_p env (top_p params) (softmax (se_exp env) cand)"
  have "cand \<noteq> []"
    unfolding cand_def by (rule top_k_not_empty[OF assms(1)]) (use assms(2) in \<open>simp add: scale_logits_def enumerate_eq_zip\<close>)
  then have "softmax (se_exp env) cand \<noteq> []" by (metis fst_softmax map_is_Nil_conv)
  then have ne: "probs \<noteq> []" using top_p_not_empty[OF assms(1)] by (simp add: probs_def)
  have sub: "fst ` set probs \<subseteq> fst ` set cand"
    using fst_image_top_p[OF assms(1)] fst_softmax by (metis probs_def list.set_map)
  have "t \<in> fst ` set probs"
  proof (cases "se_weighted env (map snd probs) rng")
    case None
    then show ?thesis
      using assms(3-5) ne by (auto simp: sample_next_def Let_def probs_def cand_def split: list.splits)
  next
    case (Some r)
    then have "fst r < length probs" using assms(1) unfolding sampling_laws_def by (metis length_map prod.collapse)
    then show ?thesis
      using assms(3-5) Some by (auto simp: sample_next_def Let_def probs_def cand_def split: prod.splits)
  qed
  then show ?thesis using sub by (auto simp: cand_def)
qed


lemma set_scale_logits:
  "a \<in> set (scale_logits temp logits) \<longleftrightarrow>
   (\<exists>i < length logits. a = (word_of_nat i, f32_div (logits ! i) temp))"
  by (auto simp: scale_logits_def in_set_enumerate_eq image_iff split: prod.splits)

text \<open>At most \<open>k - 1\<close> candidates beat one of the \<open>k\<close> that are kept.\<close>

lemma top_k_rank:
  assumes "sampling_laws env" and "list_all (\<lambda>a. snd a \<noteq> NaN) sc" and "0 < k"
    and "a \<in> set (apply_top_k env (Some k) sc)"
  shows "card {b \<in> set sc. fp_lt (snd a) (snd b)} < unat k"
proof -
  let ?kept = "apply_top_k env (Some k) sc"
  let ?better = "{b \<in> set sc. fp_lt (snd a) (snd b)}"
  have pos: "0 < unat k" using assms(3) by (simp add: unat_gt_0)
  have better: "?better \<subseteq> set ?kept - {a}" and len: "length ?kept \<le> unat k"
  proof -
    show "length ?kept \<le> unat k" using assms(3) by (auto simp: apply_top_k_def)
    show "?better \<subseteq> set ?kept - {a}"
    proof (cases "unat k < length sc")
      case True
      define sel where "sel = se_select_nth env (unat k - 1) sc"
      have "unat k - 1 < length sc" and "Suc (unat k - 1) = unat k" using True pos by auto
      then have "mset sel = mset sc" and cut: "\<forall>a \<in> set (take (unat k) sel). \<forall>b \<in> set (drop (unat k) sel). \<not> fp_lt (snd a) (snd b)"
        using select_nth_law[OF assms(1), of "unat k - 1" sc] assms(2) unfolding sel_def by auto
      then have "set sc = set (take (unat k) sel) \<union> set (drop (unat k) sel)"
        by (metis append_take_drop_id set_append set_mset_mset)
      moreover have "?kept = take (unat k) sel"
        using True assms(3) by (simp add: apply_top_k_def sel_def)
      ultimately show ?thesis using cut assms(4) by auto
    qed (use assms(4) in \<open>auto simp: apply_top_k_def\<close>)
  qed
  have "card ?better \<le> card (set ?kept - {a})" by (intro card_mono better) simp
  also have "\<dots> < card (set ?kept)" using assms(4) by (meson List.finite_set card_Diff1_less)
  also have "\<dots> \<le> unat k" using card_length[of ?kept] len by linarith
  finally show ?thesis .
qed


section \<open>A reference sampler\<close>

text \<open>Full descending insertion sort meets the contract of the partial selection; the choice is the first weight.\<close>

fun insert_desc :: "u32 \<times> f32 \<Rightarrow> scored \<Rightarrow> scored" where
  "insert_desc a [] = [a]"
| "insert_desc a (b # bs) = (if fp_lt (snd a) (snd b) then b # insert_desc a bs else a # b # bs)"

definition sort_desc :: "scored \<Rightarrow> scored" where
  "sort_desc xs = foldr insert_desc xs []"

definition reference_sampler :: "unit sampling_env" where
  "reference_sampler = \<lparr>se_exp = (\<lambda>x. if x = Fin 0 then Fin 1 else Fin 0), se_select_nth = (\<lambda>n. sort_desc),
     se_sort = sort_desc, se_weighted = (\<lambda>ws r. if ws = [] then None else Some (0, r))\<rparr>"

lemma mset_insert_desc [simp]: "mset (insert_desc a xs) = add_mset a (mset xs)"
  by (induction xs) auto

lemma mset_sort_desc [simp]: "mset (sort_desc xs) = mset xs"
  by (induction xs) (auto simp: sort_desc_def)

lemma set_insert_desc [simp]: "set (insert_desc a xs) = insert a (set xs)"
  by (metis mset_insert_desc set_mset_mset set_mset_add_mset_insert)

lemma set_sort_desc [simp]: "set (sort_desc xs) = set xs"
  by (metis mset_sort_desc set_mset_mset)

lemma sorted_insert_desc:
  "sorted_wrt (\<lambda>a b. \<not> fp_lt (snd a) (snd b)) xs \<Longrightarrow> snd a \<noteq> NaN \<Longrightarrow> list_all (\<lambda>a. snd a \<noteq> NaN) xs \<Longrightarrow>
   sorted_wrt (\<lambda>a b. \<not> fp_lt (snd a) (snd b)) (insert_desc a xs)"
proof (induction xs)
  case (Cons b bs)
  have "\<not> fp_lt (snd a) (snd c)" if "\<not> fp_lt (snd a) (snd b)" "c \<in> set bs" for c
    using that Cons.prems fp_not_lt_trans[of "snd a" "snd b" "snd c"] by simp
  moreover have "\<not> fp_lt (snd b) (snd a)" if "fp_lt (snd a) (snd b)"
    using that fp_lt_trans fp_lt_irrefl by blast
  ultimately show ?case using Cons by simp
qed simp

lemma sorted_sort_desc:
  "list_all (\<lambda>a. snd a \<noteq> NaN) xs \<Longrightarrow> sorted_wrt (\<lambda>a b. \<not> fp_lt (snd a) (snd b)) (sort_desc xs)"
proof (induction xs)
  case (Cons a xs)
  then show ?case
    using sorted_insert_desc[of "sort_desc xs" a] by (simp add: sort_desc_def[symmetric] list_all_iff)
      (simp add: sort_desc_def)
qed (simp add: sort_desc_def)

lemma reference_sampling_laws: "sampling_laws reference_sampler"
proof -
  have cut: "\<forall>a \<in> set (take n (sort_desc xs)). \<forall>b \<in> set (drop n (sort_desc xs)). \<not> fp_lt (snd a) (snd b)"
    if "list_all (\<lambda>a. snd a \<noteq> NaN) xs" for n xs
    using sorted_sort_desc[OF that] by (metis append_take_drop_id sorted_wrt_append)
  show ?thesis
    unfolding sampling_laws_def
  proof (intro conjI allI impI)
    show "\<forall>a \<in> set (take (Suc n) (se_select_nth reference_sampler n xs)).
        \<forall>b \<in> set (drop (Suc n) (se_select_nth reference_sampler n xs)). \<not> fp_lt (snd a) (snd b)"
      if "list_all (\<lambda>a. snd a \<noteq> NaN) xs" for n xs
      using cut[OF that] by (simp add: reference_sampler_def)
  qed (auto simp: reference_sampler_def split: if_splits)
qed

section \<open>Properties\<close>

text \<open>Greedy decoding takes the first maximum.  A temperature of zero or below draws nothing from the
  generator and returns the first position of the largest logit; logits that are not numbers never win, and
  position 0 is returned when no logit is above minus infinity.\<close>

theorem greedy_first_maximum:
  assumes "temperature params = Some temp" and "fp_le temp (Fin 0)"
    and "length logits \<le> 2 ^ 32" and "logits \<noteq> []" and "sample_next env logits params rng = (t, rng')"
  shows "rng' = rng \<and> unat t < length logits \<and> (\<forall>x \<in> set logits. \<not> fp_lt (logits ! unat t) x) \<and>
    (\<forall>i < unat t. \<not> fp_lt (logits ! unat t) (logits ! i) \<and> logits ! i \<noteq> logits ! unat t)"
proof -
  obtain j m where f: "foldl argmax_step (0, NInf) (enumerate 0 logits) = (j, m)" by (meson surj_pair)
  have spec: "m \<noteq> NaN" "\<forall>x \<in> set logits. \<not> fp_lt m x"
    "j = 0 \<and> m = NInf \<or> j < length logits \<and> logits ! j = m \<and> (\<forall>i < j. logits ! i = NaN \<or> fp_lt (logits ! i) m)"
    using argmax_fold[where v = NInf and b = 0 and xs = logits] f by simp_all
  have j: "j < length logits" using spec(3) assms(4) by auto
  then have t: "unat t = j" "rng' = rng"
    using assms f by (auto simp: sample_next_def argmax_def unat_u32_of_nat)
  show ?thesis
  proof (intro conjI)
    have "\<not> fp_lt (logits ! j) x" if "x \<in> set logits" for x
      using spec that j by (cases "logits ! j"; cases x) (auto dest: nth_mem)
    then show "\<forall>x \<in> set logits. \<not> fp_lt (logits ! unat t) x" using t by simp
    show "\<forall>i < unat t. \<not> fp_lt (logits ! unat t) (logits ! i) \<and> logits ! i \<noteq> logits ! unat t"
      using spec t j by auto
  qed (use t j in auto)
qed


theorem greedy_first_maximum_witness:
  "unat (fst (sample_next reference_sampler [Fin 1, NaN, Fin 3, Fin 3]
     (default_sampling_params\<lparr>temperature := Some (Fin 0)\<rparr>) ())) = 2 \<and>
   list_all (\<lambda>x. \<not> fp_lt ([Fin 1, NaN, Fin 3, Fin 3] ! 2) x) [Fin 1, NaN, Fin 3, Fin 3]"
proof -
  let ?r = "sample_next reference_sampler [Fin 1, NaN, Fin 3, Fin 3] (default_sampling_params\<lparr>temperature := Some (Fin 0)\<rparr>) ()"
  have r: "?r = (2, ())"
    by (simp add: sample_next_def argmax_def argmax_step_def fp_le_def)
  show ?thesis
    using greedy_first_maximum[of "default_sampling_params\<lparr>temperature := Some (Fin 0)\<rparr>" "Fin 0"
        "[Fin 1, NaN, Fin 3, Fin 3]" reference_sampler "()" 2 "()"] r
    by (simp add: fp_le_def)
qed

text \<open>C19: a sampled token is a token of the vocabulary and obeys \<^verbatim>\<open>top_k\<close>.  Whatever the exponential function and the
  generator do, the token drawn indexes the logits, and when \<^verbatim>\<open>top_k\<close> is a positive \<open>k\<close> and the scaled logits are
  numbers, fewer than \<open>k\<close> logits are larger than the one drawn.\<close>

theorem sampled_token_in_top_k:
  assumes "sampling_laws env" and "logits \<noteq> []" and "length logits \<le> 2 ^ 32"
    and "temp = (case temperature params of Some t \<Rightarrow> t | None \<Rightarrow> Fin 1)" and "\<not> fp_le temp (Fin 0)"
    and "sample_next env logits params rng = (t, rng')"
  shows "unat t < length logits \<and>
    (top_k params = Some k \<and> 0 < k \<and> (\<forall>l \<in> set logits. f32_div l temp \<noteq> NaN) \<longrightarrow>
      card {i. i < length logits \<and> fp_lt (f32_div (logits ! unat t) temp) (f32_div (logits ! i) temp)} < unat k)"
proof -
  obtain a where a: "a \<in> set (apply_top_k env (top_k params) (scale_logits temp logits))" "t = fst a"
    using sampled_from_candidates[OF assms(1,2,4-6)] by auto
  then have "a \<in> set (scale_logits temp logits)" using top_k_subset[OF assms(1)] by blast
  then obtain i where i: "i < length logits" "a = (word_of_nat i, f32_div (logits ! i) temp)"
    by (auto simp: set_scale_logits)
  then have t: "unat t = i" using a(2) assms(3) by (simp add: unat_u32_of_nat)
  have "card {i. i < length logits \<and> fp_lt (snd a) (f32_div (logits ! i) temp)} < unat k"
    if "top_k params = Some k" "0 < k" "\<forall>l \<in> set logits. f32_div l temp \<noteq> NaN"
  proof -
    let ?entry = "\<lambda>i. (word_of_nat i :: u32, f32_div (logits ! i) temp)"
    have "inj_on ?entry {i. i < length logits \<and> fp_lt (snd a) (f32_div (logits ! i) temp)}"
    proof (rule inj_onI)
      fix x y
      assume "x \<in> {i. i < length logits \<and> fp_lt (snd a) (f32_div (logits ! i) temp)}"
        and "y \<in> {i. i < length logits \<and> fp_lt (snd a) (f32_div (logits ! i) temp)}" and "?entry x = ?entry y"
      then have "unat (word_of_nat x :: u32) = unat (word_of_nat y :: u32)" "x < 2 ^ 32" "y < 2 ^ 32"
        using assms(3) by auto
      then show "x = y" by (simp only: unat_u32_of_nat)
    qed
    then have "card {i. i < length logits \<and> fp_lt (snd a) (f32_div (logits ! i) temp)} =
        card (?entry ` {i. i < length logits \<and> fp_lt (snd a) (f32_div (logits ! i) temp)})"
      by (simp add: card_image)
    also have "\<dots> \<le> card {b \<in> set (scale_logits temp logits). fp_lt (snd a) (snd b)}"
      by (intro card_mono) (auto simp: set_scale_logits)
    also have "\<dots> < unat k"
    proof (rule top_k_rank[OF assms(1)])
      show "list_all (\<lambda>a. snd a \<noteq> NaN) (scale_logits temp logits)"
        using that(3) by (auto simp: list_all_iff set_scale_logits) (metis nth_mem)
    qed (use that a in auto)
    finally show ?thesis .
  qed
  then show ?thesis using t i by simp
qed

theorem sampled_token_in_top_k_witness:
  "card {i. i < length [Fin 1, Fin 3, Fin 2] \<and>
     fp_lt (f32_div ([Fin 1, Fin 3, Fin 2] ! unat (fst (sample_next reference_sampler [Fin 1, Fin 3, Fin 2]
       (default_sampling_params\<lparr>top_k := Some 1\<rparr>) ()))) (Fin 1)) (f32_div ([Fin 1, Fin 3, Fin 2] ! i) (Fin 1))} < 1"
proof -
  let ?params = "default_sampling_params\<lparr>top_k := Some 1\<rparr>"
  let ?r = "sample_next reference_sampler [Fin 1, Fin 3, Fin 2] ?params ()"
  have "temperature ?params = None" "top_k ?params = Some 1" by (simp_all add: default_sampling_params_def)
  moreover have "\<forall>l \<in> set [Fin 1, Fin 3, Fin 2]. f32_div l (Fin 1) \<noteq> NaN" by (simp add: f32_of_rat_def Let_def)
  moreover have "\<not> fp_le (Fin 1) (Fin 0)" by (simp add: fp_le_def)
  moreover have "?r = (fst ?r, snd ?r)" by (rule surjective_pairing)
  ultimately show ?thesis
    using sampled_token_in_top_k[OF reference_sampling_laws, of "[Fin 1, Fin 3, Fin 2]" "Fin 1" ?params "()" "fst ?r" "snd ?r" 1]
    by simp
qed

end
