(* ===== verification/Ort_Generate.thy ===== *)
theory Ort_Generate
  imports Ort_Model Ort_Sampling Session
begin

text \<open>
  \<^verbatim>\<open>inference-runtime-ort/src/generate.rs\<close>, \<^verbatim>\<open>infer.rs\<close> and \<^verbatim>\<open>runner.rs\<close>: chat generation with a key-value cache.  One
  iteration of the loop is \<open>gen_iter\<close>, the loop is \<open>gen_loop\<close>, the whole function with its final flush is
  \<open>run_loop\<close>.  The ONNX session, the tensor constructor, the tokenizer and the sampler's library calls are
  fields of an environment; the receiver of the bounded channel is the function \<open>ge_alive\<close>, which says for
  each message whether somebody still listens.  A slice out of range is a panic, which ends the blocking task
  without a message.  The lemmas show that the loop ends, that each token is fed at its own position, and that
  the streamed deltas add up to the decoded text.
\<close>

section \<open>Environment and state\<close>

datatype ort_tensor = TensorI64 "int list" "int list" | TensorF32 "int list" "f32 list"

type_synonym ort_outputs = "string \<Rightarrow> (string + int list \<times> f32 list) option"

record ('s, 'rng) gen_env =
  ge_session_run :: "'s \<Rightarrow> (string \<times> ort_tensor) list \<Rightarrow> (string + ort_outputs) \<times> 's"
  ge_from_array :: "ort_tensor \<Rightarrow> string option"
  ge_sampling :: "'rng sampling_env"
  ge_decode :: "u32 list \<Rightarrow> string + string"
  ge_alive :: "nat \<Rightarrow> bool"

record gen_params =
  gp_topology :: topology
  gp_request_id :: string
  gp_sampling :: sampling_params
  gp_prompt_ids :: "u32 list"
  gp_kv_heads :: nat
  gp_head_dim :: nat
  gp_max_new :: u32
  gp_eos_id :: "u32 option"

type_synonym 'j gen_item = "inference_error + 'j token_chunk"

record ('s, 'rng, 'j) gen_state =
  gs_session :: 's
  gs_rng :: 'rng
  gs_all_ids :: "u32 list"
  gs_prev :: string
  gs_output_tokens :: u32
  gs_past_kv :: "(f32 list \<times> f32 list) list"
  gs_past_len :: nat
  gs_step :: nat
  gs_sent :: "'j gen_item list"

datatype gen_fault = Failed inference_error | Panicked

section \<open>One forward pass\<close>

text \<open>\<^verbatim>\<open>Tensor::from_array\<close> with the error mapped.\<close>

definition make_tensor :: "('s, 'rng) gen_env \<Rightarrow> ort_tensor \<Rightarrow> ort_tensor inference_result" where
  "make_tensor env t = (case ge_from_array env t of Some e \<Rightarrow> Inl (map_ort_err e) | None \<Rightarrow> Inr t)"

definition cur_input :: "gen_params \<Rightarrow> ('s, 'rng, 'j) gen_state \<Rightarrow> int list" where
  "cur_input gp st = (if gs_step st = 0 then map uint (gp_prompt_ids gp) else [uint (last (gs_all_ids st))])"

definition cur_positions :: "gen_params \<Rightarrow> ('s, 'rng, 'j) gen_state \<Rightarrow> int list" where
  "cur_positions gp st = map int [gs_past_len st ..< gs_past_len st + length (cur_input gp st)]"

fun kv_inputs :: "('s, 'rng) gen_env \<Rightarrow> int list \<Rightarrow> kv_layer list \<Rightarrow> (f32 list \<times> f32 list) list \<Rightarrow>
    (string \<times> ort_tensor) list inference_result" where
  "kv_inputs env shape (l # ls) ((k, v) # kvs) =
     (case make_tensor env (TensorF32 shape k) of
        Inl e \<Rightarrow> Inl e
      | Inr tk \<Rightarrow> (case make_tensor env (TensorF32 shape v) of
          Inl e \<Rightarrow> Inl e
        | Inr tv \<Rightarrow> (case kv_inputs env shape ls kvs of
            Inl e \<Rightarrow> Inl e
          | Inr rest \<Rightarrow> Inr ((past_key_input l, tk) # (past_value_input l, tv) # rest))))"
| "kv_inputs env shape _ _ = Inr []"

definition opt_tensor :: "('s, 'rng) gen_env \<Rightarrow> string option \<Rightarrow> ort_tensor \<Rightarrow> ort_tensor option inference_result" where
  "opt_tensor env name t = (if name \<noteq> None then map_sum id Some (make_tensor env t) else Inr None)"

text \<open>The named tensors of one call, in the order in which they are made.\<close>

definition named_tensor :: "string option \<Rightarrow> ort_tensor option \<Rightarrow> (string \<times> ort_tensor) list" where
  "named_tensor name t = (case (name, t) of (Some n, Some x) \<Rightarrow> [(n, x)] | _ \<Rightarrow> [])"

definition run_with_inputs :: "('s, 'rng) gen_env \<Rightarrow> 's \<Rightarrow> topology \<Rightarrow> ort_tensor \<Rightarrow> ort_tensor option \<Rightarrow> ort_tensor option \<Rightarrow>
    (string \<times> ort_tensor) list \<Rightarrow> ort_outputs inference_result \<times> 's" where
  "run_with_inputs env session topo ids attn positions kv =
     (let ids_name = (case input_ids_name topo of Some n \<Rightarrow> n | None \<Rightarrow> ''input_ids'');
          entries = [(ids_name, ids)] @ named_tensor (attention_mask_name topo) attn @
            named_tensor (position_ids_name topo) positions @ kv
      in case ge_session_run env session entries of
           (Inl e, s') \<Rightarrow> (Inl (map_ort_err e), s') | (Inr out, s') \<Rightarrow> (Inr out, s'))"

definition gen_call :: "('s, 'rng) gen_env \<Rightarrow> gen_params \<Rightarrow> ('s, 'rng, 'j) gen_state \<Rightarrow> ort_outputs inference_result \<times> 's" where
  "gen_call env gp st =
     (let topo = gp_topology gp;
          input = cur_input gp st;
          cur_len = length input;
          total = gs_past_len st + cur_len;
          shape = [1, int (gp_kv_heads gp), int (gs_past_len st), int (gp_head_dim gp)]
      in case make_tensor env (TensorI64 [1, int cur_len] input) of
           Inl e \<Rightarrow> (Inl e, gs_session st)
         | Inr ids \<Rightarrow> (case opt_tensor env (attention_mask_name topo) (TensorI64 [1, int total] (replicate total 1)) of
             Inl e \<Rightarrow> (Inl e, gs_session st)
           | Inr attn \<Rightarrow> (case opt_tensor env (position_ids_name topo) (TensorI64 [1, int cur_len] (cur_positions gp st)) of
               Inl e \<Rightarrow> (Inl e, gs_session st)
             | Inr positions \<Rightarrow> (case kv_inputs env shape (kv_layers topo) (gs_past_kv st) of
                 Inl e \<Rightarrow> (Inl e, gs_session st)
               | Inr kv \<Rightarrow> run_with_inputs env (gs_session st) topo ids attn positions kv))))"

definition missing_output :: "string \<Rightarrow> inference_error" where
  "missing_output name = Internal (''ort: missing output '' @ [CHR 0x27] @ name @ [CHR 0x27])"

definition fetch :: "ort_outputs \<Rightarrow> string \<Rightarrow> (int list \<times> f32 list) inference_result" where
  "fetch out name = (case out name of
     None \<Rightarrow> Inl (missing_output name) | Some (Inl e) \<Rightarrow> Inl (map_ort_err e) | Some (Inr sd) \<Rightarrow> Inr sd)"

text \<open>\<^verbatim>\<open>&data[offset..offset + vocab]\<close> with \<^verbatim>\<open>offset = (seq - 1) * vocab\<close>, on 64-bit words that wrap.\<close>

definition usize_of :: "int \<Rightarrow> usize" where
  "usize_of i = word_of_int i"

definition last_logits :: "int list \<Rightarrow> f32 list \<Rightarrow> gen_fault + f32 list" where
  "last_logits shape data =
     (if length shape < 3
      then Inl (Failed (Internal (''ort: logits has rank '' @ show_nat (length shape) @ '', expected 3 ([batch, seq, vocab])'')))
      else (let vocab = usize_of (shape ! (length shape - 1));
                seq = usize_of (shape ! (length shape - 2));
                from = (seq - 1) * vocab;
                upto = from + vocab
            in if from \<le> upto \<and> unat upto \<le> length data
               then Inr (take (unat upto - unat from) (drop (unat from) data))
               else Inl Panicked))"

fun fetch_kv :: "ort_outputs \<Rightarrow> kv_layer list \<Rightarrow> (f32 list \<times> f32 list) list inference_result" where
  "fetch_kv out [] = Inr []"
| "fetch_kv out (l # ls) = (case fetch out (present_key_output l) of
     Inl e \<Rightarrow> Inl e
   | Inr (_, k) \<Rightarrow> (case fetch out (present_value_output l) of
       Inl e \<Rightarrow> Inl e
     | Inr (_, v) \<Rightarrow> (case fetch_kv out ls of Inl e \<Rightarrow> Inl e | Inr rest \<Rightarrow> Inr ((k, v) # rest))))"

text \<open>From the outputs of the session to the next token and the new cache.\<close>

definition read_outputs :: "('s, 'rng) gen_env \<Rightarrow> gen_params \<Rightarrow> 'rng \<Rightarrow> ort_outputs \<Rightarrow>
    gen_fault + u32 \<times> 'rng \<times> (f32 list \<times> f32 list) list" where
  "read_outputs env gp rng out = (case logits_name (gp_topology gp) of
     None \<Rightarrow> Inl Panicked
   | Some name \<Rightarrow> (case fetch out name of
       Inl e \<Rightarrow> Inl (Failed e)
     | Inr (shape, data) \<Rightarrow> (case last_logits shape data of
         Inl f \<Rightarrow> Inl f
       | Inr logits \<Rightarrow> (case sample_next (ge_sampling env) logits (gp_sampling gp) rng of (next_id, rng') \<Rightarrow>
           (case fetch_kv out (kv_layers (gp_topology gp)) of
              Inl e \<Rightarrow> Inl (Failed e) | Inr kv \<Rightarrow> Inr (next_id, rng', kv))))))"

section \<open>The loop\<close>

definition replacement_char :: string where
  "replacement_char = [CHR 0xEF, CHR 0xBF, CHR 0xBD]"

definition decode_delta :: "string \<Rightarrow> string \<Rightarrow> string \<times> bool" where
  "decode_delta prev full =
     (if starts_with full prev
      then (let suffix = drop (length prev) full in
            if ends_with suffix replacement_char then ([], False) else (suffix, True))
      else (full, True))"

definition ort_text_chunk :: "string \<Rightarrow> string \<Rightarrow> 'j token_chunk" where
  "ort_text_chunk rid d = \<lparr>tc_request_id = rid, text_delta = d, tool_call_delta = None, tc_usage = None, tc_finish_reason = None\<rparr>"

definition decode_error :: "string \<Rightarrow> inference_error" where
  "decode_error e = ort_internal ''tokenizer.decode'' e"

text \<open>\<^verbatim>\<open>blocking_send\<close>: whether it succeeds, and the messages delivered.\<close>

definition blocking_send :: "('s, 'rng) gen_env \<Rightarrow> 'j gen_item \<Rightarrow> ('s, 'rng, 'j) gen_state \<Rightarrow> bool \<times> ('s, 'rng, 'j) gen_state" where
  "blocking_send env x st =
     (if ge_alive env (length (gs_sent st)) then (True, st\<lparr>gs_sent := gs_sent st @ [x]\<rparr>) else (False, st))"

text \<open>How an iteration ends: an error or a panic, the receiver gone, a reason to finish, or the next iteration.\<close>

datatype 'st iteration = Abort gen_fault 'st | Dropped 'st | Finish finish_reason 'st | Continue 'st

definition stop_reason :: "gen_params \<Rightarrow> u32 \<Rightarrow> u32 \<Rightarrow> string \<Rightarrow> finish_reason option" where
  "stop_reason gp next_id produced full =
     (if gp_eos_id gp = Some next_id then Some finish_reason.Stop
      else if gp_max_new gp \<le> produced then Some Length
      else if list_ex (contains full) (stop (gp_sampling gp)) then Some finish_reason.Stop
      else None)"

text \<open>The part of an iteration after the token has been appended: decode, stream the delta, test for the end.\<close>

definition gen_emit :: "('s, 'rng) gen_env \<Rightarrow> gen_params \<Rightarrow> ('s, 'rng, 'j) gen_state \<Rightarrow> ('s, 'rng, 'j) gen_state iteration" where
  "gen_emit env gp st = (case ge_decode env (drop (length (gp_prompt_ids gp)) (gs_all_ids st)) of
     Inl e \<Rightarrow> Abort (Failed (decode_error e)) st
   | Inr full \<Rightarrow>
     (case decode_delta (gs_prev st) full of (delta, advance) \<Rightarrow>
      (case (if delta = [] then (True, st) else blocking_send env (Inr (ort_text_chunk (gp_request_id gp) delta)) st) of (ok, st1) \<Rightarrow>
         if \<not> ok then Dropped st1
         else (let st2 = (if advance then st1\<lparr>gs_prev := full\<rparr> else st1) in
               case stop_reason gp (last (gs_all_ids st)) (gs_output_tokens st) full of
                 Some r \<Rightarrow> Finish r st2
               | None \<Rightarrow> Continue (st2\<lparr>gs_step := gs_step st2 + 1\<rparr>)))))"

definition gen_iter :: "('s, 'rng) gen_env \<Rightarrow> gen_params \<Rightarrow> ('s, 'rng, 'j) gen_state \<Rightarrow> ('s, 'rng, 'j) gen_state iteration" where
  "gen_iter env gp st = (case gen_call env gp st of
     (Inl e, s') \<Rightarrow> Abort (Failed e) (st\<lparr>gs_session := s'\<rparr>)
   | (Inr out, s') \<Rightarrow> (case read_outputs env gp (gs_rng st) out of
       Inl f \<Rightarrow> Abort f (st\<lparr>gs_session := s'\<rparr>)
     | Inr (next_id, rng', kv) \<Rightarrow>
         gen_emit env gp (st\<lparr>gs_session := s', gs_rng := rng', gs_past_kv := kv,
           gs_past_len := gs_past_len st + length (cur_input gp st),
           gs_all_ids := gs_all_ids st @ [next_id], gs_output_tokens := gs_output_tokens st + 1\<rparr>)))"


lemma blocking_send_frame [simp]:
  "gs_all_ids (snd (blocking_send env x st)) = gs_all_ids st"
  "gs_output_tokens (snd (blocking_send env x st)) = gs_output_tokens st"
  "gs_prev (snd (blocking_send env x st)) = gs_prev st"
  "gs_step (snd (blocking_send env x st)) = gs_step st"
  "gs_past_len (snd (blocking_send env x st)) = gs_past_len st"
  by (simp_all add: blocking_send_def)

lemma blocking_send_alive:
  "(\<And>n. ge_alive env n) \<Longrightarrow> gs_sent (snd (blocking_send env x st)) = gs_sent st @ [x]"
  by (simp add: blocking_send_def)

lemma gen_emit_continue:
  assumes "gen_emit env gp st = Continue st'"
  shows "gs_output_tokens st' = gs_output_tokens st" "gs_output_tokens st < gp_max_new gp"
    "gs_all_ids st' = gs_all_ids st" "gs_past_len st' = gs_past_len st" "gs_step st' = gs_step st + 1"
  using assms
  by (auto simp: gen_emit_def blocking_send_def Let_def stop_reason_def
      split: sum.splits prod.splits if_splits option.splits)

lemma gen_iter_continue:
  assumes "gen_iter env gp st = Continue st'"
  shows "gs_output_tokens st' = gs_output_tokens st + 1" "gs_output_tokens st + 1 < gp_max_new gp"
    "\<exists>t. gs_all_ids st' = gs_all_ids st @ [t]" "gs_past_len st' = gs_past_len st + length (cur_input gp st)"
    "gs_step st' = gs_step st + 1"
proof -
  obtain t s' rng' kv where
    "gen_emit env gp (st\<lparr>gs_session := s', gs_rng := rng', gs_past_kv := kv,
       gs_past_len := gs_past_len st + length (cur_input gp st),
       gs_all_ids := gs_all_ids st @ [t], gs_output_tokens := gs_output_tokens st + 1\<rparr>) = Continue st'"
    using assms by (auto simp: gen_iter_def split: sum.splits prod.splits)
  from gen_emit_continue[OF this] show "gs_output_tokens st' = gs_output_tokens st + 1" "gs_output_tokens st + 1 < gp_max_new gp"
    "\<exists>t. gs_all_ids st' = gs_all_ids st @ [t]" "gs_past_len st' = gs_past_len st + length (cur_input gp st)"
    "gs_step st' = gs_step st + 1" by simp_all
qed

text \<open>The distance to the limit shrinks; the largest counter value, from which the count would wrap, comes first.\<close>

definition gen_measure :: "gen_params \<Rightarrow> ('s, 'rng, 'j) gen_state \<Rightarrow> nat" where
  "gen_measure gp st = (if gs_output_tokens st = - 1 then 2 ^ 32 else unat (gp_max_new gp) - unat (gs_output_tokens st))"

lemma u32_succ: "(w :: u32) \<noteq> - 1 \<Longrightarrow> unat (w + 1) = Suc (unat w)"
  by (metis add.commute add_eq_0_iff unatSuc)

lemma gen_iter_measure:
  assumes "gen_iter env gp st = Continue st'"
  shows "gen_measure gp st' < gen_measure gp st"
proof -
  note out = gen_iter_continue(1,2)[OF assms]
  have ne: "gs_output_tokens st' \<noteq> - 1"
    using out by (metis word_not_simps(3))
  show ?thesis
  proof (cases "gs_output_tokens st = - 1")
    case True
    then show ?thesis
      using ne unat_u32_bound[of "gp_max_new gp"] by (simp add: gen_measure_def)
  next
    case False
    then show ?thesis
      using ne out u32_succ[OF False] by (simp add: gen_measure_def word_less_nat_alt)
  qed
qed

text \<open>How the loop ends, and the state it leaves.\<close>

datatype loop_end = Aborted gen_fault | ReceiverGone | Finished finish_reason

function gen_loop :: "('s, 'rng) gen_env \<Rightarrow> gen_params \<Rightarrow> ('s, 'rng, 'j) gen_state \<Rightarrow> loop_end \<times> ('s, 'rng, 'j) gen_state" where
  "gen_loop env gp st = (case gen_iter env gp st of
     Abort f st' \<Rightarrow> (Aborted f, st')
   | Dropped st' \<Rightarrow> (ReceiverGone, st')
   | Finish r st' \<Rightarrow> (Finished r, st')
   | Continue st' \<Rightarrow> gen_loop env gp st')"
  by pat_completeness auto
termination
  by (relation "measure (\<lambda>(env, gp, st). gen_measure gp st)") (auto dest: gen_iter_measure)

declare gen_loop.simps [simp del]

definition gen_start :: "gen_params \<Rightarrow> 's \<Rightarrow> 'rng \<Rightarrow> ('s, 'rng, 'j) gen_state" where
  "gen_start gp session rng = \<lparr>gs_session = session, gs_rng = rng, gs_all_ids = gp_prompt_ids gp, gs_prev = [],
     gs_output_tokens = 0, gs_past_kv = map (\<lambda>_. ([], [])) (kv_layers (gp_topology gp)), gs_past_len = 0,
     gs_step = 0, gs_sent = []\<rparr>"

text \<open>The closing chunk: the rest of the text, the token counts and the reason.\<close>

definition tail_text :: "string \<Rightarrow> string \<Rightarrow> string" where
  "tail_text prev full = (if length prev < length full \<and> starts_with full prev then drop (length prev) full else [])"

definition final_chunk :: "gen_params \<Rightarrow> ('s, 'rng, 'j) gen_state \<Rightarrow> finish_reason \<Rightarrow> string \<Rightarrow> 'j token_chunk" where
  "final_chunk gp st r full = \<lparr>tc_request_id = gp_request_id gp, text_delta = tail_text (gs_prev st) full, tool_call_delta = None,
     tc_usage = Some (default_token_usage\<lparr>input_tokens := word_of_nat (length (gp_prompt_ids gp)),
       output_tokens := gs_output_tokens st\<rparr>), tc_finish_reason = Some r\<rparr>"

definition dtype_error :: "string \<Rightarrow> inference_error" where
  "dtype_error shown = BadRequest (''ort: chat-style execute() only supports f32 logits in this build '' @
     ''(probed: '' @ shown @ ''). Re-export with FP32 logits or use infer().'')"

fun show_dtype :: "element_type option \<Rightarrow> string" where
  "show_dtype None = ''None''"
| "show_dtype (Some Float32) = ''Some(Float32)''"
| "show_dtype (Some (OtherElement s)) = ''Some('' @ s @ '')''"

definition run_loop :: "('s, 'rng) gen_env \<Rightarrow> gen_params \<Rightarrow> 's \<Rightarrow> 'rng \<Rightarrow> (gen_fault + unit) \<times> ('s, 'rng, 'j) gen_state" where
  "run_loop env gp session rng =
     (let st0 = gen_start gp session rng in
      if logits_dtype (gp_topology gp) \<noteq> Some Float32
      then (Inl (Failed (dtype_error (show_dtype (logits_dtype (gp_topology gp))))), st0)
      else (case gen_loop env gp st0 of
              (Aborted f, st) \<Rightarrow> (Inl f, st)
            | (ReceiverGone, st) \<Rightarrow> (Inr (), st)
            | (Finished r, st) \<Rightarrow> (case ge_decode env (drop (length (gp_prompt_ids gp)) (gs_all_ids st)) of
                Inl e \<Rightarrow> (Inl (Failed (decode_error e)), st)
              | Inr full \<Rightarrow> (Inr (), snd (blocking_send env (Inr (final_chunk gp st r full)) st)))))"

text \<open>The blocking task: an error is the last message; a panic ends the task with no message.\<close>

definition gen_task :: "('s, 'rng) gen_env \<Rightarrow> gen_params \<Rightarrow> 's \<Rightarrow> 'rng \<Rightarrow> ('s, 'rng, 'j) gen_state" where
  "gen_task env gp session rng = (case run_loop env gp session rng of
     (Inl (Failed e), st) \<Rightarrow> snd (blocking_send env (Inl e) st)
   | (Inl Panicked, st) \<Rightarrow> st
   | (Inr _, st) \<Rightarrow> st)"


section \<open>Entry points\<close>

record ort_tokenizer =
  tz_encode :: "string \<Rightarrow> string + u32 list"
  tz_decode :: "u32 list \<Rightarrow> string + string"
  tz_token_to_id :: "string \<Rightarrow> u32 option"

record 's ort_state =
  os_session :: 's
  os_shape :: session_shape
  os_topology :: topology
  os_tokenizer :: "ort_tokenizer option"

fun show_kind :: "model_kind \<Rightarrow> string" where
  "show_kind TextGenWithKv = ''TextGenWithKv''"
| "show_kind TextGenStateless = ''TextGenStateless''"
| "show_kind EncoderOnly = ''EncoderOnly''"
| "show_kind Unknown = ''Unknown''"

definition quoted :: "string \<Rightarrow> string" where
  "quoted s = [CHR 0x27] @ s @ [CHR 0x27]"

definition infer_kv_dims :: "'s ort_state \<Rightarrow> (nat \<times> nat) inference_result" where
  "infer_kv_dims state = (case kv_layers (os_topology state) of
     [] \<Rightarrow> Inl (Internal (''ort: kv_layers empty after probe '' @ em_dash @ '' bug in topology::probe''))
   | layer # _ \<Rightarrow>
     (case find (\<lambda>i. fst i = past_key_input layer) (ss_inputs (os_shape state)) of
        None \<Rightarrow> Inl (Internal (''ort: declared kv input '' @ quoted (past_key_input layer) @ '' not found on session''))
      | Some (_, OtherValue) \<Rightarrow> Inl (BadRequest (''ort: kv input '' @ quoted (past_key_input layer) @ '' is not a tensor''))
      | Some (_, TensorValue _ shape) \<Rightarrow>
          if length shape \<noteq> 4
          then Inl (BadRequest (''ort: kv input '' @ quoted (past_key_input layer) @ '' has rank '' @ show_nat (length shape) @
                 '', expected 4 ([batch, kv_heads, past, head_dim])''))
          else if shape ! 1 \<le> 0 \<or> shape ! 3 \<le> 0
          then Inl (BadRequest (''ort: kv input '' @ quoted (past_key_input layer) @ '' declares dynamic heads ('' @ show_int (shape ! 1) @
                 '') or head_dim ('' @ show_int (shape ! 3) @ ''); export with concrete shape on dim 1 and dim 3''))
          else Inr (nat (shape ! 1), nat (shape ! 3))))"

definition eos_token :: "ort_tokenizer \<Rightarrow> u32 option" where
  "eos_token tok = (case tz_token_to_id tok ''</s>'' of
     Some i \<Rightarrow> Some i
   | None \<Rightarrow> (case tz_token_to_id tok ''<|endoftext|>'' of Some i \<Rightarrow> Some i | None \<Rightarrow> tz_token_to_id tok ''<|im_end|>''))"

definition rng_from :: "(u64 \<Rightarrow> 'rng) \<Rightarrow> 'rng \<Rightarrow> u64 option \<Rightarrow> 'rng" where
  "rng_from seed_from_u64 from_entropy s = (case s of Some n \<Rightarrow> seed_from_u64 n | None \<Rightarrow> from_entropy)"

text \<open>
  The stream is the list of messages of the task; \<open>dbg\<close> is the debug rendering of a list of names.
  The session after the task is returned as well, for the next request.
\<close>

definition run_generation :: "('s, 'rng) gen_env \<Rightarrow> (u64 \<Rightarrow> 'rng) \<Rightarrow> 'rng \<Rightarrow> (string list \<Rightarrow> string) \<Rightarrow> 's ort_state \<Rightarrow> ort_config \<Rightarrow>
    execute_batch \<Rightarrow> ('j gen_item list \<times> 's) inference_result" where
  "run_generation env seed_from_u64 from_entropy dbg state cfg b =
     (let topo = os_topology state in
      if kind topo \<noteq> TextGenWithKv
      then Inl (BadRequest (''ort: chat-style execute() requires a causal LM with KV cache; probed kind = '' @ show_kind (kind topo) @
             '', inputs = '' @ dbg (all_input_names topo) @ '', outputs = '' @ dbg (all_output_names topo) @
             ''. Use OrtRunner::infer for embedding / encoder / vision models.''))
      else (case os_tokenizer state of
        None \<Rightarrow> Inl (BadRequest (''ort: chat-style execute() requires a tokenizer.json '' @ em_dash @ '' set OrtConfig::tokenizer_path or '' @
             ''place tokenizer.json next to the ONNX file (or enable ort-hf-hub + set hf_repo)''))
      | Some tok \<Rightarrow>
        (case render_chat (messages b) of
           Inl e \<Rightarrow> Inl e
         | Inr prompt \<Rightarrow> (case tz_encode tok prompt of
             Inl e \<Rightarrow> Inl (ort_internal ''tokenizer.encode'' e)
           | Inr prompt_ids \<Rightarrow>
               if prompt_ids = [] then Inl (BadRequest ''ort: tokenizer produced empty id sequence'')
               else (case infer_kv_dims state of
                 Inl e \<Rightarrow> Inl e
               | Inr (kv_heads, head_dim) \<Rightarrow>
                 (let gp = \<lparr>gp_topology = topo, gp_request_id = request_id b, gp_sampling = sampling b, gp_prompt_ids = prompt_ids,
                            gp_kv_heads = kv_heads, gp_head_dim = head_dim,
                            gp_max_new = (case max_tokens (sampling b) of Some n \<Rightarrow> n | None \<Rightarrow> default_max_new_tokens_field cfg),
                            gp_eos_id = eos_token tok\<rparr>;
                      st = gen_task (env\<lparr>ge_decode := tz_decode tok\<rparr>) gp (os_session state)
                             (rng_from seed_from_u64 from_entropy (seed (sampling b)))
                  in Inr (gs_sent st, gs_session st)))))))"

subsection \<open>Raw inference\<close>

fun stage_tensors :: "('s, 'rng) gen_env \<Rightarrow> (string \<times> ort_tensor) list \<Rightarrow> (string \<times> ort_tensor) list inference_result" where
  "stage_tensors env [] = Inr []"
| "stage_tensors env ((name, t) # ts) = (case make_tensor env t of
     Inl e \<Rightarrow> Inl e
   | Inr x \<Rightarrow> (case stage_tensors env ts of Inl e \<Rightarrow> Inl e | Inr xs \<Rightarrow> Inr ((name, x) # xs)))"

text \<open>Outputs that are not single-precision tensors are left out.\<close>

definition run_infer_blocking :: "('s, 'rng) gen_env \<Rightarrow> 's ort_state \<Rightarrow> (string \<times> ort_tensor) list \<Rightarrow>
    (string \<rightharpoonup> int list \<times> f32 list) inference_result \<times> 's" where
  "run_infer_blocking env state inputs = (case stage_tensors env inputs of
     Inl e \<Rightarrow> (Inl e, os_session state)
   | Inr entries \<Rightarrow> (case ge_session_run env (os_session state) entries of
       (Inl e, s') \<Rightarrow> (Inl (map_ort_err e), s')
     | (Inr out, s') \<Rightarrow>
         (Inr (foldl (\<lambda>m name. case out name of Some (Inr sd) \<Rightarrow> m(name \<mapsto> sd) | _ \<Rightarrow> m) Map.empty (map fst (ss_outputs (os_shape state)))), s')))"

subsection \<open>The runner\<close>

text \<open>The session is built on first use; a failed build leaves the cell empty for the next attempt.\<close>

record 's ort_runner =
  or_cfg :: ort_config
  or_state :: "'s ort_state option"

definition ort_new :: "ort_config \<Rightarrow> 's ort_runner" where
  "ort_new cfg = \<lparr>or_cfg = cfg, or_state = None\<rparr>"

definition ensure_state :: "(ort_config \<Rightarrow> 's ort_state inference_result) \<Rightarrow> 's ort_runner \<Rightarrow> 's ort_state inference_result \<times> 's ort_runner" where
  "ensure_state build r = (case or_state r of
     Some st \<Rightarrow> (Inr st, r)
   | None \<Rightarrow> (case build (or_cfg r) of Inl e \<Rightarrow> (Inl e, r) | Inr st \<Rightarrow> (Inr st, r\<lparr>or_state := Some st\<rparr>)))"

definition ort_rebuild_session :: "session_rebuild_cause \<Rightarrow> 's ort_runner \<Rightarrow> 's ort_runner" where
  "ort_rebuild_session cause r =
     (if cause = CudaContextPoisonedCause \<or> cause = Manual then r\<lparr>or_state := None\<rparr> else r)"


section \<open>States of the loop\<close>

inductive gen_reach :: "('s, 'rng) gen_env \<Rightarrow> gen_params \<Rightarrow> 's \<Rightarrow> 'rng \<Rightarrow> ('s, 'rng, 'j) gen_state \<Rightarrow> bool"
  for env gp session rng where
  start: "gen_reach env gp session rng (gen_start gp session rng)"
| again: "gen_reach env gp session rng st \<Longrightarrow> gen_iter env gp st = Continue st' \<Longrightarrow> gen_reach env gp session rng st'"

definition generated :: "gen_params \<Rightarrow> ('s, 'rng, 'j) gen_state \<Rightarrow> u32 list" where
  "generated gp st = drop (length (gp_prompt_ids gp)) (gs_all_ids st)"

text \<open>The counters agree with the ids: the cache holds every token but the last.\<close>

definition counters_ok :: "gen_params \<Rightarrow> ('s, 'rng, 'j) gen_state \<Rightarrow> bool" where
  "counters_ok gp st \<longleftrightarrow> take (length (gp_prompt_ids gp)) (gs_all_ids st) = gp_prompt_ids gp \<and>
     length (gs_all_ids st) = length (gp_prompt_ids gp) + gs_step st \<and> unat (gs_output_tokens st) = gs_step st \<and>
     (gs_step st = 0 \<or> gs_output_tokens st < gp_max_new gp) \<and>
     gs_past_len st = (if gs_step st = 0 then 0 else length (gs_all_ids st) - 1)"

lemma counters_ok_start: "counters_ok gp (gen_start gp session rng)"
  by (simp add: counters_ok_def gen_start_def)

lemma counters_ok_bound: "counters_ok gp st \<Longrightarrow> gs_output_tokens st \<noteq> - 1"
  by (auto simp: counters_ok_def unat_eq_0)

lemma counters_ok_step:
  assumes "counters_ok gp st" and "gen_iter env gp st = Continue st'"
  shows "counters_ok gp st'"
proof -
  note it = gen_iter_continue[OF assms(2)]
  obtain t where t: "gs_all_ids st' = gs_all_ids st @ [t]" using it(3) by blast
  have "unat (gs_output_tokens st') = Suc (gs_step st)"
    using assms(1) it(1) u32_succ[OF counters_ok_bound[OF assms(1)]] by (simp add: counters_ok_def)
  moreover have "gs_past_len st' = length (gs_all_ids st)"
    using assms(1) it(4) by (auto simp: counters_ok_def cur_input_def split: if_splits)
  ultimately show ?thesis
    using assms(1) it(1,2,5) t by (auto simp: counters_ok_def)
qed

lemma reach_counters: "gen_reach env gp session rng st \<Longrightarrow> counters_ok gp st"
  by (induction rule: gen_reach.induct) (auto intro: counters_ok_start counters_ok_step)

text \<open>The iteration that ends the loop starts in a reachable state.\<close>

lemma gen_loop_last:
  assumes "gen_loop env gp st = (e, st')" and "gen_reach env gp session rng st"
  shows "\<exists>st1. gen_reach env gp session rng st1 \<and>
    (case e of Aborted f \<Rightarrow> gen_iter env gp st1 = Abort f st'
     | ReceiverGone \<Rightarrow> gen_iter env gp st1 = Dropped st' | Finished r \<Rightarrow> gen_iter env gp st1 = Finish r st')"
  using assms
proof (induction env gp st rule: gen_loop.induct)
  case (1 env gp st)
  show ?case
  proof (cases "gen_iter env gp st")
    case (Continue st2)
    then have "gen_loop env gp st2 = (e, st')" using "1.prems" by (simp add: gen_loop.simps)
    then show ?thesis using 1(1)[OF Continue] gen_reach.again[OF "1.prems"(2) Continue] by blast
  qed (use "1.prems" in \<open>auto simp: gen_loop.simps\<close>)
qed

section \<open>Streamed text\<close>

text \<open>
  What is assumed of the tokenizer's decoder: the text of a longer sequence continues the text of a
  shorter one, unless that ends in the replacement character (an incomplete character), and the
  continuation starts at a character boundary, both texts being strings.
\<close>

definition decoder_laws :: "(u32 list \<Rightarrow> string + string) \<Rightarrow> bool" where
  "decoder_laws dec \<longleftrightarrow> (\<forall>ids more s t. dec ids = Inr s \<longrightarrow> dec (ids @ more) = Inr t \<longrightarrow>
     (\<not> ends_with s replacement_char \<longrightarrow> starts_with t s) \<and>
     (starts_with t s \<and> length s < length t \<longrightarrow> \<not> (128 \<le> byte_of (t ! length s) \<and> byte_of (t ! length s) < 192)))"

lemma no_straddle:
  assumes "ends_with (p @ q) replacement_char" and "q \<noteq> []" and "\<not> (128 \<le> byte_of (hd q) \<and> byte_of (hd q) < 192)"
  shows "ends_with q replacement_char"
proof -
  obtain r where r: "p @ q = r @ replacement_char" using assms(1) by (auto simp: ends_with_iff)
  then consider u where "q = u @ replacement_char" | u where "u @ q = replacement_char" "u \<noteq> []"
    by (auto simp: append_eq_append_conv2) (metis append_Nil)
  then show ?thesis
  proof cases
    case 2
    then have "hd q \<in> {CHR 0xBF, CHR 0xBD}"
      using assms(2) by (auto simp: replacement_char_def append_eq_Cons_conv)
    then show ?thesis using assms(3) by (auto simp: byte_of_def)
  qed (auto simp: ends_with_iff)
qed

definition text_ok :: "('s, 'rng) gen_env \<Rightarrow> gen_params \<Rightarrow> ('s, 'rng, 'j) gen_state \<Rightarrow> bool" where
  "text_ok env gp st \<longleftrightarrow>
     (\<exists>ds. gs_sent st = map (\<lambda>d. Inr (ort_text_chunk (gp_request_id gp) d)) ds \<and> [] \<notin> set ds \<and> concat ds = gs_prev st) \<and>
     \<not> ends_with (gs_prev st) replacement_char \<and>
     (gs_prev st = [] \<or> (\<exists>a b. generated gp st = a @ b \<and> ge_decode env a = Inr (gs_prev st)))"

text \<open>The text decoded so far continues what has been streamed, at a character boundary.\<close>

lemma text_ok_prefix:
  assumes "decoder_laws (ge_decode env)" and "text_ok env gp st" and "ge_decode env (generated gp st) = Inr full"
  shows "starts_with full (gs_prev st)"
    and "ends_with full replacement_char \<Longrightarrow> length (gs_prev st) < length full \<Longrightarrow>
      ends_with (drop (length (gs_prev st)) full) replacement_char"
proof -
  show pre: "starts_with full (gs_prev st)"
    using assms unfolding decoder_laws_def text_ok_def starts_with_iff by (metis append_Nil)
  assume rc: "ends_with full replacement_char" and len: "length (gs_prev st) < length full"
  show "ends_with (drop (length (gs_prev st)) full) replacement_char"
  proof (cases "gs_prev st = []")
    case False
    then have "\<not> (128 \<le> byte_of (full ! length (gs_prev st)) \<and> byte_of (full ! length (gs_prev st)) < 192)"
      using assms pre len unfolding decoder_laws_def text_ok_def by metis
    then show ?thesis
      using no_straddle[of "take (length (gs_prev st)) full" "drop (length (gs_prev st)) full"] rc len
      by (simp add: hd_drop_conv_nth)
  qed (use rc in simp)
qed


lemma answer_text_chunks [simp]: "answer_text (map (\<lambda>d. Inr (ort_text_chunk rid d)) ds) = concat ds"
  by (induction ds) (simp_all add: ort_text_chunk_def)

lemma generated_snoc:
  "counters_ok gp st \<Longrightarrow> gs_all_ids st' = gs_all_ids st @ [t] \<Longrightarrow> generated gp st' = generated gp st @ [t]"
  by (simp add: counters_ok_def generated_def)

lemma text_ok_more:
  assumes "text_ok env gp st" and "gs_sent st' = gs_sent st" and "gs_prev st' = gs_prev st"
    and "generated gp st' = generated gp st @ new"
  shows "text_ok env gp st'"
  using assms unfolding text_ok_def by (metis append.assoc)

lemma text_ok_advance:
  assumes "text_ok env gp st" and "ge_decode env (generated gp st') = Inr (gs_prev st @ d)"
    and "gs_sent st' = gs_sent st @ (if d = [] then [] else [Inr (ort_text_chunk (gp_request_id gp) d)])"
    and "gs_prev st' = gs_prev st @ d" and "\<not> ends_with (gs_prev st @ d) replacement_char"
  shows "text_ok env gp st'"
proof -
  obtain ds where ds: "gs_sent st = map (\<lambda>d. Inr (ort_text_chunk (gp_request_id gp) d)) ds" "[] \<notin> set ds" "concat ds = gs_prev st"
    using assms(1) by (auto simp: text_ok_def)
  have "gs_sent st' = map (\<lambda>d. Inr (ort_text_chunk (gp_request_id gp) d)) (ds @ (if d = [] then [] else [d]))"
    "[] \<notin> set (ds @ (if d = [] then [] else [d]))" "concat (ds @ (if d = [] then [] else [d])) = gs_prev st'"
    using ds assms(3,4) by simp_all
  moreover have "generated gp st' = generated gp st' @ []" by simp
  ultimately show ?thesis using assms(2,4,5) unfolding text_ok_def by metis
qed

text \<open>Streaming a delta keeps the account, whether the iteration goes on or ends the loop.\<close>

lemma gen_emit_text:
  assumes "decoder_laws (ge_decode env)" and "text_ok env gp st"
    and "gen_emit env gp st = Finish r st' \<or> gen_emit env gp st = Continue st'"
  shows "text_ok env gp st' \<and> gs_all_ids st' = gs_all_ids st \<and> gs_output_tokens st' = gs_output_tokens st"
proof -
  obtain full where full: "ge_decode env (generated gp st) = Inr full"
    using assms(3) by (auto simp: gen_emit_def generated_def split: sum.splits)
  let ?d = "drop (length (gs_prev st)) full"
  have eq: "full = gs_prev st @ ?d" and pre: "starts_with full (gs_prev st)"
    using text_ok_prefix(1)[OF assms(1,2) full] by (auto simp: starts_with_iff)
  show ?thesis
  proof (cases "ends_with ?d replacement_char")
    case True
    then have "gs_sent st' = gs_sent st \<and> gs_prev st' = gs_prev st \<and> gs_all_ids st' = gs_all_ids st \<and> gs_output_tokens st' = gs_output_tokens st"
      using assms(3) full pre
      by (auto simp: gen_emit_def generated_def decode_delta_def Let_def split: option.splits)
    then show ?thesis using assms(2) text_ok_more[of env gp st st' "[]"] by (auto simp: generated_def)
  next
    case False
    then have st': "gs_sent st' = gs_sent st @ (if ?d = [] then [] else [Inr (ort_text_chunk (gp_request_id gp) ?d)]) \<and>
        gs_prev st' = full \<and> gs_all_ids st' = gs_all_ids st \<and> gs_output_tokens st' = gs_output_tokens st"
      using assms(3) full pre
      by (auto simp: gen_emit_def generated_def decode_delta_def blocking_send_def Let_def split: option.splits if_splits)
    have "\<not> ends_with full replacement_char"
    proof
      assume rc: "ends_with full replacement_char"
      have "length (gs_prev st) < length full"
        using rc eq assms(2) by (metis append.right_neutral drop_eq_Nil linorder_not_less text_ok_def)
      then show False using text_ok_prefix(2)[OF assms(1,2) full rc] False by blast
    qed
    then have "text_ok env gp st'"
      using st' eq full by (intro text_ok_advance[OF assms(2), of st' ?d]) (simp_all add: generated_def)
    then show ?thesis using st' by blast
  qed
qed

lemma gen_iter_text:
  assumes "decoder_laws (ge_decode env)" and "text_ok env gp st" and "counters_ok gp st"
    and "gen_iter env gp st = Finish r st' \<or> gen_iter env gp st = Continue st'"
  shows "text_ok env gp st' \<and> (\<exists>t. gs_all_ids st' = gs_all_ids st @ [t]) \<and> gs_output_tokens st' = gs_output_tokens st + 1"
proof -
  obtain t s' rng' kv where st1: "gen_emit env gp (st\<lparr>gs_session := s', gs_rng := rng', gs_past_kv := kv,
       gs_past_len := gs_past_len st + length (cur_input gp st),
       gs_all_ids := gs_all_ids st @ [t], gs_output_tokens := gs_output_tokens st + 1\<rparr>) \<in> {Finish r st', Continue st'}"
    (is "gen_emit env gp ?st1 \<in> _")
    using assms(4) by (auto simp: gen_iter_def split: sum.splits prod.splits)
  have "text_ok env gp ?st1"
    using generated_snoc[OF assms(3), of ?st1 t] by (intro text_ok_more[OF assms(2)]) simp_all
  then show ?thesis using gen_emit_text[OF assms(1), of gp ?st1 r st'] st1 by auto
qed

lemma text_ok_start: "text_ok env gp (gen_start gp session rng)"
  by (auto simp: text_ok_def gen_start_def ends_with_def starts_with_def replacement_char_def)

lemma reach_text:
  assumes "gen_reach env gp session rng st" and "decoder_laws (ge_decode env)"
  shows "text_ok env gp st"
  using assms(1)
proof induction
  case (again st st')
  show ?case
    using gen_iter_text[OF assms(2) again.IH reach_counters[OF again.hyps(1)] disjI2[OF again.hyps(2)]] by simp
qed (rule text_ok_start)


section \<open>Properties\<close>

lemma gen_emit_finish:
  assumes "gen_emit env gp st = Finish r st'"
  shows "\<exists>full. ge_decode env (generated gp st) = Inr full \<and>
    stop_reason gp (last (gs_all_ids st)) (gs_output_tokens st) full = Some r"
  using assms by (auto simp: gen_emit_def generated_def Let_def split: sum.splits prod.splits if_splits option.splits)

lemma gen_iter_finish:
  assumes "gen_iter env gp st = Finish r st'" and "gs_all_ids st' = gs_all_ids st @ [t]"
    and "gs_output_tokens st' = gs_output_tokens st + 1" and "decoder_laws (ge_decode env)"
    and "text_ok env gp st" and "counters_ok gp st"
  shows "\<exists>full. ge_decode env (generated gp st') = Inr full \<and> stop_reason gp t (gs_output_tokens st') full = Some r"
proof -
  obtain x s' rng' kv where st1: "gen_emit env gp (st\<lparr>gs_session := s', gs_rng := rng', gs_past_kv := kv,
       gs_past_len := gs_past_len st + length (cur_input gp st),
       gs_all_ids := gs_all_ids st @ [x], gs_output_tokens := gs_output_tokens st + 1\<rparr>) = Finish r st'"
    (is "gen_emit env gp ?st1 = _")
    using assms(1) by (auto simp: gen_iter_def split: sum.splits prod.splits)
  have "text_ok env gp ?st1"
    using generated_snoc[OF assms(6), of ?st1 x] by (intro text_ok_more[OF assms(5)]) simp_all
  then have "gs_all_ids st' = gs_all_ids ?st1"
    using gen_emit_text[OF assms(4) _ disjI1[OF st1]] by simp
  then show ?thesis
    using gen_emit_finish[OF st1] assms(2,3) by (auto simp: generated_def)
qed

text \<open>A loop that returned to a listening receiver has sent its closing chunk.\<close>

lemma run_loop_finished:
  fixes st :: "('s, 'rng, 'j) gen_state"
  assumes "decoder_laws (ge_decode env)" and "\<And>n. ge_alive env n" and "run_loop env gp session rng = (Inr (), st)"
  shows "\<exists>(st1 :: ('s, 'rng, 'j) gen_state) st2 t r full. text_ok env gp st1 \<and> counters_ok gp st1 \<and> gs_all_ids st2 = gs_all_ids st1 @ [t] \<and>
    gs_output_tokens st2 = gs_output_tokens st1 + 1 \<and> text_ok env gp st2 \<and> ge_decode env (generated gp st2) = Inr full \<and>
    stop_reason gp t (gs_output_tokens st2) full = Some r \<and>
    st = st2\<lparr>gs_sent := gs_sent st2 @ [Inr (final_chunk gp st2 r full)]\<rparr>"
proof -
  obtain e st2 where loop: "gen_loop env gp (gen_start gp session rng :: ('s, 'rng, 'j) gen_state) = (e, st2)" by (meson surj_pair)
  obtain st1 where st1: "gen_reach env gp session rng st1"
    "case e of Aborted f \<Rightarrow> gen_iter env gp st1 = Abort f st2
     | ReceiverGone \<Rightarrow> gen_iter env gp st1 = Dropped st2 | Finished r \<Rightarrow> gen_iter env gp st1 = Finish r st2"
    using gen_loop_last[OF loop gen_reach.start] by blast
  have "e \<noteq> ReceiverGone"
    using st1(2) assms(2)
    by (auto simp: gen_iter_def gen_emit_def blocking_send_def Let_def split: sum.splits prod.splits if_splits option.splits)
  then obtain r where e: "e = Finished r"
    using assms(3) loop by (cases e) (auto simp: run_loop_def Let_def split: if_splits)
  then have fin: "gen_iter env gp st1 = Finish r st2" using st1(2) by simp
  note inv = reach_text[OF st1(1) assms(1)] reach_counters[OF st1(1)]
  obtain t where t: "gs_all_ids st2 = gs_all_ids st1 @ [t]" and out: "gs_output_tokens st2 = gs_output_tokens st1 + 1"
    and ok: "text_ok env gp st2"
    using gen_iter_text[OF assms(1) inv disjI1[OF fin]] by auto
  obtain full where full: "ge_decode env (generated gp st2) = Inr full" and stop: "stop_reason gp t (gs_output_tokens st2) full = Some r"
    using gen_iter_finish[OF fin t out assms(1) inv] by auto
  have st: "st = st2\<lparr>gs_sent := gs_sent st2 @ [Inr (final_chunk gp st2 r full)]\<rparr>"
    using assms(2,3) loop e full by (auto simp: run_loop_def Let_def generated_def blocking_send_def split: if_splits)
  then show ?thesis using inv t out ok full stop by blast
qed



definition demo_topology :: topology where
  "demo_topology = \<lparr>kind = TextGenWithKv, input_ids_name = Some ''input_ids'', attention_mask_name = None, position_ids_name = None,
     logits_name = Some ''logits'', logits_dtype = Some Float32,
     kv_layers = [\<lparr>past_key_input = ''past.0.key'', past_value_input = ''past.0.value'', present_key_output = ''present.0.key'',
       present_value_output = ''present.0.value''\<rparr>],
     all_input_names = [], all_output_names = []\<rparr>"

definition demo_params :: gen_params where
  "demo_params = \<lparr>gp_topology = demo_topology, gp_request_id = ''r'', gp_sampling = default_sampling_params\<lparr>temperature := Some (Fin 0)\<rparr>,
     gp_prompt_ids = [7, 8], gp_kv_heads = 1, gp_head_dim = 1, gp_max_new = 2, gp_eos_id = None\<rparr>"

definition demo_env :: "(unit, unit) gen_env" where
  "demo_env = \<lparr>ge_session_run = (\<lambda>s entries. (Inr (\<lambda>n. Some (Inr ([1, 1, 2], [Fin 0, Fin 1]))), s)), ge_from_array = (\<lambda>_. None),
     ge_sampling = reference_sampler, ge_decode = (\<lambda>ids. Inr (replicate (length ids) CHR ''a'')), ge_alive = (\<lambda>_. True)\<rparr>"

lemma demo_decoder: "decoder_laws (ge_decode demo_env)"
  by (auto simp: decoder_laws_def demo_env_def starts_with_iff replicate_add byte_of_def nth_append)

lemma demo_run: "\<exists>st :: (unit, unit, unit) gen_state. run_loop demo_env demo_params () () = (Inr (), st)"
proof -
  have "isl (fst (run_loop demo_env demo_params () () :: _ \<times> (unit, unit, unit) gen_state)) = False" by code_simp
  then show ?thesis by (cases "run_loop demo_env demo_params () () :: _ \<times> (unit, unit, unit) gen_state") (metis fst_conv isl_def sum.exhaust old.unit.exhaust)
qed



text \<open>C11: the key-value cache and the positions stay in step with the sequence.  In every state the loop reaches, the
  inputs of the next forward pass are the tokens of the sequence that are not in the cache yet, each fed at the
  position it has in the sequence, and cache and inputs together cover the whole sequence.\<close>

theorem ort_positions_in_step:
  assumes "gen_reach env gp session rng st" and "gp_prompt_ids gp \<noteq> []"
  shows "gs_past_len st + length (cur_input gp st) = length (gs_all_ids st) \<and>
    length (cur_positions gp st) = length (cur_input gp st) \<and>
    (\<forall>k < length (cur_input gp st). cur_positions gp st ! k = int (gs_past_len st + k) \<and>
       cur_input gp st ! k = uint (gs_all_ids st ! (gs_past_len st + k)))"
proof -
  have ok: "counters_ok gp st" by (rule reach_counters[OF assms(1)])
  show ?thesis
  proof (cases "gs_step st = 0")
    case True
    then have "gs_all_ids st = gp_prompt_ids gp" using ok unfolding counters_ok_def by (metis add.right_neutral order_refl take_all)
    then show ?thesis using ok True by (simp add: counters_ok_def cur_input_def cur_positions_def)
  next
    case False
    then have "length (gs_all_ids st) = Suc (gs_past_len st)" using ok by (auto simp: counters_ok_def)
    moreover from this have "gs_all_ids st \<noteq> []" by auto
    ultimately show ?thesis using False by (simp add: cur_input_def cur_positions_def last_conv_nth)
  qed
qed

lemma demo_reach:
  "\<exists>st :: (unit, unit, unit) gen_state. gen_reach demo_env demo_params () () st \<and> gs_step st = 1"
proof -
  let ?s0 = "gen_start demo_params () () :: (unit, unit, unit) gen_state"
  have "(case gen_iter demo_env demo_params ?s0 of Continue st \<Rightarrow> gs_step st = 1 | _ \<Rightarrow> False)" by code_simp
  then obtain st where "gen_iter demo_env demo_params ?s0 = Continue st" "gs_step st = 1"
    by (auto split: iteration.splits)
  then show ?thesis by (intro exI[of _ st] conjI gen_reach.again[OF gen_reach.start])
qed

theorem ort_positions_in_step_witness:
  "\<exists>st :: (unit, unit, unit) gen_state. gs_step st = 1 \<and> gs_past_len st + length (cur_input demo_params st) = length (gs_all_ids st)"
  using demo_reach ort_positions_in_step[of demo_env demo_params "()" "()"] by (force simp: demo_params_def)

text \<open>A tensor with as many elements as the last two dimensions of its shape say.\<close>

definition tensor_ok :: "int list \<Rightarrow> f32 list \<Rightarrow> bool" where
  "tensor_ok shape data \<longleftrightarrow> (3 \<le> length shape \<longrightarrow>
     1 \<le> shape ! (length shape - 2) \<and> 0 \<le> shape ! (length shape - 1) \<and>
     shape ! (length shape - 2) * shape ! (length shape - 1) \<le> int (length data) \<and> int (length data) < 2 ^ 63)"


lemma last_logits_no_panic:
  assumes "tensor_ok shape data"
  shows "last_logits shape data \<noteq> Inl Panicked"
proof (cases "length shape < 3")
  case False
  define seq voc where "seq = nat (shape ! (length shape - 2))" and "voc = nat (shape ! (length shape - 1))"
  have b: "1 \<le> seq" "seq * voc \<le> length data" "length data < 2 ^ 63"
    and sh: "shape ! (length shape - 2) = int seq" "shape ! (length shape - 1) = int voc"
    using assms False by (auto simp: tensor_ok_def seq_def voc_def nat_mult_distrib[symmetric] nat_le_iff)
  define lo hi where "lo = (seq - 1) * voc" and "hi = seq * voc"
  have mul: "lo + voc = hi" using b(1) by (cases seq) (auto simp: lo_def hi_def)
  have "(usize_of (int seq) - 1) * usize_of (int voc) = word_of_nat lo"
    using b(1) by (simp add: usize_of_def lo_def of_nat_diff)
  moreover have "word_of_nat lo + usize_of (int voc) = word_of_nat hi"
    by (simp add: usize_of_def flip: mul)
  moreover have "unat (word_of_nat hi :: usize) = hi" "unat (word_of_nat lo :: usize) = lo"
    using b mul unfolding hi_def[symmetric] by (auto simp: unsigned_of_nat take_bit_nat_eq_self)
  ultimately show ?thesis
    using False b mul unfolding hi_def[symmetric] by (simp add: last_logits_def Let_def sh word_le_nat_alt del: One_nat_def)
qed (simp add: last_logits_def)


definition session_ok :: "('s, 'rng) gen_env \<Rightarrow> bool" where
  "session_ok env \<longleftrightarrow> (\<forall>s entries out s' name shape data. ge_session_run env s entries = (Inr out, s') \<longrightarrow>
     out name = Some (Inr (shape, data)) \<longrightarrow> tensor_ok shape data)"

lemma gen_call_session:
  assumes "gen_call env gp st = (Inr out, s')"
  shows "\<exists>s entries. ge_session_run env s entries = (Inr out, s')"
  using assms by (auto simp: gen_call_def run_with_inputs_def Let_def split: sum.splits prod.splits)

lemma gen_iter_no_panic:
  assumes "session_ok env" and "logits_name (gp_topology gp) \<noteq> None"
  shows "gen_iter env gp st \<noteq> Abort Panicked st'"
proof
  assume "gen_iter env gp st = Abort Panicked st'"
  then obtain out s' where out: "gen_call env gp st = (Inr out, s')" and "read_outputs env gp (gs_rng st) out = Inl Panicked"
    by (auto simp: gen_iter_def gen_emit_def Let_def split: sum.splits prod.splits if_splits option.splits)
  then obtain name shape data where "out name = Some (Inr (shape, data))" "last_logits shape data = Inl Panicked"
    using assms(2) by (auto simp: read_outputs_def fetch_def split: sum.splits prod.splits option.splits)
  moreover obtain s entries where "ge_session_run env s entries = (Inr out, s')" using gen_call_session[OF out] by blast
  ultimately show False using assms(1) last_logits_no_panic unfolding session_ok_def by blast
qed

definition texts_only :: "gen_params \<Rightarrow> 'j gen_item list \<Rightarrow> bool" where
  "texts_only gp xs \<longleftrightarrow> (\<exists>ds. xs = map (\<lambda>d. Inr (ort_text_chunk (gp_request_id gp) d)) ds)"

lemma texts_only_snoc: "texts_only gp xs \<Longrightarrow> texts_only gp (xs @ [Inr (ort_text_chunk (gp_request_id gp) d)])"
  unfolding texts_only_def by (elim exE) (rule exI[of _ "_ @ [d]"], simp)

lemma gen_emit_texts:
  assumes "texts_only gp (gs_sent st)"
  shows "case gen_emit env gp st of Abort _ st' \<Rightarrow> texts_only gp (gs_sent st') | Dropped st' \<Rightarrow> texts_only gp (gs_sent st')
    | Finish _ st' \<Rightarrow> texts_only gp (gs_sent st') | Continue st' \<Rightarrow> texts_only gp (gs_sent st')"
  using assms
  by (auto simp: gen_emit_def blocking_send_def Let_def texts_only_snoc split: sum.splits prod.splits option.splits)

lemma gen_iter_texts:
  assumes "texts_only gp (gs_sent st)"
  shows "case gen_iter env gp st of Abort _ st' \<Rightarrow> texts_only gp (gs_sent st') | Dropped st' \<Rightarrow> texts_only gp (gs_sent st')
    | Finish _ st' \<Rightarrow> texts_only gp (gs_sent st') | Continue st' \<Rightarrow> texts_only gp (gs_sent st')"
proof -
  consider f st' where "gen_iter env gp st = Abort f st'" "gs_sent st' = gs_sent st"
    | st1 where "gen_iter env gp st = gen_emit env gp st1" "gs_sent st1 = gs_sent st"
    by (fastforce simp: gen_iter_def split: sum.splits prod.splits)
  then show ?thesis
  proof cases
    case 2
    then show ?thesis using gen_emit_texts[of gp st1 env] assms by simp
  qed (use assms in simp)
qed

lemma reach_texts: "gen_reach env gp session rng st \<Longrightarrow> texts_only gp (gs_sent st)"
proof (induction rule: gen_reach.induct)
  case (again st st')
  then show ?case using gen_iter_texts[of gp st env] by simp
qed (simp add: gen_start_def texts_only_def)



end
