(* ===== verification/Event_Loop.thy ===== *)
theory Event_Loop
  imports Ws_Core
begin

text \<open>
  What the WebSocket tasks of the speech providers share.  A list of reads is what the connection yields, in
  order: a failure, a frame, or the end of the stream.  A task that sends into a bounded channel learns from
  each send whether the receiver is still there.  The locale \<open>event_loop\<close> is the shape of the translating
  loops, emitting for every event and stopping at the first that ends them; each loop interprets it.
\<close>

type_synonym ws_read = "string + frame option"

section \<open>Sending into a channel\<close>

text \<open>\<open>alive n\<close> says whether the receiver accepts another item after \<open>n\<close> accepted ones.\<close>

definition rt_send :: "(nat \<Rightarrow> bool) \<Rightarrow> 'o \<Rightarrow> 'o list \<Rightarrow> bool \<times> 'o list" where
  "rt_send alive x out = (if alive (length out) then (True, out @ [x]) else (False, out))"

fun send_all :: "(nat \<Rightarrow> bool) \<Rightarrow> 'o list \<Rightarrow> 'o list \<Rightarrow> bool \<times> 'o list" where
  "send_all alive out [] = (True, out)"
| "send_all alive out (x # xs) = (case rt_send alive x out of (True, out') \<Rightarrow> send_all alive out' xs | (False, out') \<Rightarrow> (False, out'))"

lemma rt_send_always [simp]: "rt_send (\<lambda>_. True) x out = (True, out @ [x])"
  by (simp add: rt_send_def)

lemma send_all_always [simp]: "send_all (\<lambda>_. True) out xs = (True, out @ xs)"
  by (induction xs arbitrary: out) simp_all

lemma send_all_limit:
  assumes "length out \<le> k"
  shows "send_all (\<lambda>i. i < k) out xs = (length out + length xs \<le> k, take k (out @ xs))"
  using assms
proof (induction xs arbitrary: out)
  case (Cons x xs)
  then show ?case by (cases "length out < k") (auto simp: rt_send_def take_Cons')
qed simp

lemma rt_send_limit: "length out \<le> k \<Longrightarrow> snd (rt_send (\<lambda>i. i < k) x out) = take k (out @ [x])"
  by (simp add: rt_send_def)

lemma take_take_append: "take k (take k xs @ ys) = take k (xs @ ys)"
  by (cases "length xs \<le> k") auto

section \<open>Loops that translate events\<close>

locale event_loop =
  fixes run :: "'e list \<Rightarrow> 'o list"
    and emit :: "'e \<Rightarrow> 'o list"
    and ends :: "'e \<Rightarrow> bool"
  assumes run_Nil: "run [] = []"
    and run_Cons: "run (e # es) = emit e @ (if ends e then [] else run es)"
begin

lemma run_append: "run (xs @ ys) = run xs @ (if list_ex ends xs then [] else run ys)"
  by (induction xs) (simp_all add: run_Nil run_Cons)

lemma run_data: "\<not> list_ex ends xs \<Longrightarrow> run xs = concat (map emit xs)"
  by (induction xs) (simp_all add: run_Nil run_Cons)

lemma run_until: "\<not> list_ex ends xs \<Longrightarrow> ends e \<Longrightarrow> run (xs @ e # ys) = concat (map emit xs) @ emit e"
  by (simp add: run_append run_data run_Cons)

lemma run_in_order: "\<exists>n. run xs = concat (map emit (take n xs))"
proof (induction xs)
  case (Cons x xs)
  then obtain n where "run xs = concat (map emit (take n xs))" by blast
  then show ?case
    by (cases "ends x") (auto simp: run_Cons intro: exI [of _ "Suc 0"] exI [of _ "Suc n"])
qed (simp add: run_Nil)

end

end
