(* ===== verification/Realtime_Adapters.thy ===== *)
theory Realtime_Adapters
  imports Audio_Types Event_Loop
begin

text \<open>
  The two realtime speech providers, \<^verbatim>\<open>inference-runtime-openai-realtime\<close> and \<^verbatim>\<open>inference-runtime-gemini-live\<close>: opening a
  session, and the tasks that translate the caller's messages into WebSocket frames and the server's frames
  into messages.  JSON and the base64 library are fields of an environment; a list of events is what the
  connection and the caller do, in the order in which a task observes it.  Every loop interprets \<open>event_loop\<close>.
\<close>

section \<open>OpenAI Realtime\<close>

datatype api_key_source = Env string | Inline string

record openai_realtime_config =
  orc_api_key :: api_key_source
  orc_endpoint :: string
  handshake_timeout_ms :: u64

definition default_realtime_endpoint :: string where
  "default_realtime_endpoint = ''wss://api.openai.com/v1/realtime''"

definition new_with_env_key :: "string \<Rightarrow> openai_realtime_config" where
  "new_with_env_key v = \<lparr>orc_api_key = Env v, orc_endpoint = default_realtime_endpoint, handshake_timeout_ms = 10000\<rparr>"

text \<open>The first argument is the environment of the process.\<close>

definition resolve_api_key :: "(string \<rightharpoonup> string) \<Rightarrow> openai_realtime_config \<Rightarrow> string + string" where
  "resolve_api_key getenv cfg = (case orc_api_key cfg of
     Env name \<Rightarrow> (case getenv name of Some v \<Rightarrow> Inr v | None \<Rightarrow> Inl (''env var `'' @ name @ ''` not set''))
   | Inline v \<Rightarrow> if v = [] then Inl ''inline api_key is empty'' else Inr v)"

definition handshake_timeout :: "openai_realtime_config \<Rightarrow> duration" where
  "handshake_timeout cfg = from_millis (unat (handshake_timeout_ms cfg))"

text \<open>What follows the first \<^verbatim>\<open>://\<close>.\<close>

fun after_scheme :: "string \<Rightarrow> string option" where
  "after_scheme [] = None"
| "after_scheme (c # s) = (if starts_with (c # s) ''://'' then Some (drop 3 (c # s)) else after_scheme s)"

definition ws_url :: "openai_realtime_config \<Rightarrow> string \<Rightarrow> string" where
  "ws_url cfg m =
     (let e = orc_endpoint cfg;
          base = (if CHR ''/'' \<in> set e \<and> (case after_scheme e of Some rest \<Rightarrow> CHR ''/'' \<in> set rest | None \<Rightarrow> False)
                  then e else e @ ''/'')
      in base @ ''?model='' @ m)"

definition resolve_voice :: "voice_ref \<Rightarrow> string inference_result" where
  "resolve_voice v = (case v of
     Named s \<Rightarrow> Inr s | Id s \<Rightarrow> Inr s
   | ClonedFrom _ \<Rightarrow> Inl (BadRequest ''OpenAI Realtime does not support voice cloning''))"

definition classify_realtime_error :: "string option \<Rightarrow> inference_error" where
  "classify_realtime_error body = ServerError 500 body"

definition classify_ws_close :: "u16 \<Rightarrow> string option \<Rightarrow> inference_error" where
  "classify_ws_close code reason =
     (if code = 4001 then Unauthorized (case reason of Some r \<Rightarrow> r | None \<Rightarrow> ''unauthorized'')
      else if code = 4003 then Forbidden (case reason of Some r \<Rightarrow> r | None \<Rightarrow> ''forbidden'')
      else if code = 4004 then BadRequest (case reason of Some r \<Rightarrow> r | None \<Rightarrow> ''bad request'')
      else if code = 4029 then RateLimited provider_kind.OpenAi None
      else ServerError code reason)"

datatype openai_client_event =
    SessionUpdate string "string list" string string string
  | InputAudioAppend string
  | InputAudioCommit
  | ResponseCancel
  | ConversationItemCreate string
  | ResponseCreate

datatype openai_server_event =
    ResponseAudioDelta string
  | ResponseAudioTranscriptDelta string
  | ResponseAudioTranscriptDone string
  | InputAudioTranscriptionCompleted string
  | ResponseDone
  | ServerErrorEvent string
  | OtherEvent

record openai_realtime_env =
  orv_to_json :: "openai_client_event \<Rightarrow> string option"
  orv_from_json :: "string \<Rightarrow> openai_server_event option"
  orv_encode :: "u8 list \<Rightarrow> string"
  orv_decode :: "string \<Rightarrow> u8 list option"

definition realtime_out_params :: audio_params where
  "realtime_out_params = new_audio_params 24000 1 Pcm16Le"

text \<open>One frame per event that can be serialised.\<close>

definition text_frame :: "openai_realtime_env \<Rightarrow> openai_client_event \<Rightarrow> frame list" where
  "text_frame env ev = (case orv_to_json env ev of Some s \<Rightarrow> [frame.Text s] | None \<Rightarrow> [])"

fun translate_inbound_to_frames :: "openai_realtime_env \<Rightarrow> realtime_in \<Rightarrow> frame list" where
  "translate_inbound_to_frames env (InAudioFrame pcm _) = text_frame env (InputAudioAppend (orv_encode env pcm))"
| "translate_inbound_to_frames env (InText t) =
     (case (orv_to_json env (ConversationItemCreate t), orv_to_json env ResponseCreate) of
        (Some i, Some r) \<Rightarrow> [frame.Text i, frame.Text r] | _ \<Rightarrow> [])"
| "translate_inbound_to_frames env Commit = text_frame env InputAudioCommit"
| "translate_inbound_to_frames env Interrupt = text_frame env ResponseCancel"
| "translate_inbound_to_frames env InClose = []"

fun translate_outbound :: "openai_realtime_env \<Rightarrow> audio_params \<Rightarrow> openai_server_event \<Rightarrow> realtime_out option" where
  "translate_outbound env ps (ResponseAudioDelta d) = map_option (\<lambda>pcm. OutAudioFrame pcm ps) (orv_decode env d)"
| "translate_outbound env ps (ResponseAudioTranscriptDelta t) = Some (Transcript TrAssistant t False)"
| "translate_outbound env ps (ResponseAudioTranscriptDone t) = Some (Transcript TrAssistant t True)"
| "translate_outbound env ps (InputAudioTranscriptionCompleted t) = Some (Transcript TrUser t True)"
| "translate_outbound env ps ResponseDone = Some Done"
| "translate_outbound env ps (ServerErrorEvent m) = Some (OutError (classify_realtime_error (Some m)))"
| "translate_outbound env ps OtherEvent = None"

text \<open>
  One turn of the \<^verbatim>\<open>select\<close> loop: the caller's next message (\<^verbatim>\<open>None\<close> when its channel is closed) with the number of
  frames the socket accepts before it fails, or the next read of the socket with whether the caller listens.
\<close>

datatype adapter_event = Uplink "realtime_in option" nat | Downlink ws_read bool

datatype adapter_output = SentFrame frame | ToCaller realtime_out

definition adapter_emit :: "openai_realtime_env \<Rightarrow> adapter_event \<Rightarrow> adapter_output list" where
  "adapter_emit env e = (case e of
     Uplink None n \<Rightarrow> map SentFrame (take n [Close 1000 []])
   | Uplink (Some InClose) n \<Rightarrow> map SentFrame (take n [Close 1000 []])
   | Uplink (Some m) n \<Rightarrow> map SentFrame (take n (translate_inbound_to_frames env m))
   | Downlink (Inr (Some (frame.Text t))) listening \<Rightarrow>
       (case orv_from_json env t of
          Some ev \<Rightarrow> (case translate_outbound env realtime_out_params ev of
            Some x \<Rightarrow> if listening then [ToCaller x] else [] | None \<Rightarrow> [])
        | None \<Rightarrow> [])
   | _ \<Rightarrow> [])"

definition adapter_ends :: "adapter_event \<Rightarrow> bool" where
  "adapter_ends e = (case e of
     Uplink None _ \<Rightarrow> True | Uplink (Some m) _ \<Rightarrow> m = InClose
   | Downlink (Inl _) _ \<Rightarrow> True | Downlink (Inr None) _ \<Rightarrow> True
   | Downlink (Inr (Some (Close _ _))) _ \<Rightarrow> True | _ \<Rightarrow> False)"

fun adapter_task :: "openai_realtime_env \<Rightarrow> adapter_event list \<Rightarrow> adapter_output list" where
  "adapter_task env [] = []"
| "adapter_task env (e # es) = adapter_emit env e @ (if adapter_ends e then [] else adapter_task env es)"

text \<open>Opening: voice, key, connection, and the first frame; the connection is given as its outcome.\<close>

definition open_realtime_session :: "openai_realtime_env \<Rightarrow> (string \<rightharpoonup> string) \<Rightarrow> (string \<Rightarrow> (string \<times> string) list \<Rightarrow> duration \<Rightarrow> string + unit) \<Rightarrow>
    (frame \<Rightarrow> string + unit) \<Rightarrow> string \<Rightarrow> openai_realtime_config \<Rightarrow> ('rx, 'tx) realtime_batch \<Rightarrow> (string \<times> frame list) inference_result" where
  "open_realtime_session env getenv connect send_frame ser_err cfg b = (case resolve_voice (rb_voice b) of
     Inl e \<Rightarrow> Inl e
   | Inr voice \<Rightarrow> (case resolve_api_key getenv cfg of
       Inl e \<Rightarrow> Inl (Unauthorized e)
     | Inr key \<Rightarrow> (case connect (ws_url cfg (rb_model b)) [(''Authorization'', ''Bearer '' @ key), (''OpenAI-Beta'', ''realtime=v1'')]
           (handshake_timeout cfg) of
         Inl e \<Rightarrow> Inl (NetworkError (''openai realtime ws connect: '' @ e))
       | Inr _ \<Rightarrow> (case orv_to_json env (SessionUpdate voice [''audio'', ''text''] ''pcm16'' ''pcm16'' ''whisper-1'') of
           None \<Rightarrow> Inl (Internal (''serialize session.update: '' @ ser_err))
         | Some su \<Rightarrow> (case send_frame (frame.Text su) of
             Inl e \<Rightarrow> Inl (NetworkError e)
           | Inr _ \<Rightarrow> Inr (rb_request_id b, [frame.Text su]))))))"

section \<open>Gemini Live\<close>

datatype gemini_live_error =
    FeatureDisabled | GlUnsupported string | GlBadRequest string | UnsupportedFormat string | GlServerError string | SessionClosed string

fun gemini_live_error_into :: "gemini_live_error \<Rightarrow> inference_error" where
  "gemini_live_error_into FeatureDisabled = Internal ''tts-gemini-live feature disabled at build time''"
| "gemini_live_error_into (GlUnsupported m) = Unsupported m runtime_kind.RealtimeSpeech"
| "gemini_live_error_into (GlBadRequest m) = BadRequest m"
| "gemini_live_error_into (UnsupportedFormat m) = UnsupportedAudioFormat m"
| "gemini_live_error_into (GlServerError body) = ServerError 500 (Some body)"
| "gemini_live_error_into (SessionClosed r) = RealtimeClosed r"

datatype gemini_client_message =
    Setup string "string list"
  | ClientContent "string option" bool
  | MediaChunk string string

record model_part =
  mp_inline_data :: "string option"
  mp_text :: "string option"

record server_content =
  sc_model_turn :: "model_part list option"
  sc_turn_complete :: "bool option"

datatype gemini_inbound = SetupComplete | ServerContent server_content | ToolCall | OtherInbound

record gemini_live_env =
  glv_to_json :: "gemini_client_message \<Rightarrow> string option"
  glv_from_json :: "string \<Rightarrow> gemini_inbound option"
  glv_has_error :: "string \<Rightarrow> bool"
  glv_encode :: "u8 list \<Rightarrow> string"
  glv_decode :: "string \<Rightarrow> u8 list option"
  glv_show_format :: "audio_format \<Rightarrow> string"

definition live_url :: "(string \<Rightarrow> string \<Rightarrow> string + string) \<Rightarrow> (string \<Rightarrow> string \<Rightarrow> string \<Rightarrow> string) \<Rightarrow> string \<Rightarrow> string \<Rightarrow> string + string" where
  "live_url url_join append_pair endpoint key =
     (case url_join endpoint ''ws/google.ai.generativelanguage.v1beta.GenerativeService.BidiGenerateContent'' of
        Inl e \<Rightarrow> Inl e | Inr u \<Rightarrow> Inr (append_pair u ''key'' key))"

text \<open>Waiting for \<^verbatim>\<open>setupComplete\<close>: no answer yet, an error, or the reads that follow.\<close>

fun await_setup :: "gemini_live_env \<Rightarrow> ws_read list \<Rightarrow> (inference_error + ws_read list) option" where
  "await_setup env [] = None"
| "await_setup env (Inr (Some (frame.Text t)) # rs) =
     (if glv_from_json env t = Some SetupComplete then Some (Inr rs)
      else if glv_has_error env t then Some (Inl (gemini_live_error_into (GlServerError t)))
      else await_setup env rs)"
| "await_setup env (Inr (Some (Close code reason)) # rs) =
     Some (Inl (gemini_live_error_into (SessionClosed (''closed during setup: code='' @ show_word code @ '' reason='' @ reason))))"
| "await_setup env (Inr None # rs) = Some (Inl (gemini_live_error_into (SessionClosed ''connection closed before setupComplete'')))"
| "await_setup env (Inl e # rs) = Some (Inl (NetworkError (''gemini live setup recv: '' @ e)))"
| "await_setup env (_ # rs) = await_setup env rs"

definition open_gemini_session :: "gemini_live_env \<Rightarrow> (string + string) \<Rightarrow> (string \<Rightarrow> string + unit) \<Rightarrow> (frame \<Rightarrow> string + unit) \<Rightarrow> string \<Rightarrow>
    ws_read list \<Rightarrow> ('rx, 'tx) realtime_batch \<Rightarrow> (string \<times> ws_read list) inference_result option" where
  "open_gemini_session env url connect send_frame ser_err reads b =
     (case rb_voice b of
        ClonedFrom _ \<Rightarrow> Some (Inl (gemini_live_error_into (GlBadRequest ''Gemini Live does not support VoiceRef::ClonedFrom'')))
      | _ \<Rightarrow> (case url of
          Inl e \<Rightarrow> Some (Inl (Internal (''gemini live url: '' @ e)))
        | Inr u \<Rightarrow> (case connect u of
            Inl e \<Rightarrow> Some (Inl (NetworkError (''gemini live ws connect: '' @ e)))
          | Inr _ \<Rightarrow> (case glv_to_json env (Setup (''models/'' @ rb_model b) [''AUDIO'']) of
              None \<Rightarrow> Some (Inl (Internal (''setup serialize: '' @ ser_err)))
            | Some s \<Rightarrow> (case send_frame (frame.Text s) of
                Inl e \<Rightarrow> Some (Inl (NetworkError (''gemini live setup send: '' @ e)))
              | Inr _ \<Rightarrow> (case await_setup env reads of
                  None \<Rightarrow> None
                | Some (Inl e) \<Rightarrow> Some (Inl e)
                | Some (Inr rest) \<Rightarrow> Some (Inr (rb_request_id b, rest))))))))"

text \<open>The uplink task: for each message what it sends to the server and to the caller, and whether it ends.\<close>

definition gemini_up_payload :: "gemini_live_env \<Rightarrow> realtime_in \<Rightarrow> gemini_client_message option" where
  "gemini_up_payload env m = (case m of
     InText t \<Rightarrow> Some (ClientContent (Some t) True)
   | InAudioFrame pcm ps \<Rightarrow> if ap_format ps = Pcm16Le
       then Some (MediaChunk (''audio/pcm;rate='' @ show_word (sample_rate_hz ps)) (glv_encode env pcm)) else None
   | Commit \<Rightarrow> Some (ClientContent None True)
   | _ \<Rightarrow> None)"

fun gemini_up_refusal :: "gemini_live_env \<Rightarrow> realtime_in \<Rightarrow> inference_error option" where
  "gemini_up_refusal env (InAudioFrame _ ps) = (if ap_format ps = Pcm16Le then None
     else Some (UnsupportedAudioFormat (''Gemini Live requires Pcm16Le; got '' @ glv_show_format env (ap_format ps))))"
| "gemini_up_refusal env Interrupt = Some (Unsupported ''interrupt'' runtime_kind.RealtimeSpeech)"
| "gemini_up_refusal env _ = None"

fun uplink_task :: "gemini_live_env \<Rightarrow> (nat \<Rightarrow> bool) \<Rightarrow> bool \<Rightarrow> adapter_output list \<Rightarrow> realtime_in list \<Rightarrow> adapter_output list" where
  "uplink_task env sink listening out [] = out"
| "uplink_task env sink listening out (m # ms) = (case gemini_up_refusal env m of
     Some e \<Rightarrow> if listening then out @ [ToCaller (OutError e)] else out
   | None \<Rightarrow> if m = InClose then out
       else (case Option.bind (gemini_up_payload env m) (glv_to_json env) of
         None \<Rightarrow> uplink_task env sink listening out ms
       | Some s \<Rightarrow> if sink (length out) then uplink_task env sink listening (out @ [SentFrame (frame.Text s)]) ms else out))"

text \<open>The downlink task.  A refused delivery of a part ends the task; all other refusals are ignored.\<close>

definition part_audio :: "gemini_live_env \<Rightarrow> model_part \<Rightarrow> realtime_out list" where
  "part_audio env p = (case Option.bind (mp_inline_data p) (glv_decode env) of
     Some pcm \<Rightarrow> [OutAudioFrame pcm (new_audio_params 24000 1 Pcm16Le)] | None \<Rightarrow> [])"

definition part_text :: "model_part \<Rightarrow> realtime_out list" where
  "part_text p = (case mp_text p of Some t \<Rightarrow> [Transcript TrAssistant t False] | None \<Rightarrow> [])"

definition turn_parts :: "gemini_live_env \<Rightarrow> server_content \<Rightarrow> realtime_out list" where
  "turn_parts env sc = (case sc_model_turn sc of
     Some ps \<Rightarrow> concat (map (\<lambda>p. part_audio env p @ part_text p) ps) | None \<Rightarrow> [])"

fun downlink_task :: "gemini_live_env \<Rightarrow> (nat \<Rightarrow> bool) \<Rightarrow> realtime_out list \<Rightarrow> ws_read list \<Rightarrow> realtime_out list" where
  "downlink_task env alive out [] = out"
| "downlink_task env alive out (Inr (Some (frame.Text t)) # rs) =
     (if glv_has_error env t
      then snd (rt_send alive Done (snd (rt_send alive (OutError (gemini_live_error_into (GlServerError t))) out)))
      else (case glv_from_json env t of
        Some (ServerContent sc) \<Rightarrow>
          (case send_all alive out (turn_parts env sc) of
             (False, out') \<Rightarrow> out'
           | (True, out') \<Rightarrow> downlink_task env alive
               (if sc_turn_complete sc = Some True then snd (rt_send alive (Transcript TrAssistant [] True) out') else out') rs)
      | _ \<Rightarrow> downlink_task env alive out rs))"
| "downlink_task env alive out (Inr (Some (Close code reason)) # rs) = snd (rt_send alive Done out)"
| "downlink_task env alive out (Inr None # rs) = snd (rt_send alive Done out)"
| "downlink_task env alive out (Inl e # rs) =
     snd (rt_send alive Done (snd (rt_send alive (OutError (NetworkError (''gemini live ws recv: '' @ e))) out)))"
| "downlink_task env alive out (_ # rs) = downlink_task env alive out rs"

section \<open>The loops as event loops\<close>

interpretation openai_link: event_loop "adapter_task env" "adapter_emit env" adapter_ends
  for env :: openai_realtime_env
  by unfold_locales simp_all

text \<open>What the Gemini tasks emit for one event when nobody hangs up.\<close>

definition down_emit :: "gemini_live_env \<Rightarrow> ws_read \<Rightarrow> realtime_out list" where
  "down_emit env r = (case r of
     Inr (Some (frame.Text t)) \<Rightarrow>
       if glv_has_error env t then [OutError (gemini_live_error_into (GlServerError t)), Done]
       else (case glv_from_json env t of
         Some (ServerContent sc) \<Rightarrow> turn_parts env sc @ (if sc_turn_complete sc = Some True then [Transcript TrAssistant [] True] else [])
       | _ \<Rightarrow> [])
   | Inr (Some (Close _ _)) \<Rightarrow> [Done]
   | Inr None \<Rightarrow> [Done]
   | Inl e \<Rightarrow> [OutError (NetworkError (''gemini live ws recv: '' @ e)), Done]
   | _ \<Rightarrow> [])"

definition down_ends :: "gemini_live_env \<Rightarrow> ws_read \<Rightarrow> bool" where
  "down_ends env r = (case r of
     Inr (Some (frame.Text t)) \<Rightarrow> glv_has_error env t
   | Inr (Some (Close _ _)) \<Rightarrow> True | Inr None \<Rightarrow> True | Inl _ \<Rightarrow> True | _ \<Rightarrow> False)"

definition up_emit :: "gemini_live_env \<Rightarrow> realtime_in \<Rightarrow> adapter_output list" where
  "up_emit env m = (case gemini_up_refusal env m of
     Some e \<Rightarrow> [ToCaller (OutError e)]
   | None \<Rightarrow> (case Option.bind (gemini_up_payload env m) (glv_to_json env) of Some s \<Rightarrow> [SentFrame (frame.Text s)] | None \<Rightarrow> []))"

definition up_ends :: "gemini_live_env \<Rightarrow> realtime_in \<Rightarrow> bool" where
  "up_ends env m \<longleftrightarrow> gemini_up_refusal env m \<noteq> None \<or> m = InClose"

lemma downlink_step:
  "downlink_task env (\<lambda>_. True) out (r # rs) =
     (if down_ends env r then out @ down_emit env r else downlink_task env (\<lambda>_. True) (out @ down_emit env r) rs)"
  by (cases "(env, (\<lambda>_. True) :: nat \<Rightarrow> bool, out, r # rs)" rule: downlink_task.cases)
    (auto simp: down_ends_def down_emit_def split: option.splits gemini_inbound.splits)

lemma downlink_acc: "downlink_task env (\<lambda>_. True) out rs = out @ downlink_task env (\<lambda>_. True) [] rs"
proof (induction rs arbitrary: out)
  case (Cons r rs)
  show ?case
    unfolding downlink_step by (simp add: Cons.IH [of "out @ down_emit env r"] Cons.IH [of "down_emit env r"])
qed simp

interpretation gemini_down: event_loop "downlink_task env (\<lambda>_. True) []" "down_emit env" "down_ends env"
  for env :: gemini_live_env
proof
  fix e es
  show "downlink_task env (\<lambda>_. True) [] (e # es) = down_emit env e @ (if down_ends env e then [] else downlink_task env (\<lambda>_. True) [] es)"
    using downlink_acc [of env "down_emit env e" es] by (simp add: downlink_step)
qed simp

lemma uplink_acc: "uplink_task env (\<lambda>_. True) True out ms = out @ uplink_task env (\<lambda>_. True) True [] ms"
proof (induction ms arbitrary: out)
  case (Cons m ms)
  have "uplink_task env (\<lambda>_. True) True (out @ [x]) ms = out @ [x] @ uplink_task env (\<lambda>_. True) True [] ms"
    "uplink_task env (\<lambda>_. True) True [x] ms = [x] @ uplink_task env (\<lambda>_. True) True [] ms" for x
    using Cons.IH [of "out @ [x]"] Cons.IH [of "[x]"] by simp_all
  with Cons.IH [of out] show ?case by (auto split: option.splits)
qed simp

interpretation gemini_up: event_loop "uplink_task env (\<lambda>_. True) True []" "up_emit env" "up_ends env"
  for env :: gemini_live_env
proof
  fix m ms
  have "uplink_task env (\<lambda>_. True) True [x] ms = x # uplink_task env (\<lambda>_. True) True [] ms" for x
    using uplink_acc [of env "[x]" ms] by simp
  then show "uplink_task env (\<lambda>_. True) True [] (m # ms) = up_emit env m @ (if up_ends env m then [] else uplink_task env (\<lambda>_. True) True [] ms)"
    by (auto simp: up_emit_def up_ends_def gemini_up_payload_def split: option.splits)
qed simp

section \<open>What the caller sees\<close>

text \<open>The text of the model's turns, as the server sends it and as the caller receives it.\<close>

definition read_text :: "gemini_live_env \<Rightarrow> ws_read \<Rightarrow> string" where
  "read_text env r = (case r of
     Inr (Some (frame.Text t)) \<Rightarrow>
       if glv_has_error env t then []
       else (case glv_from_json env t of
         Some (ServerContent sc) \<Rightarrow> (case sc_model_turn sc of
             Some ps \<Rightarrow> concat (map (\<lambda>p. case mp_text p of Some s \<Rightarrow> s | None \<Rightarrow> []) ps) | None \<Rightarrow> [])
       | _ \<Rightarrow> [])
   | _ \<Rightarrow> [])"

fun heard :: "realtime_out \<Rightarrow> string" where
  "heard (Transcript TrAssistant t False) = t"
| "heard _ = []"

lemma turn_parts_heard:
  "concat (map heard (turn_parts env sc)) = (case sc_model_turn sc of
     Some ps \<Rightarrow> concat (map (\<lambda>p. case mp_text p of Some s \<Rightarrow> s | None \<Rightarrow> []) ps) | None \<Rightarrow> [])"
proof (cases "sc_model_turn sc")
  case (Some ps)
  have "concat (map heard (concat (map (\<lambda>p. part_audio env p @ part_text p) ps))) =
      concat (map (\<lambda>p. case mp_text p of Some s \<Rightarrow> s | None \<Rightarrow> []) ps)"
    by (induction ps) (auto simp: part_audio_def part_text_def split: option.splits)
  then show ?thesis using Some by (simp add: turn_parts_def)
qed (simp add: turn_parts_def)

lemma turn_parts_no_done: "Done \<notin> set (turn_parts env sc)"
  by (auto simp: turn_parts_def part_audio_def part_text_def split: option.splits)

lemma down_data:
  assumes "\<not> down_ends env r"
  shows "concat (map heard (down_emit env r)) = read_text env r" and "Done \<notin> set (down_emit env r)"
  using assms turn_parts_no_done
  by (auto simp: down_ends_def down_emit_def read_text_def turn_parts_heard
      split: sum.splits option.splits frame.splits gemini_inbound.splits)

lemma down_last:
  assumes "down_ends env r"
  shows "\<exists>err. down_emit env r = err @ [Done] \<and> Done \<notin> set err \<and> concat (map heard err) = []"
  using assms
  by (auto simp: down_ends_def down_emit_def split: sum.splits option.splits frame.splits)

text \<open>One read with a caller that accepts \<open>k\<close> messages.\<close>

lemma downlink_limit_step:
  fixes out :: "realtime_out list"
  assumes "length out \<le> k"
  shows "down_ends env r \<and> downlink_task env (\<lambda>i. i < k) out (r # rs) = take k (out @ down_emit env r) \<or>
    \<not> down_ends env r \<and> (downlink_task env (\<lambda>i. i < k) out (r # rs) = downlink_task env (\<lambda>i. i < k) (take k (out @ down_emit env r)) rs \<or>
      k \<le> length (out @ down_emit env r) \<and> downlink_task env (\<lambda>i. i < k) out (r # rs) = take k (out @ down_emit env r))"
proof (cases "\<exists>t sc. r = Inr (Some (frame.Text t)) \<and> \<not> glv_has_error env t \<and> glv_from_json env t = Some (ServerContent sc)")
  case True
  then obtain t sc where r: "r = Inr (Some (frame.Text t))" "\<not> glv_has_error env t" "glv_from_json env t = Some (ServerContent sc)"
    by blast
  show ?thesis
  proof (cases "length out + length (turn_parts env sc) \<le> k")
    case le: True
    then have "take k (out @ turn_parts env sc) = out @ turn_parts env sc" by simp
    then show ?thesis
      using r assms le by (simp add: down_ends_def down_emit_def send_all_limit rt_send_limit del: take_append)
  qed (use r assms in \<open>simp add: down_ends_def down_emit_def send_all_limit\<close>)
next
  case False
  then show ?thesis
    using assms
    by (cases "(env, (\<lambda>i. i < k) :: nat \<Rightarrow> bool, out, r # rs)" rule: downlink_task.cases)
      (auto simp: down_ends_def down_emit_def rt_send_limit take_take_append simp del: take_append split: option.splits gemini_inbound.splits)
qed

text \<open>A caller that hangs up after \<open>k\<close> messages has seen the first \<open>k\<close> messages of the whole session.\<close>

lemma downlink_limit:
  assumes "length out \<le> k"
  shows "downlink_task env (\<lambda>i. i < k) out rs = take k (downlink_task env (\<lambda>_. True) out rs)"
  using assms
proof (induction rs arbitrary: out)
  case (Cons r rs)
  let ?next = "out @ down_emit env r"
  have whole: "downlink_task env (\<lambda>_. True) out (r # rs) = (if down_ends env r then ?next else ?next @ downlink_task env (\<lambda>_. True) [] rs)"
    using downlink_acc [of env ?next rs] by (simp add: downlink_step)
  have "downlink_task env (\<lambda>i. i < k) (take k ?next) rs = take k (?next @ downlink_task env (\<lambda>_. True) [] rs)"
    using Cons.IH [of "take k ?next"] downlink_acc [of env "take k ?next" rs] by (simp add: take_take_append del: take_append)
  with downlink_limit_step [OF Cons.prems, of env r rs] show ?case unfolding whole by auto
qed simp

section \<open>Properties\<close>

text \<open>A Gemini Live session is reported completely and closed once.  For any frames up to the one that ends the
  connection, whatever follows it, the caller receives the text parts of the model's turns in order, then
  exactly one \<^verbatim>\<open>Done\<close> as the last message; a caller that stops listening after \<open>k\<close> messages has received the first
  \<open>k\<close> of them.\<close>

theorem gemini_live_session_reported:
  assumes "\<not> list_ex (down_ends env) xs" and "down_ends env e"
  shows "\<exists>body. downlink_task env (\<lambda>_. True) [] (xs @ e # ys) = body @ [Done] \<and> Done \<notin> set body \<and>
    concat (map heard body) = concat (map (read_text env) xs) \<and>
    (\<forall>k. downlink_task env (\<lambda>i. i < k) [] (xs @ e # ys) = take k (body @ [Done]))"
proof -
  obtain err where err: "down_emit env e = err @ [Done]" "Done \<notin> set err" "concat (map heard err) = []"
    using down_last [OF assms(2)] by blast
  have "concat (map heard (concat (map (down_emit env) xs))) = concat (map (read_text env) xs) \<and> Done \<notin> set (concat (map (down_emit env) xs))"
    using assms(1) by (induction xs) (auto simp: down_data)
  moreover have "downlink_task env (\<lambda>_. True) [] (xs @ e # ys) = (concat (map (down_emit env) xs) @ err) @ [Done]"
    using gemini_down.run_until [OF assms] err(1) by simp
  ultimately show ?thesis using err downlink_limit [of "[]" _ env "xs @ e # ys"]
    by (intro exI [of _ "concat (map (down_emit env) xs) @ err"]) (simp del: take_append)
qed

definition demo_live_env :: gemini_live_env where
  "demo_live_env = \<lparr>glv_to_json = (\<lambda>_. None), glv_from_json = (\<lambda>s. Some (ServerContent \<lparr>sc_model_turn = Some [\<lparr>mp_inline_data = None, mp_text = Some s\<rparr>],
     sc_turn_complete = None\<rparr>)), glv_has_error = (\<lambda>_. False), glv_encode = (\<lambda>_. []), glv_decode = (\<lambda>_. None), glv_show_format = (\<lambda>_. [])\<rparr>"

theorem gemini_live_session_reported_witness:
  "\<exists>body. downlink_task demo_live_env (\<lambda>_. True) [] ([Inr (Some (frame.Text ''he'')), Inr (Some (frame.Text ''llo''))] @ Inr None # [Inr None]) = body @ [Done] \<and>
     concat (map heard body) = ''hello''"
proof -
  have "\<not> list_ex (down_ends demo_live_env) [Inr (Some (frame.Text ''he'')), Inr (Some (frame.Text ''llo''))]" "down_ends demo_live_env (Inr None)"
    "concat (map (read_text demo_live_env) [Inr (Some (frame.Text ''he'')), Inr (Some (frame.Text ''llo''))]) = ''hello''"
    by (simp_all add: down_ends_def read_text_def demo_live_env_def)
  with gemini_live_session_reported [of demo_live_env] show ?thesis by metis
qed



end
