(* ===== verification/Speech_Synthesis.thy ===== *)
theory Speech_Synthesis
  imports Audio_Types Event_Loop Provider_OpenAi
begin

text \<open>
  The remote text-to-speech runners, \<^verbatim>\<open>inference-runtime-openai-tts\<close> and \<^verbatim>\<open>inference-runtime-elevenlabs\<close>: the requests
  they build, the re-chunking of a whole answer, and the task that reads ElevenLabs' WebSocket.  The transport
  is the environment record of the text providers (the reader of a whole answer is its field \<open>answer_json\<close>);
  JSON and the base64 library of the WebSocket protocol are fields of a second record.
\<close>

section \<open>Cutting a body into chunks\<close>

text \<open>
  The loop over the offset with the chunk size of the configuration, at least one.  The sum of an offset and the
  chunk size does not overflow: a second round has both below the length of a body in memory.
\<close>

function slices :: "nat \<Rightarrow> u8 list \<Rightarrow> nat \<Rightarrow> (u8 list \<times> bool) list" where
  "slices chunk_bytes bytes offset =
     (if offset < length bytes
      then let stop = min (offset + max chunk_bytes 1) (length bytes)
           in (take (stop - offset) (drop offset bytes), stop = length bytes) # slices chunk_bytes bytes stop
      else [])"
  by pat_completeness auto
termination
  by (relation "measure (\<lambda>(k, bs, n). length bs - n)") auto

declare slices.simps [simp del]

definition speech_chunk_of :: "string \<Rightarrow> audio_params \<Rightarrow> u8 list \<times> bool \<Rightarrow> speech_chunk" where
  "speech_chunk_of rid ps s = \<lparr>sp_request_id = rid, sp_is_final = snd s, audio_pcm_chunk = fst s, sp_params = ps,
     alignment = None, sp_usage = None\<rparr>"

definition rechunk :: "nat \<Rightarrow> string \<Rightarrow> audio_params \<Rightarrow> u8 list \<Rightarrow> speech_chunk inference_result list" where
  "rechunk chunk_bytes rid ps bytes =
     (if length bytes = 0 then [Inr (speech_chunk_of rid ps ([], True))]
      else map (\<lambda>s. Inr (speech_chunk_of rid ps s)) (slices chunk_bytes bytes 0))"

section \<open>OpenAI text to speech\<close>

datatype openai_tts_error = TtsUnsupportedFormat string | TtsFeatureDisabled

fun openai_tts_error_into :: "openai_tts_error \<Rightarrow> inference_error" where
  "openai_tts_error_into (TtsUnsupportedFormat m) = UnsupportedAudioFormat m"
| "openai_tts_error_into TtsFeatureDisabled = Internal ''tts-openai feature disabled at build time''"

record openai_tts_config =
  tts_endpoint :: string
  tts_organization :: "string option"
  tts_project :: "string option"
  tts_chunk_bytes :: usize

definition default_chunk_bytes :: usize where
  "default_chunk_bytes = 8192"

definition defaults_for_openai_tts :: openai_tts_config where
  "defaults_for_openai_tts = \<lparr>tts_endpoint = ''https://api.openai.com/v1/'', tts_organization = None, tts_project = None,
     tts_chunk_bytes = default_chunk_bytes\<rparr>"

record tts_request =
  tq_model :: string
  tq_input :: string
  tq_voice :: string
  tq_response_format :: string
  tq_speed :: "f32 option"
  tq_instructions :: "string option"

fun voice_name :: "voice_ref \<Rightarrow> string" where
  "voice_name (Named s) = s"
| "voice_name (Id s) = s"
| "voice_name (ClonedFrom _) = ''alloy''"

definition tts_request_from_batch :: "speech_batch \<Rightarrow> string \<Rightarrow> tts_request" where
  "tts_request_from_batch b fmt = \<lparr>tq_model = sb_model b, tq_input = sb_text b, tq_voice = voice_name (sb_voice b),
     tq_response_format = fmt, tq_speed = speed (sb_options b), tq_instructions = so_emotion (sb_options b)\<rparr>"

fun response_format_str :: "audio_format \<Rightarrow> string option" where
  "response_format_str Pcm16Le = Some ''pcm''"
| "response_format_str PcmF32Le = Some ''pcm''"
| "response_format_str Pcm24Le = Some ''pcm''"
| "response_format_str Mp3 = Some ''mp3''"
| "response_format_str OggOpus = Some ''opus''"
| "response_format_str Flac = Some ''flac''"
| "response_format_str Wav = Some ''wav''"

definition tts_output_params :: "audio_format option \<Rightarrow> audio_params" where
  "tts_output_params requested = new_audio_params 24000 1 (case requested of Some f \<Rightarrow> f | None \<Rightarrow> Pcm16Le)"

type_synonym tts_env = "(tts_request, unit, u8 list, openai_error_body) http_env"

record openai_tts_runner =
  tr_config :: openai_tts_config
  tr_speech_url :: string

definition tts_new :: "tts_env \<Rightarrow> openai_tts_config \<Rightarrow> openai_tts_runner inference_result" where
  "tts_new env cfg = (case url_join env (tts_endpoint cfg) ''audio/speech'' of
     Inl e \<Rightarrow> Inl (Internal (''openai-tts endpoint url: '' @ e))
   | Inr u \<Rightarrow> Inr \<lparr>tr_config = cfg, tr_speech_url = u\<rparr>)"

definition tts_auth_headers :: "tts_env \<Rightarrow> openai_tts_config \<Rightarrow> string \<Rightarrow> (string \<times> string) list inference_result" where
  "tts_auth_headers env cfg token = (case header_value env (''Bearer '' @ token) of
     Inl e \<Rightarrow> Inl (Internal (''invalid bearer token: '' @ e))
   | Inr v \<Rightarrow>
     (case opt_header (header_value env) ''org'' ''openai-organization'' (tts_organization cfg) [(''authorization'', v)] of
        Inl e \<Rightarrow> Inl e
      | Inr hs \<Rightarrow> opt_header (header_value env) ''project'' ''openai-project'' (tts_project cfg) hs))"

text \<open>\<^verbatim>\<open>{fmt:?}\<close> of a format is a parameter.\<close>

definition tts_response_format :: "(audio_format \<Rightarrow> string) \<Rightarrow> audio_format option \<Rightarrow> string inference_result" where
  "tts_response_format show_format requested = (case requested of
     None \<Rightarrow> Inr ''pcm''
   | Some f \<Rightarrow> (case response_format_str f of
       Some s \<Rightarrow> Inr s
     | None \<Rightarrow> Inl (UnsupportedAudioFormat (''openai-tts: response_format for '' @ show_format f @ '' not supported''))))"

definition tts_speak :: "tts_env \<Rightarrow> (audio_format \<Rightarrow> string) \<Rightarrow> openai_tts_runner \<Rightarrow> string \<Rightarrow> speech_batch \<Rightarrow>
    speech_chunk inference_result list inference_result" where
  "tts_speak env show_format r token b = (case tts_response_format show_format (so_format (sb_options b)) of
     Inl e \<Rightarrow> Inl e
   | Inr fmt \<Rightarrow> (case tts_auth_headers env (tr_config r) token of
       Inl e \<Rightarrow> Inl e
     | Inr hs \<Rightarrow> (case send env \<lparr>rq_url = tr_speech_url r, rq_headers = hs, rq_body = tts_request_from_batch b fmt\<rparr> of
         Inl e \<Rightarrow> Inl (NetworkError e)
       | Inr resp \<Rightarrow>
           if \<not> is_success (hs_status resp)
           then Inl (classify_openai_error (error_json env) (rfc2822 env) (unix_now env) (hs_status resp) (hs_retry_after resp) (hs_text resp))
           else (case answer_json env resp of
             Inl e \<Rightarrow> Inl (NetworkError (''read tts body: '' @ e))
           | Inr bytes \<Rightarrow> Inr (rechunk (unat (tts_chunk_bytes (tr_config r))) (sb_request_id b)
               (tts_output_params (so_format (sb_options b))) bytes)))))"

definition tts_per_million_chars_usd :: "string \<Rightarrow> f64" where
  "tts_per_million_chars_usd m = (if m = ''tts-1'' then Fin 15 else if m = ''tts-1-hd'' then Fin 30
     else if m = ''gpt-4o-mini-tts'' then Fin 12 else Fin 0)"

definition tts_estimate_usd :: "string \<Rightarrow> u32 \<Rightarrow> f64" where
  "tts_estimate_usd m chars = f64_div (f64_mul (tts_per_million_chars_usd m) (f64_of_nat (unat chars))) (Fin 1000000)"

section \<open>ElevenLabs\<close>

datatype elevenlabs_error = ElFeatureDisabled | ElUnsupported string | ElBadRequest string | ElUnsupportedFormat string

fun elevenlabs_error_into :: "elevenlabs_error \<Rightarrow> inference_error" where
  "elevenlabs_error_into ElFeatureDisabled = Internal ''tts-elevenlabs feature disabled at build time''"
| "elevenlabs_error_into (ElUnsupported m) = Unsupported m runtime_kind.TextToSpeech"
| "elevenlabs_error_into (ElBadRequest m) = BadRequest m"
| "elevenlabs_error_into (ElUnsupportedFormat m) = UnsupportedAudioFormat m"

record elevenlabs_config =
  el_endpoint :: string
  el_ws_endpoint :: string
  default_voice_id :: "string option"
  el_chunk_bytes :: usize
  el_ws_connect_timeout :: duration

definition defaults_for_elevenlabs :: elevenlabs_config where
  "defaults_for_elevenlabs = \<lparr>el_endpoint = ''https://api.elevenlabs.io/v1/'', el_ws_endpoint = ''wss://api.elevenlabs.io/v1/'',
     default_voice_id = None, el_chunk_bytes = 8192, el_ws_connect_timeout = from_secs 5\<rparr>"

record voice_settings =
  vs_stability :: "f32 option"
  vs_similarity_boost :: "f32 option"
  vs_style :: "f32 option"
  vs_use_speaker_boost :: "bool option"

record el_speech_request =
  eq_model_id :: string
  eq_text :: string
  eq_voice_settings :: "voice_settings option"

datatype el_ws_message =
    WsInit string string string "voice_settings option"
  | WsText string "bool option"

record ws_alignment =
  wa_chars :: "string list"
  char_start_times_ms :: "u32 list"
  char_durations_ms :: "u32 list"

record ws_inbound =
  wi_audio :: "string option"
  wi_alignment :: "ws_alignment option"
  wi_is_final :: "bool option"

type_synonym el_http = "(el_speech_request, unit, u8 list, unit) http_env"

text \<open>The WebSocket side: connecting, serialising, sending the n-th frame, and decoding.\<close>

record el_ws_env =
  ew_connect :: "string \<Rightarrow> duration \<Rightarrow> string + unit"
  ew_to_json :: "el_ws_message \<Rightarrow> string + string"
  ew_send :: "nat \<Rightarrow> frame \<Rightarrow> string + unit"
  ew_frame_json :: "string \<Rightarrow> string + ws_inbound"
  ew_base64 :: "string \<Rightarrow> string + u8 list"

definition el_auth_header_value :: "('b, 'ev, 'r, 'eb) http_env \<Rightarrow> string \<Rightarrow> string inference_result" where
  "el_auth_header_value env token = (case header_value env token of
     Inl e \<Rightarrow> Inl (Internal (''invalid xi-api-key: '' @ e)) | Inr v \<Rightarrow> Inr v)"

definition resolve_voice_id :: "elevenlabs_config \<Rightarrow> voice_ref \<Rightarrow> string inference_result" where
  "resolve_voice_id cfg v = (case v of
     Id s \<Rightarrow> Inr s | Named s \<Rightarrow> Inr s
   | ClonedFrom _ \<Rightarrow> (case default_voice_id cfg of
       Some s \<Rightarrow> Inr s
     | None \<Rightarrow> Inl (elevenlabs_error_into (ElBadRequest
         ''ClonedFrom requires prior /v1/voices/add; pass VoiceRef::Id(new_id) to speak, or set ElevenLabsTtsConfig::default_voice_id''))))"

definition fp_clamp :: "fp \<Rightarrow> fp \<Rightarrow> fp \<Rightarrow> fp" where
  "fp_clamp lo hi x = (if fp_lt x lo then lo else if fp_lt hi x then hi else x)"

definition voice_settings_from_batch :: "speech_batch \<Rightarrow> voice_settings option" where
  "voice_settings_from_batch b =
     (let style = map_option (\<lambda>s. fp_clamp (Fin 0) (Fin 1) (f32_div (f32_add s (Fin 12)) (Fin 24))) (pitch_semitones (sb_options b))
      in if style \<noteq> None then Some \<lparr>vs_stability = None, vs_similarity_boost = None, vs_style = style, vs_use_speaker_boost = None\<rparr>
         else None)"

definition classify_elevenlabs_error :: "u16 \<Rightarrow> string option \<Rightarrow> string option \<Rightarrow> inference_error" where
  "classify_elevenlabs_error status retry_after body =
     (let body = (case body of Some s \<Rightarrow> s | None \<Rightarrow> []) in
      if status = 429 then RateLimited provider_kind.ElevenLabs
        (map_option (\<lambda>n. from_secs (unat n)) (Option.bind retry_after parse_u64))
      else if status = 401 then Unauthorized (if body = [] then ''elevenlabs auth failed (status '' @ show_word status @ '')'' else body)
      else if status = 403 then Forbidden (if body = [] then ''elevenlabs forbidden (status '' @ show_word status @ '')'' else body)
      else if 400 \<le> status \<and> status \<le> 499
      then BadRequest (if body = [] then ''elevenlabs rejected request (status '' @ show_word status @ '')'' else body)
      else if 500 \<le> status \<and> status \<le> 599 then ServerError status (if body = [] then None else Some body)
      else Internal (''elevenlabs returned unexpected status '' @ show_word status @ '': '' @ body))"

definition elevenlabs_output_format :: "audio_format option \<Rightarrow> string inference_result" where
  "elevenlabs_output_format requested = (case (case requested of Some f \<Rightarrow> f | None \<Rightarrow> Mp3) of
     Pcm16Le \<Rightarrow> Inr ''pcm_24000''
   | Pcm24Le \<Rightarrow> Inr ''pcm_24000''
   | PcmF32Le \<Rightarrow> Inl (elevenlabs_error_into (ElUnsupportedFormat
       ''ElevenLabs does not emit PcmF32Le; choose Pcm16Le, Mp3, or OggOpus''))
   | Mp3 \<Rightarrow> Inr ''mp3_44100_128''
   | OggOpus \<Rightarrow> Inr ''opus_48000_64''
   | _ \<Rightarrow> Inl (elevenlabs_error_into (ElUnsupportedFormat
       ''ElevenLabs does not support Flac/Wav output; choose Mp3, Pcm16Le, or OggOpus'')))"

definition el_output_params :: "audio_format option \<Rightarrow> audio_params" where
  "el_output_params requested =
     (let f = (case requested of Some f \<Rightarrow> f | None \<Rightarrow> Mp3)
      in new_audio_params (if f = Pcm16Le \<or> f = Pcm24Le then 24000 else if f = OggOpus then 48000 else 44100) 1 f)"

text \<open>Timings as words: one per character that has a start and a duration.\<close>

definition ws_alignment_to_delta :: "ws_alignment \<Rightarrow> alignment_delta" where
  "ws_alignment_to_delta a =
     (let n = min (min (length (wa_chars a)) (length (char_start_times_ms a))) (length (char_durations_ms a))
      in \<lparr>ad_words = map (\<lambda>i. let start = char_start_times_ms a ! i
             in \<lparr>wt_text = wa_chars a ! i, wt_start_ms = start, wt_end_ms = saturating_add start (char_durations_ms a ! i), confidence = None\<rparr>) [0..<n],
          visemes = []\<rparr>)"

section \<open>ElevenLabs over HTTPS\<close>

definition speak_https :: "el_http \<Rightarrow> elevenlabs_config \<Rightarrow> string \<Rightarrow> speech_batch \<Rightarrow> speech_chunk inference_result list inference_result" where
  "speak_https env cfg token b = (case resolve_voice_id cfg (sb_voice b) of
     Inl e \<Rightarrow> Inl e
   | Inr voice \<Rightarrow> (case url_join env (el_endpoint cfg) (''text-to-speech/'' @ voice) of
       Inl e \<Rightarrow> Inl (Internal (''elevenlabs speech url: '' @ e))
     | Inr url \<Rightarrow> (case elevenlabs_output_format (so_format (sb_options b)) of
         Inl e \<Rightarrow> Inl e
       | Inr fmt \<Rightarrow> (case el_auth_header_value env token of
           Inl e \<Rightarrow> Inl e
         | Inr key \<Rightarrow> (case send env \<lparr>rq_url = append_pair env url ''output_format'' fmt,
               rq_headers = [(''xi-api-key'', key), (''accept'', ''audio/*'')],
               rq_body = \<lparr>eq_model_id = sb_model b, eq_text = sb_text b, eq_voice_settings = voice_settings_from_batch b\<rparr>\<rparr> of
             Inl e \<Rightarrow> Inl (NetworkError e)
           | Inr resp \<Rightarrow>
               if \<not> is_success (hs_status resp)
               then Inl (classify_elevenlabs_error (hs_status resp) (hs_retry_after resp) (hs_text resp))
               else (case answer_json env resp of
                 Inl e \<Rightarrow> Inl (NetworkError (''read elevenlabs body: '' @ e))
               | Inr bytes \<Rightarrow> Inr (rechunk (unat (el_chunk_bytes cfg)) (sb_request_id b) (el_output_params (so_format (sb_options b))) bytes)))))))"

text \<open>Cloning a voice: a multipart form of text fields and the sample; the transport and the decoder are given.\<close>

record voice_form =
  vf_name :: string
  vf_files :: "u8 list"
  vf_file_name :: string
  vf_description :: "string option"

definition clone_voice :: "(voice_form, unit, string, unit) http_env \<Rightarrow> elevenlabs_config \<Rightarrow> string \<Rightarrow> string \<Rightarrow> audio_payload \<Rightarrow>
    string option \<Rightarrow> string inference_result" where
  "clone_voice env cfg token nm sample desc = (case url_join env (el_endpoint cfg) ''voices/add'' of
     Inl e \<Rightarrow> Inl (Internal (''voices/add url: '' @ e))
   | Inr url \<Rightarrow> (case sample of
       Bytes bytes _ \<Rightarrow> (case el_auth_header_value env token of
           Inl e \<Rightarrow> Inl e
         | Inr key \<Rightarrow> (case send env \<lparr>rq_url = url, rq_headers = [(''xi-api-key'', key)],
               rq_body = \<lparr>vf_name = nm, vf_files = bytes, vf_file_name = ''sample.wav'', vf_description = desc\<rparr>\<rparr> of
             Inl e \<Rightarrow> Inl (NetworkError e)
           | Inr resp \<Rightarrow>
               if \<not> is_success (hs_status resp)
               then Inl (classify_elevenlabs_error (hs_status resp) None (Some (case hs_text resp of Some s \<Rightarrow> s | None \<Rightarrow> [])))
               else (case answer_json env resp of
                 Inl e \<Rightarrow> Inl (NetworkError (''decode voices/add: '' @ e))
               | Inr vid \<Rightarrow> Inr vid)))
     | _ \<Rightarrow> Inl (elevenlabs_error_into (ElBadRequest ''clone_voice requires AudioPayload::Bytes; resolve Path/Url to bytes first''))))"

section \<open>ElevenLabs over a WebSocket\<close>

text \<open>The opening: connection, the first message with the text, the flush message.\<close>

definition open_speech_ws :: "el_http \<Rightarrow> el_ws_env \<Rightarrow> elevenlabs_config \<Rightarrow> string \<Rightarrow> speech_batch \<Rightarrow> unit inference_result" where
  "open_speech_ws env ws cfg token b = (case resolve_voice_id cfg (sb_voice b) of
     Inl e \<Rightarrow> Inl e
   | Inr voice \<Rightarrow> (case url_join env (el_ws_endpoint cfg) (''text-to-speech/'' @ voice @ ''/stream-input'') of
       Inl e \<Rightarrow> Inl (Internal (''elevenlabs ws url: '' @ e))
     | Inr url \<Rightarrow> (case elevenlabs_output_format (so_format (sb_options b)) of
         Inl e \<Rightarrow> Inl e
       | Inr fmt \<Rightarrow> (case ew_connect ws (append_pair env url ''output_format'' fmt) (el_ws_connect_timeout cfg) of
           Inl e \<Rightarrow> Inl (NetworkError (''ws connect: '' @ e))
         | Inr _ \<Rightarrow> (case ew_to_json ws (WsInit (if sb_text b = [] then '' '' else sb_text b) (sb_model b) token (voice_settings_from_batch b)) of
             Inl e \<Rightarrow> Inl (Internal (''encode ws init: '' @ e))
           | Inr init \<Rightarrow> (case ew_send ws 0 (frame.Text init) of
               Inl e \<Rightarrow> Inl (NetworkError (''ws init send: '' @ e))
             | Inr _ \<Rightarrow> (case ew_to_json ws (WsText [] (Some True)) of
                 Inl e \<Rightarrow> Inl (Internal (''encode ws flush: '' @ e))
               | Inr fl \<Rightarrow> (case ew_send ws 1 (frame.Text fl) of
                   Inl e \<Rightarrow> Inl (NetworkError (''ws flush send: '' @ e))
                 | Inr _ \<Rightarrow> Inr ()))))))))"

definition el_audio_bytes :: "el_ws_env \<Rightarrow> ws_inbound \<Rightarrow> string + u8 list" where
  "el_audio_bytes ws f = (case wi_audio f of
     Some s \<Rightarrow> if s \<noteq> [] then ew_base64 ws s else Inr [] | None \<Rightarrow> Inr [])"

definition el_final_chunk :: "speech_batch \<Rightarrow> speech_chunk" where
  "el_final_chunk b = \<lparr>sp_request_id = sb_request_id b, sp_is_final = True, audio_pcm_chunk = [],
     sp_params = el_output_params (so_format (sb_options b)), alignment = None, sp_usage = None\<rparr>"

definition el_chunk :: "speech_batch \<Rightarrow> ws_inbound \<Rightarrow> u8 list \<Rightarrow> speech_chunk" where
  "el_chunk b f bytes = \<lparr>sp_request_id = sb_request_id b, sp_is_final = (wi_is_final f = Some True), audio_pcm_chunk = bytes,
     sp_params = el_output_params (so_format (sb_options b)),
     alignment = (if emit_alignment b then map_option ws_alignment_to_delta (wi_alignment f) else None), sp_usage = None\<rparr>"

text \<open>What follows the loop: a last chunk unless one was sent.\<close>

definition el_finish :: "speech_batch \<Rightarrow> (nat \<Rightarrow> bool) \<Rightarrow> bool \<Rightarrow> speech_chunk inference_result list \<Rightarrow> speech_chunk inference_result list" where
  "el_finish b alive sent_final out = (if sent_final then out else snd (rt_send alive (Inr (el_final_chunk b)) out))"

fun el_task :: "el_ws_env \<Rightarrow> speech_batch \<Rightarrow> (nat \<Rightarrow> bool) \<Rightarrow> speech_chunk inference_result list \<Rightarrow> ws_read list \<Rightarrow>
    speech_chunk inference_result list" where
  "el_task ws b alive out [] = out"
| "el_task ws b alive out (Inr (Some (frame.Text t)) # rs) = (case ew_frame_json ws t of
     Inl e \<Rightarrow> el_finish b alive False (snd (rt_send alive (Inl (Internal (''ws frame decode: '' @ e))) out))
   | Inr f \<Rightarrow> (case el_audio_bytes ws f of
       Inl e \<Rightarrow> el_finish b alive False (snd (rt_send alive (Inl (Internal (''ws audio b64: '' @ e))) out))
     | Inr bytes \<Rightarrow>
         if bytes = [] \<and> alignment (el_chunk b f bytes) = None \<and> \<not> sp_is_final (el_chunk b f bytes)
         then el_task ws b alive out rs
         else (case rt_send alive (Inr (el_chunk b f bytes)) out of
           (False, out') \<Rightarrow> el_finish b alive False out'
         | (True, out') \<Rightarrow> if sp_is_final (el_chunk b f bytes) then el_finish b alive True out' else el_task ws b alive out' rs)))"
| "el_task ws b alive out (Inr (Some (Close code reason)) # rs) = el_finish b alive False
     (if code \<noteq> 1000 then snd (rt_send alive (Inl (NetworkError (''ws closed code='' @ show_word code @ '' reason='' @ reason))) out) else out)"
| "el_task ws b alive out (Inr None # rs) = el_finish b alive False out"
| "el_task ws b alive out (Inl e # rs) = el_finish b alive False (snd (rt_send alive (Inl (NetworkError (''ws recv: '' @ e))) out))"
| "el_task ws b alive out (_ # rs) = el_task ws b alive out rs"

definition speak_ws :: "el_http \<Rightarrow> el_ws_env \<Rightarrow> elevenlabs_config \<Rightarrow> string \<Rightarrow> (nat \<Rightarrow> bool) \<Rightarrow> ws_read list \<Rightarrow> speech_batch \<Rightarrow>
    speech_chunk inference_result list inference_result" where
  "speak_ws env ws cfg token alive reads b = (case open_speech_ws env ws cfg token b of
     Inl e \<Rightarrow> Inl e | Inr _ \<Rightarrow> Inr (el_task ws b alive [] reads))"

definition elevenlabs_speak :: "el_http \<Rightarrow> el_ws_env \<Rightarrow> elevenlabs_config \<Rightarrow> string \<Rightarrow> (nat \<Rightarrow> bool) \<Rightarrow> ws_read list \<Rightarrow> speech_batch \<Rightarrow>
    speech_chunk inference_result list inference_result" where
  "elevenlabs_speak env ws cfg token alive reads b =
     (if sb_stream b then speak_ws env ws cfg token alive reads b else speak_https env cfg token b)"

definition el_per_million_chars_usd :: "string \<Rightarrow> f64" where
  "el_per_million_chars_usd m = (if m = ''eleven_multilingual_v2'' then Fin 300 else if m = ''eleven_turbo_v2_5'' then Fin 150
     else if m = ''eleven_flash_v2_5'' then Fin 50 else Fin 0)"

definition el_estimate_usd :: "string \<Rightarrow> u32 \<Rightarrow> f64" where
  "el_estimate_usd m chars = f64_div (f64_mul (el_per_million_chars_usd m) (f64_of_nat (unat chars))) (Fin 1000000)"

section \<open>A whole body in chunks\<close>

lemma slices_simps:
  "offset < length bytes \<Longrightarrow> slices k bytes offset =
     (take (min (offset + max k 1) (length bytes) - offset) (drop offset bytes), length bytes \<le> offset + max k 1) #
     slices k bytes (min (offset + max k 1) (length bytes))"
  "\<not> offset < length bytes \<Longrightarrow> slices k bytes offset = []"
  by (auto simp: slices.simps [of k bytes offset] Let_def)

lemma slices_concat: "concat (map fst (slices k bytes offset)) = drop offset bytes"
proof (induction k bytes offset rule: slices.induct)
  case (1 k bytes offset)
  show ?case
  proof (cases "offset < length bytes")
    case True
    let ?stop = "min (offset + max k 1) (length bytes)"
    have "offset \<le> ?stop" using True by simp
    then have "take (?stop - offset) (drop offset bytes) @ drop ?stop bytes = drop offset bytes"
      by (metis append_take_drop_id drop_drop le_add_diff_inverse2)
    then show ?thesis using "1.IH" [OF True refl] by (simp add: slices_simps(1) [OF True])
  qed (simp add: slices_simps)
qed

lemma slices_sizes: "s \<in> set (slices k bytes offset) \<Longrightarrow> fst s \<noteq> [] \<and> length (fst s) \<le> max k 1"
proof (induction k bytes offset rule: slices.induct)
  case (1 k bytes offset)
  show ?case
  proof (cases "offset < length bytes")
    case True
    let ?stop = "min (offset + max k 1) (length bytes)"
    consider "fst s = take (?stop - offset) (drop offset bytes)" | "s \<in> set (slices k bytes ?stop)"
      using "1.prems" unfolding slices_simps(1) [OF True] by auto
    then show ?thesis
    proof cases
      case 1
      then show ?thesis using True by (auto simp: min_def)
    next
      case 2
      then show ?thesis using "1.IH" [OF True refl] by blast
    qed
  qed (use "1.prems" in \<open>simp add: slices_simps\<close>)
qed

lemma slices_last:
  "offset < length bytes \<Longrightarrow> \<exists>init l. slices k bytes offset = init @ [(l, True)] \<and> (\<forall>s \<in> set init. \<not> snd s)"
proof (induction k bytes offset rule: slices.induct)
  case (1 k bytes offset)
  let ?stop = "min (offset + max k 1) (length bytes)"
  show ?case
  proof (cases "?stop < length bytes")
    case True
    with "1.IH" [OF "1.prems" refl] obtain init l where
      "slices k bytes ?stop = init @ [(l, True)]" "\<forall>s \<in> set init. \<not> snd s" by blast
    then show ?thesis using True "1.prems"
      by (intro exI [of _ "(take (?stop - offset) (drop offset bytes), False) # init"]) (auto simp: slices_simps(1) [of offset])
  next
    case False
    then have "?stop = length bytes" by linarith
    moreover from this have "length bytes \<le> offset + max k 1" by linarith
    ultimately show ?thesis using "1.prems"
      by (intro exI [of _ "[]"] exI [of _ "take (?stop - offset) (drop offset bytes)"]) (simp add: slices_simps)
  qed
qed

text \<open>
  What a caller may expect of an answer that came whole: every chunk belongs to the request and has the same
  parameters, none is longer than the configured size, exactly the last is final, and together they are the body.
\<close>

definition delivers :: "string \<Rightarrow> audio_params \<Rightarrow> nat \<Rightarrow> u8 list \<Rightarrow> speech_chunk inference_result list \<Rightarrow> bool" where
  "delivers rid ps k bytes items \<longleftrightarrow> (\<exists>init l. items = map Inr (init @ [l]) \<and>
     concat (map audio_pcm_chunk (init @ [l])) = bytes \<and> sp_is_final l \<and> list_all (\<lambda>c. \<not> sp_is_final c) init \<and>
     list_all (\<lambda>c. sp_request_id c = rid \<and> sp_params c = ps \<and> length (audio_pcm_chunk c) \<le> max k 1) (init @ [l]))"

lemma speech_chunk_of_sel [simp]:
  "sp_request_id (speech_chunk_of rid ps s) = rid" "sp_is_final (speech_chunk_of rid ps s) = snd s"
  "audio_pcm_chunk (speech_chunk_of rid ps s) = fst s" "sp_params (speech_chunk_of rid ps s) = ps"
  "alignment (speech_chunk_of rid ps s) = None"
  by (simp_all add: speech_chunk_of_def)

lemma rechunk_delivers: "delivers rid ps k bytes (rechunk k rid ps bytes)"
proof (cases "bytes = []")
  case True
  then show ?thesis
    by (auto simp: delivers_def rechunk_def intro!: exI [of _ "[]"] exI [of _ "speech_chunk_of rid ps ([], True)"])
next
  case False
  then obtain init l where s: "slices k bytes 0 = init @ [(l, True)]" "\<forall>s \<in> set init. \<not> snd s"
    using slices_last [of 0 bytes k] by auto
  have "concat (map fst (init @ [(l, True)])) = bytes" using slices_concat [of k bytes 0] by (simp add: s(1))
  moreover have "\<forall>s \<in> set (init @ [(l, True)]). length (fst s) \<le> max k 1"
    using slices_sizes [of _ k bytes 0] unfolding s(1) by blast
  ultimately show ?thesis
    unfolding delivers_def using False s
    by (intro exI [of _ "map (speech_chunk_of rid ps) init"] exI [of _ "speech_chunk_of rid ps (l, True)"])
      (auto simp: rechunk_def list_all_iff comp_def)
qed

section \<open>The ElevenLabs task as an event loop\<close>

text \<open>What the task emits for one read while its receiver listens.\<close>

definition el_emit :: "el_ws_env \<Rightarrow> speech_batch \<Rightarrow> ws_read \<Rightarrow> speech_chunk inference_result list" where
  "el_emit ws b r = (case r of
     Inr (Some (frame.Text t)) \<Rightarrow> (case ew_frame_json ws t of
       Inl e \<Rightarrow> [Inl (Internal (''ws frame decode: '' @ e)), Inr (el_final_chunk b)]
     | Inr f \<Rightarrow> (case el_audio_bytes ws f of
         Inl e \<Rightarrow> [Inl (Internal (''ws audio b64: '' @ e)), Inr (el_final_chunk b)]
       | Inr bytes \<Rightarrow>
           if bytes = [] \<and> alignment (el_chunk b f bytes) = None \<and> \<not> sp_is_final (el_chunk b f bytes) then []
           else [Inr (el_chunk b f bytes)]))
   | Inr (Some (Close code reason)) \<Rightarrow>
       (if code \<noteq> 1000 then [Inl (NetworkError (''ws closed code='' @ show_word code @ '' reason='' @ reason))] else []) @ [Inr (el_final_chunk b)]
   | Inr None \<Rightarrow> [Inr (el_final_chunk b)]
   | Inl e \<Rightarrow> [Inl (NetworkError (''ws recv: '' @ e)), Inr (el_final_chunk b)]
   | _ \<Rightarrow> [])"

definition el_ends :: "el_ws_env \<Rightarrow> ws_read \<Rightarrow> bool" where
  "el_ends ws r = (case r of
     Inr (Some (frame.Text t)) \<Rightarrow> (case ew_frame_json ws t of
       Inl _ \<Rightarrow> True
     | Inr f \<Rightarrow> (case el_audio_bytes ws f of Inl _ \<Rightarrow> True | Inr _ \<Rightarrow> wi_is_final f = Some True))
   | Inr (Some (Close _ _)) \<Rightarrow> True | Inr None \<Rightarrow> True | Inl _ \<Rightarrow> True | _ \<Rightarrow> False)"

lemma el_chunk_final [simp]: "sp_is_final (el_chunk b f bytes) \<longleftrightarrow> wi_is_final f = Some True"
  by (simp add: el_chunk_def)

lemma el_final_chunk_final [simp]: "sp_is_final (el_final_chunk b)"
  by (simp add: el_final_chunk_def)

lemma el_step:
  "el_task ws b (\<lambda>_. True) out (r # rs) =
     (if el_ends ws r then out @ el_emit ws b r else el_task ws b (\<lambda>_. True) (out @ el_emit ws b r) rs)"
  by (cases "(ws, b, (\<lambda>_. True) :: nat \<Rightarrow> bool, out, r # rs)" rule: el_task.cases)
    (auto simp: el_ends_def el_emit_def el_finish_def split: sum.splits)

lemma el_acc: "el_task ws b (\<lambda>_. True) out rs = out @ el_task ws b (\<lambda>_. True) [] rs"
proof (induction rs arbitrary: out)
  case (Cons r rs)
  show ?case
    unfolding el_step by (simp add: Cons.IH [of "out @ el_emit ws b r"] Cons.IH [of "el_emit ws b r"])
qed simp

interpretation el_down: event_loop "el_task ws b (\<lambda>_. True) []" "el_emit ws b" "el_ends ws"
  for ws :: el_ws_env and b :: speech_batch
proof
  fix e es
  show "el_task ws b (\<lambda>_. True) [] (e # es) = el_emit ws b e @ (if el_ends ws e then [] else el_task ws b (\<lambda>_. True) [] es)"
    using el_acc [of ws b "el_emit ws b e" es] by (simp add: el_step)
qed simp

text \<open>The audio a read carries.\<close>

definition read_audio :: "el_ws_env \<Rightarrow> ws_read \<Rightarrow> u8 list" where
  "read_audio ws r = (case r of
     Inr (Some (frame.Text t)) \<Rightarrow> (case ew_frame_json ws t of
       Inl _ \<Rightarrow> [] | Inr f \<Rightarrow> (case el_audio_bytes ws f of Inl _ \<Rightarrow> [] | Inr bytes \<Rightarrow> bytes))
   | _ \<Rightarrow> [])"

fun item_audio :: "speech_chunk inference_result \<Rightarrow> u8 list" where
  "item_audio (Inr c) = audio_pcm_chunk c"
| "item_audio (Inl _) = []"

fun item_final :: "speech_chunk inference_result \<Rightarrow> bool" where
  "item_final (Inr c) = sp_is_final c"
| "item_final (Inl _) = False"

lemma el_chunk_audio [simp]: "audio_pcm_chunk (el_chunk b f bytes) = bytes" "audio_pcm_chunk (el_final_chunk b) = []"
  by (simp_all add: el_chunk_def el_final_chunk_def)

text \<open>The kinds of reads: a frame that cannot be decoded, one whose audio cannot, one with data, and frames without text.\<close>

lemma el_read_cases:
  obtains (undecodable) t e where "r = Inr (Some (frame.Text t))" "ew_frame_json ws t = Inl e"
  | (bad_audio) t f e where "r = Inr (Some (frame.Text t))" "ew_frame_json ws t = Inr f" "el_audio_bytes ws f = Inl e"
  | (data) t f bytes where "r = Inr (Some (frame.Text t))" "ew_frame_json ws t = Inr f" "el_audio_bytes ws f = Inr bytes"
  | (no_text) "\<nexists>t. r = Inr (Some (frame.Text t))"
  by (metis sum.exhaust)

lemma el_data:
  assumes "\<not> el_ends ws r"
  shows "concat (map item_audio (el_emit ws b r)) = read_audio ws r \<and> \<not> list_ex item_final (el_emit ws b r) \<and> \<not> list_ex isl (el_emit ws b r)"
  using assms
  by (cases r rule: el_read_cases [of _ ws])
    (auto simp: el_ends_def el_emit_def read_audio_def split: sum.splits option.splits frame.splits)

lemma el_last:
  assumes "el_ends ws r"
  shows "\<exists>err c. el_emit ws b r = err @ [Inr c] \<and> list_all isl err \<and> length err \<le> 1 \<and> sp_is_final c \<and>
    audio_pcm_chunk c = read_audio ws r"
  using assms
  by (cases r rule: el_read_cases [of _ ws])
    (auto simp: el_ends_def el_emit_def read_audio_def split: sum.splits option.splits frame.splits)

section \<open>Well-formed chunks\<close>

lemma saturating_add_ge: "(x :: 'a::len word) \<le> saturating_add x y"
proof -
  have "unat x < 2 ^ LENGTH('a)" by (rule unsigned_less)
  then show ?thesis unfolding word_le_nat_alt unat_saturating_add by linarith
qed

lemma alignment_words_valid: "list_all timing_valid (ad_words (ws_alignment_to_delta a))"
  by (simp add: ws_alignment_to_delta_def Let_def list_all_iff timing_valid_def saturating_add_ge)

definition well_formed_chunk :: "string \<Rightarrow> audio_format \<Rightarrow> speech_chunk \<Rightarrow> bool" where
  "well_formed_chunk rid f c \<longleftrightarrow> sp_request_id c = rid \<and> params_valid (sp_params c) \<and> ap_format (sp_params c) = f \<and>
     (case alignment c of None \<Rightarrow> True | Some d \<Rightarrow> list_all timing_valid (ad_words d) \<and> visemes d = [])"

lemma output_params_valid:
  "params_valid (el_output_params f)" "ap_format (el_output_params f) = (case f of Some g \<Rightarrow> g | None \<Rightarrow> Mp3)"
  "params_valid (tts_output_params f)" "ap_format (tts_output_params f) = (case f of Some g \<Rightarrow> g | None \<Rightarrow> Pcm16Le)"
  by (simp_all add: el_output_params_def tts_output_params_def params_valid_def new_audio_params_def Let_def)

lemma el_items:
  "x \<in> set (el_task ws b alive out rs) \<Longrightarrow>
     x \<in> set out \<or> isl x \<or> x = Inr (el_final_chunk b) \<or> (\<exists>f bytes. x = Inr (el_chunk b f bytes))"
proof (induction ws b alive out rs rule: el_task.induct)
  case (2 ws b alive out t rs)
  show ?case
  proof (cases "Inr (Some (frame.Text t)) :: ws_read" rule: el_read_cases [of _ ws])
    case (data t' f bytes)
    then have d: "ew_frame_json ws t = Inr f" "el_audio_bytes ws f = Inr bytes" by simp_all
    show ?thesis using "2.IH" [OF d] "2.prems" d
      by (auto simp: rt_send_def el_finish_def split: if_splits) blast
  qed (use "2.prems" in \<open>auto simp: rt_send_def el_finish_def split: if_splits\<close>)
qed (auto simp: rt_send_def el_finish_def split: if_splits)

lemma well_formed_el_chunk:
  "well_formed_chunk (sb_request_id b) (case so_format (sb_options b) of Some g \<Rightarrow> g | None \<Rightarrow> Mp3) (el_final_chunk b)"
  "well_formed_chunk (sb_request_id b) (case so_format (sb_options b) of Some g \<Rightarrow> g | None \<Rightarrow> Mp3) (el_chunk b f bytes)"
  by (simp_all add: well_formed_chunk_def el_final_chunk_def el_chunk_def output_params_valid alignment_words_valid
      ws_alignment_to_delta_def Let_def split: option.split)
    (use alignment_words_valid in \<open>simp add: ws_alignment_to_delta_def Let_def\<close>)

lemma well_formed_rechunk:
  "Inr c \<in> set (rechunk k rid ps bytes) \<Longrightarrow> params_valid ps \<Longrightarrow> well_formed_chunk rid (ap_format ps) c"
  by (auto simp: rechunk_def well_formed_chunk_def split: if_splits)

text \<open>What a successful call has done, read off the branches.\<close>

lemma tts_speak_ok:
  assumes "tts_speak env show_format r token b = Inr items"
  obtains hs fmt resp bytes where
    "send env \<lparr>rq_url = tr_speech_url r, rq_headers = hs, rq_body = tts_request_from_batch b fmt\<rparr> = Inr resp"
    "is_success (hs_status resp)" "answer_json env resp = Inr bytes"
    "items = rechunk (unat (tts_chunk_bytes (tr_config r))) (sb_request_id b) (tts_output_params (so_format (sb_options b))) bytes"
  using assms by (auto simp: tts_speak_def split: sum.splits if_splits)

lemma speak_https_ok:
  assumes "speak_https env cfg token b = Inr items"
  obtains req resp bytes where "send env req = Inr resp" "rq_body req = \<lparr>eq_model_id = sb_model b, eq_text = sb_text b, eq_voice_settings = voice_settings_from_batch b\<rparr>"
    "is_success (hs_status resp)" "answer_json env resp = Inr bytes"
    "items = rechunk (unat (el_chunk_bytes cfg)) (sb_request_id b) (el_output_params (so_format (sb_options b))) bytes"
  using assms by (auto simp: speak_https_def split: sum.splits if_splits)

section \<open>Properties\<close>

text \<open>A synthesised body arrives whole.  When a one-shot call to OpenAI or ElevenLabs succeeds, the provider answered
  with a success status and a readable body, and the chunks handed out are exactly that body: in order, none
  longer than the configured size (which may even be zero), all of this request and of the announced
  parameters, the last and only the last one final, also for an empty body.\<close>

theorem speech_body_rechunked:
  "(tts_speak env show_format r token b = Inr items \<longrightarrow>
     (\<exists>req resp bytes. send env req = Inr resp \<and> is_success (hs_status resp) \<and> answer_json env resp = Inr bytes \<and>
       delivers (sb_request_id b) (tts_output_params (so_format (sb_options b))) (unat (tts_chunk_bytes (tr_config r))) bytes items)) \<and>
   (speak_https env' cfg token' b' = Inr items' \<longrightarrow>
     (\<exists>req resp bytes. send env' req = Inr resp \<and> is_success (hs_status resp) \<and> answer_json env' resp = Inr bytes \<and>
       delivers (sb_request_id b') (el_output_params (so_format (sb_options b'))) (unat (el_chunk_bytes cfg)) bytes items'))"
  by (auto elim!: tts_speak_ok speak_https_ok) (use rechunk_delivers in blast)+

definition demo_speech_batch :: speech_batch where
  "demo_speech_batch = \<lparr>sb_request_id = ''r'', sb_model = ''m'', sb_text = ''hi'', sb_voice = Named ''alloy'', sb_options = default_synth_options,
     sb_stream = True, emit_alignment = True, estimated_characters = 2\<rparr>"

definition demo_speech_http :: "('q, unit, u8 list, 'e) http_env" where
  "demo_speech_http = \<lparr>send = (\<lambda>_. Inr \<lparr>hs_status = 200, hs_retry_after = None, hs_text = None, hs_bytes = []\<rparr>),
     eventsource = (\<lambda>_. []), event_json = (\<lambda>_. Inr ()), answer_json = (\<lambda>_. Inr [1, 2, 3]), error_json = (\<lambda>_. None), lower = (\<lambda>s. s),
     rfc2822 = (\<lambda>_. None), unix_now = 0, header_value = Inr, url_join = (\<lambda>a b. Inr (a @ b)), url_parse = Inr, append_pair = (\<lambda>u k v. u)\<rparr>"

definition demo_speech_ws :: el_ws_env where
  "demo_speech_ws = \<lparr>ew_connect = (\<lambda>_ _. Inr ()), ew_to_json = (\<lambda>_. Inr ''{}''), ew_send = (\<lambda>_ _. Inr ()),
     ew_frame_json = (\<lambda>s. Inr \<lparr>wi_audio = Some s, wi_alignment = Some \<lparr>wa_chars = [s], char_start_times_ms = [4294967295], char_durations_ms = [7]\<rparr>,
       wi_is_final = (if s = ''z'' then Some True else None)\<rparr>),
     ew_base64 = (\<lambda>s. Inr (map (\<lambda>c. of_nat (of_char c)) s))\<rparr>"

theorem speech_body_rechunked_witness:
  "\<exists>items. tts_speak demo_speech_http (\<lambda>_. []) \<lparr>tr_config = defaults_for_openai_tts\<lparr>tts_chunk_bytes := 2\<rparr>, tr_speech_url = ''u''\<rparr> ''k'' demo_speech_batch = Inr items \<and>
     delivers ''r'' (new_audio_params 24000 1 Pcm16Le) 2 [1, 2, 3] items"
proof -
  let ?r = "\<lparr>tr_config = defaults_for_openai_tts\<lparr>tts_chunk_bytes := 2\<rparr>, tr_speech_url = ''u''\<rparr>"
  obtain items where i: "tts_speak demo_speech_http (\<lambda>_. []) ?r ''k'' demo_speech_batch = Inr items"
    by (simp add: tts_speak_def tts_response_format_def tts_auth_headers_def opt_header_def is_success_def demo_speech_http_def
        demo_speech_batch_def default_synth_options_def defaults_for_openai_tts_def)
  then have "delivers ''r'' (new_audio_params 24000 1 Pcm16Le) 2 [1, 2, 3] items"
    using speech_body_rechunked [of demo_speech_http "\<lambda>_. []" ?r "''k''" demo_speech_batch items undefined]
    by (auto simp: demo_speech_http_def demo_speech_batch_def default_synth_options_def tts_output_params_def)
  with i show ?thesis by blast
qed

text \<open>C35: every chunk an ElevenLabs call hands out, in either mode and wherever the caller stops listening, is
  well-formed: it carries the request's id, parameters within the limits of \<^verbatim>\<open>AudioParams::is_valid\<close> and of the
  requested format, and only valid timings (no word ends before it starts, although starts and durations
  come from the network and may overflow).\<close>

theorem elevenlabs_chunks_well_formed:
  assumes "elevenlabs_speak env ws cfg token alive reads b = Inr items" and "Inr c \<in> set items"
  shows "well_formed_chunk (sb_request_id b) (case so_format (sb_options b) of Some g \<Rightarrow> g | None \<Rightarrow> Mp3) c"
proof (cases "sb_stream b")
  case True
  then have "items = el_task ws b alive [] reads"
    using assms(1) by (auto simp: elevenlabs_speak_def speak_ws_def split: sum.splits)
  then show ?thesis using el_items [of "Inr c" ws b alive "[]" reads] assms(2) well_formed_el_chunk by auto
next
  case False
  then have "speak_https env cfg token b = Inr items" using assms(1) by (simp add: elevenlabs_speak_def)
  then show ?thesis using assms(2) output_params_valid well_formed_rechunk by (elim speak_https_ok) metis
qed

theorem elevenlabs_chunks_well_formed_witness:
  "well_formed_chunk ''r'' Mp3 (el_chunk demo_speech_batch \<lparr>wi_audio = Some ''a'',
     wi_alignment = Some \<lparr>wa_chars = [''a''], char_start_times_ms = [4294967295], char_durations_ms = [7]\<rparr>, wi_is_final = None\<rparr> [97])"
proof -
  let ?f = "\<lparr>wi_audio = Some ''a'', wi_alignment = Some \<lparr>wa_chars = [''a''], char_start_times_ms = [4294967295], char_durations_ms = [7]\<rparr>, wi_is_final = None\<rparr>"
  have "elevenlabs_speak demo_speech_http demo_speech_ws defaults_for_elevenlabs ''k'' (\<lambda>_. True) [Inr (Some (frame.Text ''a''))] demo_speech_batch
      = Inr [Inr (el_chunk demo_speech_batch ?f [97])]"
    by (simp add: elevenlabs_speak_def speak_ws_def open_speech_ws_def resolve_voice_id_def elevenlabs_output_format_def el_audio_bytes_def
        demo_speech_http_def demo_speech_ws_def demo_speech_batch_def default_synth_options_def defaults_for_elevenlabs_def)
  from elevenlabs_chunks_well_formed [OF this, of "el_chunk demo_speech_batch ?f [97]"] show ?thesis
    by (simp add: demo_speech_batch_def default_synth_options_def)
qed

text \<open>A streamed ElevenLabs answer is terminated.  For any frames up to the one that ends the session, a listening
  caller receives the decoded audio in order, at most one error, and then exactly one final chunk as the
  last item: a lost connection, an abnormal close and an undecodable frame are reported before it.\<close>

theorem elevenlabs_stream_terminated:
  assumes "\<not> list_ex (el_ends ws) xs" and "el_ends ws e"
  shows "\<exists>body err c. el_task ws b (\<lambda>_. True) [] (xs @ e # ys) = body @ err @ [Inr c] \<and> sp_is_final c \<and>
    \<not> list_ex item_final (body @ err) \<and> \<not> list_ex isl body \<and> list_all isl err \<and> length err \<le> 1 \<and>
    concat (map item_audio (body @ [Inr c])) = concat (map (read_audio ws) (xs @ [e]))"
proof -
  obtain err c where ec: "el_emit ws b e = err @ [Inr c]" "list_all isl err" "length err \<le> 1" "sp_is_final c"
    "audio_pcm_chunk c = read_audio ws e" using el_last [OF assms(2)] by blast
  let ?body = "concat (map (el_emit ws b) xs)"
  have "concat (map item_audio ?body) = concat (map (read_audio ws) xs) \<and> \<not> list_ex item_final ?body \<and> \<not> list_ex isl ?body"
    using assms(1) by (induction xs) (auto simp: el_data)
  moreover have "\<not> list_ex item_final err" using ec(2) by (induction err) (auto simp: isl_def)
  moreover have "el_task ws b (\<lambda>_. True) [] (xs @ e # ys) = ?body @ err @ [Inr c]"
    using el_down.run_until [OF assms] ec(1) by simp
  ultimately show ?thesis using ec(2-5) by (intro exI [of _ ?body] exI [of _ err] exI [of _ c]) simp
qed

theorem elevenlabs_stream_terminated_witness:
  "\<exists>body err c. el_task demo_speech_ws demo_speech_batch (\<lambda>_. True) [] ([Inr (Some (frame.Text ''ab''))] @ Inl ''reset'' # [Inr None]) = body @ err @ [Inr c] \<and>
     sp_is_final c \<and> list_all isl err \<and> concat (map item_audio (body @ [Inr c])) = [97, 98]"
proof -
  have "\<not> list_ex (el_ends demo_speech_ws) [Inr (Some (frame.Text ''ab''))]" "el_ends demo_speech_ws (Inl ''reset'')"
    "concat (map (read_audio demo_speech_ws) ([Inr (Some (frame.Text ''ab''))] @ [Inl ''reset''])) = [97, 98]"
    by (simp_all add: el_ends_def read_audio_def el_audio_bytes_def demo_speech_ws_def)
  with elevenlabs_stream_terminated [of demo_speech_ws] show ?thesis by metis
qed

end
