(* ===== verification/Transcription.thy ===== *)
theory Transcription
  imports Speech_Synthesis
begin

text \<open>
  The remote speech-to-text runners: \<^verbatim>\<open>inference-runtime-deepgram\<close> and \<^verbatim>\<open>inference-runtime-assemblyai\<close>, which stream audio
  into a WebSocket and collect transcripts from it, and \<^verbatim>\<open>inference-runtime-openai-stt\<close>, which uploads a file.
  Connection, JSON, URL library and file system are fields of environments; a streamed input is the list of
  pieces its channel yields.  The two WebSocket runners interpret one locale, \<open>transcript_task\<close>.
\<close>

section \<open>Opening the input\<close>

record stt_env =
  sv_url_join :: "string \<Rightarrow> string \<Rightarrow> string + string"
  sv_append_pair :: "string \<Rightarrow> string \<Rightarrow> string \<Rightarrow> string"
  sv_connect :: "string \<Rightarrow> (string \<times> string) list \<Rightarrow> duration \<Rightarrow> string + unit"
  sv_read_file :: "string \<Rightarrow> string + u8 list"
  sv_show_format :: "audio_format \<Rightarrow> string"
  sv_marker_json :: "string option"

text \<open>\<^verbatim>\<open>who\<close> is the crate's prefix of its messages; the two crates have the same two functions.\<close>

definition materialize_payload :: "stt_env \<Rightarrow> string \<Rightarrow> audio_payload \<Rightarrow> (u8 list \<times> audio_params) inference_result" where
  "materialize_payload env who payload = (case payload of
     Bytes d ps \<Rightarrow> Inr (d, ps)
   | Path f ps \<Rightarrow> (case sv_read_file env f of
       Inl e \<Rightarrow> Inl (BadRequest (who @ '': read '' @ f @ '': '' @ e)) | Inr d \<Rightarrow> Inr (d, ps))
   | Url _ _ \<Rightarrow> Inl (Unsupported ''execute_audio: URL audio payloads (use Stream or Bytes)'' runtime_kind.SpeechToText))"

definition open_audio_input :: "stt_env \<Rightarrow> string \<Rightarrow> u8 list list audio_input \<Rightarrow> (audio_params \<times> u8 list list) inference_result" where
  "open_audio_input env who i = (case i of
     Static payload \<Rightarrow> (case materialize_payload env who payload of
       Inl e \<Rightarrow> Inl e | Inr (bytes, ps) \<Rightarrow> Inr (ps, map fst (slices 4096 bytes 0)))
   | Stream ps rx \<Rightarrow> Inr (ps, rx))"

section \<open>The uplink\<close>

text \<open>\<^verbatim>\<open>{"type":"..."}\<close>, the text sent when the marker cannot be serialised.\<close>

definition type_marker :: "string \<Rightarrow> string" where
  "type_marker name = (let q = [CHR 0x22] in ''{'' @ q @ ''type'' @ q @ '':'' @ q @ name @ q @ ''}'')"

text \<open>\<open>fails n\<close> is the error of the send after \<open>n\<close> frames, if it fails.  Empty pieces are skipped; an error is reported
  to the caller and ends the task; otherwise the marker follows the audio.\<close>

fun pump_audio :: "string \<Rightarrow> string \<Rightarrow> (nat \<Rightarrow> string option) \<Rightarrow> frame list \<Rightarrow> u8 list list \<Rightarrow> frame list \<times> inference_error option" where
  "pump_audio who marker fails out [] = (if fails (length out) = None then out @ [frame.Text marker] else out, None)"
| "pump_audio who marker fails out (c # cs) =
     (if c = [] then pump_audio who marker fails out cs
      else (case fails (length out) of
        Some e \<Rightarrow> (out, Some (NetworkError (who @ '' ws send: '' @ e)))
      | None \<Rightarrow> pump_audio who marker fails (out @ [Binary c]) cs))"

section \<open>The end of a transcript\<close>

definition empty_terminal :: "string \<Rightarrow> transcript_chunk" where
  "empty_terminal rid = \<lparr>tr_request_id = rid, tr_is_final = True, tr_text = [], tr_start_ms = 0, tr_end_ms = 0, speaker_id = None,
     tr_words = [], tr_usage = None\<rparr>"

definition promote_last :: "string \<Rightarrow> transcript_chunk list \<Rightarrow> transcript_chunk list" where
  "promote_last rid produced = (if produced = [] then [empty_terminal rid]
     else butlast produced @ [(last produced)\<lparr>tr_is_final := True\<rparr>])"

definition normal_close :: "u16 \<Rightarrow> bool" where
  "normal_close code \<longleftrightarrow> code = 1000 \<or> code = 1005 \<or> code = 1006"

section \<open>Deepgram\<close>

datatype deepgram_error = DgFeatureDisabled | DgUnsupported string | DgBadRequest string | DgUnsupportedFormat string

fun deepgram_error_into :: "deepgram_error \<Rightarrow> inference_error" where
  "deepgram_error_into DgFeatureDisabled = Internal ''stt-deepgram feature disabled at build time''"
| "deepgram_error_into (DgUnsupported m) = Unsupported m runtime_kind.SpeechToText"
| "deepgram_error_into (DgBadRequest m) = BadRequest m"
| "deepgram_error_into (DgUnsupportedFormat m) = UnsupportedAudioFormat m"

record deepgram_config =
  dg_ws_endpoint :: string
  dg_ws_connect_timeout :: duration
  smart_format :: bool

definition defaults_for_deepgram :: deepgram_config where
  "defaults_for_deepgram = \<lparr>dg_ws_endpoint = ''wss://api.deepgram.com/v1/'', dg_ws_connect_timeout = from_secs 5, smart_format = False\<rparr>"

record deepgram_word =
  dw_word :: string
  punctuated_word :: "string option"
  dw_start :: f32
  dw_end :: f32
  dw_confidence :: "f32 option"
  dw_speaker :: "u32 option"

record transcript_alternative =
  ta_transcript :: string
  ta_confidence :: "f32 option"
  ta_words :: "deepgram_word list"

record results_envelope =
  re_start :: f32
  re_duration :: f32
  re_is_final :: bool
  speech_final :: bool
  alternatives :: "transcript_alternative list"

datatype deepgram_inbound = Results results_envelope | Metadata | OtherEnvelope

definition deepgram_encoding :: "audio_format \<Rightarrow> string inference_result" where
  "deepgram_encoding f = (case f of
     Pcm16Le \<Rightarrow> Inr ''linear16'' | PcmF32Le \<Rightarrow> Inr ''linear32'' | OggOpus \<Rightarrow> Inr ''opus''
   | Flac \<Rightarrow> Inr ''flac'' | Mp3 \<Rightarrow> Inr ''mp3'' | Wav \<Rightarrow> Inr ''wav''
   | Pcm24Le \<Rightarrow> Inl (deepgram_error_into (DgUnsupportedFormat ''Deepgram does not accept 24-bit PCM directly; resample to 16-bit'')))"

definition seconds_to_ms :: "f32 \<Rightarrow> u32" where
  "seconds_to_ms s = of_nat (fp_to_uint 32 (fp_max (f32_mul s (Fin 1000)) (Fin 0)))"

fun first_speaker :: "deepgram_word list \<Rightarrow> string option" where
  "first_speaker [] = None"
| "first_speaker (w # ws) = (case dw_speaker w of Some n \<Rightarrow> Some (show_word n) | None \<Rightarrow> first_speaker ws)"

definition deepgram_word_timing :: "deepgram_word \<Rightarrow> word_timing" where
  "deepgram_word_timing w = \<lparr>wt_text = (case punctuated_word w of Some p \<Rightarrow> p | None \<Rightarrow> dw_word w),
     wt_start_ms = seconds_to_ms (dw_start w), wt_end_ms = seconds_to_ms (dw_end w), confidence = dw_confidence w\<rparr>"

definition results_to_chunk :: "string \<Rightarrow> results_envelope \<Rightarrow> bool \<Rightarrow> bool \<Rightarrow> transcript_chunk" where
  "results_to_chunk rid r want_diarize want_words =
     (let alt = (case alternatives r of a # _ \<Rightarrow> a | [] \<Rightarrow> \<lparr>ta_transcript = [], ta_confidence = None, ta_words = []\<rparr>)
      in \<lparr>tr_request_id = rid, tr_is_final = speech_final r, tr_text = ta_transcript alt,
          tr_start_ms = seconds_to_ms (re_start r), tr_end_ms = seconds_to_ms (f32_add (re_start r) (re_duration r)),
          speaker_id = (if want_diarize then first_speaker (ta_words alt) else None),
          tr_words = (if want_words then map deepgram_word_timing (ta_words alt) else []), tr_usage = None\<rparr>)"

definition deepgram_query :: "deepgram_config \<Rightarrow> string \<Rightarrow> string \<Rightarrow> audio_params \<Rightarrow> transcribe_options \<Rightarrow> (string \<times> string) list" where
  "deepgram_query cfg m encoding ps opts =
     [(''model'', m), (''encoding'', encoding), (''sample_rate'', show_word (sample_rate_hz ps)), (''channels'', show_word (channels ps)),
      (''interim_results'', if interim_results opts then ''true'' else ''false'')] @
     (if diarize opts then [(''diarize'', ''true'')] else []) @
     (if smart_format cfg then [(''smart_format'', ''true'')] else []) @
     (case to_language opts of Some l \<Rightarrow> [(''language'', l)] | None \<Rightarrow> []) @
     [(''endpointing'', ''300'')]"

text \<open>The downlink: \<open>opts\<close> are the caller's, \<open>json\<close> decodes an envelope, \<open>last_idx\<close> and \<open>produced\<close> are the task's variables.\<close>

definition deepgram_finish :: "string \<Rightarrow> (nat \<Rightarrow> bool) \<Rightarrow> transcript_chunk inference_result list \<Rightarrow> u64 option \<Rightarrow> transcript_chunk list \<Rightarrow>
    transcript_chunk inference_result list" where
  "deepgram_finish rid alive out last_idx produced =
     snd (send_all alive out (map Inr (if last_idx = None then promote_last rid produced else produced)))"

fun deepgram_downlink :: "(string \<Rightarrow> string + deepgram_inbound) \<Rightarrow> string \<Rightarrow> transcribe_options \<Rightarrow> (nat \<Rightarrow> bool) \<Rightarrow> u64 option \<Rightarrow>
    transcript_chunk list \<Rightarrow> ws_read list \<Rightarrow> transcript_chunk inference_result list" where
  "deepgram_downlink json rid opts alive last_idx produced [] = []"
| "deepgram_downlink json rid opts alive last_idx produced (Inr (Some (frame.Text t)) # rs) = (case json t of
     Inl e \<Rightarrow> deepgram_finish rid alive (snd (rt_send alive (Inl (Internal (''deepgram envelope decode: '' @ e))) [])) last_idx produced
   | Inr (Results r) \<Rightarrow>
       if \<not> interim_results opts \<and> \<not> re_is_final r then deepgram_downlink json rid opts alive last_idx produced rs
       else let chunk = results_to_chunk rid r (diarize opts) (word_timestamps opts)
            in deepgram_downlink json rid opts alive (if tr_is_final chunk then Some (u64_of_nat (length produced)) else last_idx)
                 (produced @ [chunk]) rs
   | Inr _ \<Rightarrow> deepgram_downlink json rid opts alive last_idx produced rs)"
| "deepgram_downlink json rid opts alive last_idx produced (Inr (Some (Close code reason)) # rs) =
     (if \<not> normal_close code
      then snd (rt_send alive (Inl (NetworkError (''deepgram closed code='' @ show_word code @ '' reason='' @ reason))) [])
      else deepgram_finish rid alive [] last_idx produced)"
| "deepgram_downlink json rid opts alive last_idx produced (Inr None # rs) = deepgram_finish rid alive [] last_idx produced"
| "deepgram_downlink json rid opts alive last_idx produced (Inl e # rs) =
     snd (rt_send alive (Inl (NetworkError (''deepgram ws recv: '' @ e))) [])"
| "deepgram_downlink json rid opts alive last_idx produced (_ # rs) = deepgram_downlink json rid opts alive last_idx produced rs"

definition deepgram_marker :: "stt_env \<Rightarrow> string" where
  "deepgram_marker env = (case sv_marker_json env of Some s \<Rightarrow> s | None \<Rightarrow> type_marker ''CloseStream'')"

text \<open>The call: what the uplink sends and what the downlink hands to the caller.\<close>

definition deepgram_execute :: "stt_env \<Rightarrow> (string \<Rightarrow> string + deepgram_inbound) \<Rightarrow> deepgram_config \<Rightarrow> string \<Rightarrow> (nat \<Rightarrow> string option) \<Rightarrow>
    (nat \<Rightarrow> bool) \<Rightarrow> ws_read list \<Rightarrow> u8 list list audio_batch \<Rightarrow>
    ((frame list \<times> inference_error option) \<times> transcript_chunk inference_result list) inference_result" where
  "deepgram_execute env json cfg token fails alive reads b = (case ab_options b of
     Audio2Face _ \<Rightarrow> Inl (deepgram_error_into (DgBadRequest ''deepgram: AudioOptions::Audio2Face is not supported''))
   | Transcribe opts \<Rightarrow> (case open_audio_input env ''deepgram'' (ab_input b) of
       Inl e \<Rightarrow> Inl e
     | Inr (ps, pieces) \<Rightarrow> (case deepgram_encoding (ap_format ps) of
         Inl e \<Rightarrow> Inl e
       | Inr encoding \<Rightarrow> (case sv_url_join env (dg_ws_endpoint cfg) ''listen'' of
           Inl e \<Rightarrow> Inl (Internal (''deepgram listen url: '' @ e))
         | Inr url \<Rightarrow> (case sv_connect env (foldl (\<lambda>u (k, v). sv_append_pair env u k v) url (deepgram_query cfg (ab_model b) encoding ps opts))
                [(''Authorization'', ''Token '' @ token)] (dg_ws_connect_timeout cfg) of
             Inl e \<Rightarrow> Inl (NetworkError (''deepgram ws connect: '' @ e))
           | Inr _ \<Rightarrow> Inr (pump_audio ''deepgram'' (deepgram_marker env) fails [] pieces,
               deepgram_downlink json (ab_request_id b) opts alive None [] reads))))))"

definition deepgram_per_minute_usd :: "string \<Rightarrow> f64" where
  "deepgram_per_minute_usd m = (if m = ''nova-2'' \<or> m = ''nova-2-general'' then f64_of_rat (43 / 10000)
     else if m = ''nova-2-phonecall'' then f64_of_rat (58 / 10000) else if m = ''nova-2-meeting'' then f64_of_rat (58 / 10000)
     else if m = ''nova'' then f64_of_rat (125 / 10000) else if m = ''enhanced'' then f64_of_rat (145 / 10000)
     else if m = ''base'' then f64_of_rat (125 / 10000) else Fin 0)"

definition deepgram_estimate_usd :: "string \<Rightarrow> u32 \<Rightarrow> f64" where
  "deepgram_estimate_usd m secs = f64_div (f64_mul (deepgram_per_minute_usd m) (f64_of_nat (unat secs))) (Fin 60)"

section \<open>AssemblyAI\<close>

datatype assemblyai_error = AaFeatureDisabled | AaUnsupported string | AaBadRequest string | AaUnsupportedFormat string

fun assemblyai_error_into :: "assemblyai_error \<Rightarrow> inference_error" where
  "assemblyai_error_into AaFeatureDisabled = Internal ''stt-assemblyai feature disabled at build time''"
| "assemblyai_error_into (AaUnsupported m) = Unsupported m runtime_kind.SpeechToText"
| "assemblyai_error_into (AaBadRequest m) = BadRequest m"
| "assemblyai_error_into (AaUnsupportedFormat m) = UnsupportedAudioFormat m"

record assemblyai_config =
  aa_ws_endpoint :: string
  aa_ws_connect_timeout :: duration
  format_turns :: bool

definition defaults_for_assemblyai :: assemblyai_config where
  "defaults_for_assemblyai = \<lparr>aa_ws_endpoint = ''wss://streaming.assemblyai.com/'', aa_ws_connect_timeout = from_secs 5, format_turns = False\<rparr>"

record assembly_word =
  aw_text :: string
  aw_start :: u32
  aw_end :: u32
  aw_confidence :: "f32 option"
  word_is_final :: bool

record turn_envelope =
  turn_order :: u32
  turn_is_formatted :: bool
  end_of_turn :: bool
  end_of_turn_confidence :: "f32 option"
  te_transcript :: string
  te_words :: "assembly_word list"

datatype assemblyai_inbound = Begin | Turn turn_envelope | Termination | OtherTurn

definition assert_format_supported :: "stt_env \<Rightarrow> audio_format \<Rightarrow> unit inference_result" where
  "assert_format_supported env f = (if f = Pcm16Le then Inr ()
     else Inl (assemblyai_error_into (AaUnsupportedFormat (''AssemblyAI Streaming v3 only accepts 16-bit PCM mono (got '' @ sv_show_format env f @ ''); resample upstream''))))"

definition turn_to_chunk :: "string \<Rightarrow> turn_envelope \<Rightarrow> bool \<Rightarrow> transcript_chunk" where
  "turn_to_chunk rid t want_words =
     \<lparr>tr_request_id = rid, tr_is_final = end_of_turn t, tr_text = te_transcript t,
      tr_start_ms = (case te_words t of w # _ \<Rightarrow> aw_start w | [] \<Rightarrow> 0),
      tr_end_ms = (if te_words t = [] then 0 else aw_end (last (te_words t))), speaker_id = None,
      tr_words = (if want_words then map (\<lambda>w. \<lparr>wt_text = aw_text w, wt_start_ms = aw_start w, wt_end_ms = aw_end w, confidence = aw_confidence w\<rparr>) (te_words t) else []),
      tr_usage = None\<rparr>"

definition assemblyai_finish :: "string \<Rightarrow> (nat \<Rightarrow> bool) \<Rightarrow> transcript_chunk inference_result list \<Rightarrow> bool \<Rightarrow> transcript_chunk list \<Rightarrow>
    transcript_chunk inference_result list" where
  "assemblyai_finish rid alive out saw_final produced =
     snd (send_all alive out (map Inr (if \<not> saw_final then promote_last rid produced else produced)))"

fun assemblyai_downlink :: "(string \<Rightarrow> string + assemblyai_inbound) \<Rightarrow> string \<Rightarrow> transcribe_options \<Rightarrow> (nat \<Rightarrow> bool) \<Rightarrow> bool \<Rightarrow>
    transcript_chunk list \<Rightarrow> ws_read list \<Rightarrow> transcript_chunk inference_result list" where
  "assemblyai_downlink json rid opts alive saw_final produced [] = []"
| "assemblyai_downlink json rid opts alive saw_final produced (Inr (Some (frame.Text t)) # rs) = (case json t of
     Inl e \<Rightarrow> assemblyai_finish rid alive (snd (rt_send alive (Inl (Internal (''assemblyai envelope decode: '' @ e))) [])) saw_final produced
   | Inr (Turn u) \<Rightarrow>
       if \<not> interim_results opts \<and> \<not> end_of_turn u then assemblyai_downlink json rid opts alive saw_final produced rs
       else let chunk = turn_to_chunk rid u (word_timestamps opts)
            in assemblyai_downlink json rid opts alive (if tr_is_final chunk then True else saw_final) (produced @ [chunk]) rs
   | Inr _ \<Rightarrow> assemblyai_downlink json rid opts alive saw_final produced rs)"
| "assemblyai_downlink json rid opts alive saw_final produced (Inr (Some (Close code reason)) # rs) =
     (if \<not> normal_close code
      then snd (rt_send alive (Inl (NetworkError (''assemblyai closed code='' @ show_word code @ '' reason='' @ reason))) [])
      else assemblyai_finish rid alive [] saw_final produced)"
| "assemblyai_downlink json rid opts alive saw_final produced (Inr None # rs) = assemblyai_finish rid alive [] saw_final produced"
| "assemblyai_downlink json rid opts alive saw_final produced (Inl e # rs) =
     snd (rt_send alive (Inl (NetworkError (''assemblyai ws recv: '' @ e))) [])"
| "assemblyai_downlink json rid opts alive saw_final produced (_ # rs) = assemblyai_downlink json rid opts alive saw_final produced rs"

definition assemblyai_marker :: "stt_env \<Rightarrow> string" where
  "assemblyai_marker env = (case sv_marker_json env of Some s \<Rightarrow> s | None \<Rightarrow> type_marker ''Terminate'')"

definition assemblyai_execute :: "stt_env \<Rightarrow> (string \<Rightarrow> string + assemblyai_inbound) \<Rightarrow> assemblyai_config \<Rightarrow> string \<Rightarrow> (nat \<Rightarrow> string option) \<Rightarrow>
    (nat \<Rightarrow> bool) \<Rightarrow> ws_read list \<Rightarrow> u8 list list audio_batch \<Rightarrow>
    ((frame list \<times> inference_error option) \<times> transcript_chunk inference_result list) inference_result" where
  "assemblyai_execute env json cfg token fails alive reads b = (case ab_options b of
     Audio2Face _ \<Rightarrow> Inl (assemblyai_error_into (AaBadRequest ''assemblyai: AudioOptions::Audio2Face is not supported''))
   | Transcribe opts \<Rightarrow> (case open_audio_input env ''assemblyai'' (ab_input b) of
       Inl e \<Rightarrow> Inl e
     | Inr (ps, pieces) \<Rightarrow> (case assert_format_supported env (ap_format ps) of
         Inl e \<Rightarrow> Inl e
       | Inr _ \<Rightarrow>
         if channels ps \<noteq> 1
         then Inl (assemblyai_error_into (AaUnsupportedFormat (''assemblyai: only mono audio is supported (got '' @ show_word (channels ps) @ '' channels)'')))
         else (case sv_url_join env (aa_ws_endpoint cfg) ''v3/ws'' of
           Inl e \<Rightarrow> Inl (Internal (''assemblyai listen url: '' @ e))
         | Inr url \<Rightarrow> (case sv_connect env (foldl (\<lambda>u (k, v). sv_append_pair env u k v) url
                ((''sample_rate'', show_word (sample_rate_hz ps)) # (if format_turns cfg then [(''format_turns'', ''true'')] else [])))
                [(''Authorization'', token)] (aa_ws_connect_timeout cfg) of
             Inl e \<Rightarrow> Inl (NetworkError (''assemblyai ws connect: '' @ e))
           | Inr _ \<Rightarrow> Inr (pump_audio ''assemblyai'' (assemblyai_marker env) fails [] pieces,
               assemblyai_downlink json (ab_request_id b) opts alive False [] reads))))))"

definition assemblyai_per_hour_usd :: "string \<Rightarrow> f64" where
  "assemblyai_per_hour_usd m = (if m \<in> {''universal'', ''universal-streaming'', ''universal-v3''} then f64_of_rat (15 / 100) else Fin 0)"

definition assemblyai_estimate_usd :: "string \<Rightarrow> u32 \<Rightarrow> f64" where
  "assemblyai_estimate_usd m secs = f64_div (f64_mul (assemblyai_per_hour_usd m) (f64_of_nat (unat secs))) (Fin 3600)"

section \<open>OpenAI transcription\<close>

datatype openai_stt_error = SttFeatureDisabled | SttUnsupported string | SttBadRequest string

fun openai_stt_error_into :: "openai_stt_error \<Rightarrow> inference_error" where
  "openai_stt_error_into SttFeatureDisabled = Internal ''stt-openai feature disabled at build time''"
| "openai_stt_error_into (SttUnsupported m) = Unsupported m runtime_kind.SpeechToText"
| "openai_stt_error_into (SttBadRequest m) = BadRequest m"

record openai_stt_config =
  sc_endpoint :: string
  sc_organization :: "string option"
  sc_project :: "string option"

record verbose_segment =
  vg_start :: f32
  vg_end :: f32
  vg_text :: string
  avg_logprob :: "f32 option"

record verbose_word =
  vw_word :: string
  vw_start :: f32
  vw_end :: f32

record verbose_response =
  vr_text :: string
  vr_segments :: "verbose_segment list"
  vr_words :: "verbose_word list"

fun default_filename :: "audio_format \<Rightarrow> string" where
  "default_filename Wav = ''audio.wav''"
| "default_filename OggOpus = ''audio.ogg''"
| "default_filename Mp3 = ''audio.mp3''"
| "default_filename Flac = ''audio.flac''"
| "default_filename _ = ''audio.pcm''"

text \<open>\<^verbatim>\<open>Path::file_name\<close>: the last component, unless there is none or it is \<^verbatim>\<open>..\<close>.\<close>

fun path_parts :: "string \<Rightarrow> string list" where
  "path_parts [] = [[]]"
| "path_parts (c # s) = (if c = CHR ''/'' then [] # path_parts s
     else (case path_parts s of p # ps \<Rightarrow> (c # p) # ps | [] \<Rightarrow> [[c]]))"

definition file_name :: "string \<Rightarrow> string option" where
  "file_name path = (let cs = filter (\<lambda>p. p \<noteq> [] \<and> p \<noteq> ''.'') (path_parts path)
     in if cs = [] \<or> last cs = ''..'' then None else Some (last cs))"

definition stt_materialize_payload :: "(string \<Rightarrow> string + u8 list) \<Rightarrow> audio_payload \<Rightarrow> (u8 list \<times> string) inference_result" where
  "stt_materialize_payload read_file payload = (case payload of
     Bytes d ps \<Rightarrow> Inr (d, default_filename (ap_format ps))
   | Path f ps \<Rightarrow> (case read_file f of
       Inl e \<Rightarrow> Inl (BadRequest (''openai-stt: read '' @ f @ '': '' @ e))
     | Inr d \<Rightarrow> Inr (d, case file_name f of Some n \<Rightarrow> n | None \<Rightarrow> default_filename (ap_format ps)))
   | Url _ _ \<Rightarrow> Inl (openai_stt_error_into (SttUnsupported ''execute_audio: URL audio payloads not implemented (M6)'')))"

record stt_form =
  sf_fields :: "(string \<times> string) list"
  sf_file :: "u8 list"
  sf_file_name :: string
  sf_mime :: string

text \<open>The text fields in the order in which they are added; \<^verbatim>\<open>f32::to_string\<close> is a parameter.\<close>

definition stt_fields :: "(f32 \<Rightarrow> string) \<Rightarrow> string \<Rightarrow> transcribe_options \<Rightarrow> (string \<times> string) list" where
  "stt_fields show_f32 m opts =
     [(''model'', m), (''response_format'', if word_timestamps opts \<or> interim_results opts then ''verbose_json'' else ''json'')] @
     (case to_language opts of Some l \<Rightarrow> [(''language'', l)] | None \<Rightarrow> []) @
     (case prompt opts of Some q \<Rightarrow> [(''prompt'', q)] | None \<Rightarrow> []) @
     (case to_temperature opts of Some t \<Rightarrow> [(''temperature'', show_f32 t)] | None \<Rightarrow> []) @
     (if word_timestamps opts then [(''timestamp_granularities[]'', ''word''), (''timestamp_granularities[]'', ''segment'')] else [])"

definition stt_auth_headers :: "('b, 'ev, 'r, 'eb) http_env \<Rightarrow> openai_stt_config \<Rightarrow> string \<Rightarrow> (string \<times> string) list inference_result" where
  "stt_auth_headers env cfg token = (case header_value env (''Bearer '' @ token) of
     Inl e \<Rightarrow> Inl (Internal (''invalid bearer token: '' @ e))
   | Inr v \<Rightarrow>
     (case opt_header (header_value env) ''org'' ''openai-organization'' (sc_organization cfg) [(''authorization'', v)] of
        Inl e \<Rightarrow> Inl e
      | Inr hs \<Rightarrow> opt_header (header_value env) ''project'' ''openai-project'' (sc_project cfg) hs))"

definition verbose_word_timing :: "verbose_word \<Rightarrow> word_timing" where
  "verbose_word_timing w = \<lparr>wt_text = vw_word w, wt_start_ms = seconds_to_ms (vw_start w), wt_end_ms = seconds_to_ms (vw_end w), confidence = None\<rparr>"

definition fold_or_zero :: "(u32 \<Rightarrow> u32 \<Rightarrow> u32) \<Rightarrow> u32 list \<Rightarrow> u32" where
  "fold_or_zero f xs = (case xs of [] \<Rightarrow> 0 | x # xs' \<Rightarrow> foldl f x xs')"

definition segment_chunk :: "string \<Rightarrow> word_timing list \<Rightarrow> nat \<Rightarrow> nat \<times> verbose_segment \<Rightarrow> transcript_chunk" where
  "segment_chunk rid words_ms last_idx = (\<lambda>(i, seg).
     let s = seconds_to_ms (vg_start seg); e = seconds_to_ms (vg_end seg)
     in \<lparr>tr_request_id = rid, tr_is_final = (i = last_idx), tr_text = vg_text seg, tr_start_ms = s, tr_end_ms = e, speaker_id = None,
         tr_words = filter (\<lambda>w. s \<le> wt_start_ms w \<and> wt_end_ms w \<le> e) words_ms, tr_usage = None\<rparr>)"

definition verbose_to_chunks :: "string \<Rightarrow> verbose_response \<Rightarrow> transcript_chunk list" where
  "verbose_to_chunks rid parsed =
     (let words_ms = map verbose_word_timing (vr_words parsed)
      in if vr_segments parsed = []
         then [\<lparr>tr_request_id = rid, tr_is_final = True, tr_text = vr_text parsed, tr_start_ms = fold_or_zero min (map wt_start_ms words_ms),
                tr_end_ms = fold_or_zero max (map wt_end_ms words_ms), speaker_id = None, tr_words = words_ms, tr_usage = None\<rparr>]
         else map (segment_chunk rid words_ms (length (vr_segments parsed) - 1)) (List.enumerate 0 (vr_segments parsed)))"

definition plain_to_chunks :: "string \<Rightarrow> string \<Rightarrow> transcript_chunk list" where
  "plain_to_chunks rid s = [\<lparr>tr_request_id = rid, tr_is_final = True, tr_text = s, tr_start_ms = 0, tr_end_ms = 0, speaker_id = None,
     tr_words = [], tr_usage = None\<rparr>]"

text \<open>The transport with the decoder of a plain answer; file system, decoder of a verbose answer and the check of
  the MIME type are further parameters.\<close>

definition stt_execute :: "(stt_form, unit, string, openai_error_body) http_env \<Rightarrow> (string \<Rightarrow> string + u8 list) \<Rightarrow> (http_response \<Rightarrow> string + verbose_response) \<Rightarrow>
    (string \<Rightarrow> string + unit) \<Rightarrow> (f32 \<Rightarrow> string) \<Rightarrow> openai_stt_config \<Rightarrow> string \<Rightarrow> string \<Rightarrow> 'rx audio_batch \<Rightarrow>
    transcript_chunk inference_result list inference_result" where
  "stt_execute env read_file verbose_json mime_ok show_f32 cfg url token b = (case ab_options b of
     Audio2Face _ \<Rightarrow> Inl (openai_stt_error_into (SttBadRequest ''openai-stt: AudioOptions::Audio2Face is not supported''))
   | Transcribe opts \<Rightarrow> (case ab_input b of
       Stream _ _ \<Rightarrow> Inl (openai_stt_error_into (SttUnsupported ''execute_audio: streaming inputs require the realtime endpoint''))
     | Static payload \<Rightarrow> (case stt_materialize_payload read_file payload of
         Inl e \<Rightarrow> Inl e
       | Inr (bytes, nm) \<Rightarrow> (case mime_ok ''application/octet-stream'' of
           Inl e \<Rightarrow> Inl (Internal (''openai-stt: mime: '' @ e))
         | Inr _ \<Rightarrow> (case stt_auth_headers env cfg token of
             Inl e \<Rightarrow> Inl e
           | Inr hs \<Rightarrow> (case send env \<lparr>rq_url = url, rq_headers = hs, rq_body = \<lparr>sf_fields = stt_fields show_f32 (ab_model b) opts,
                 sf_file = bytes, sf_file_name = nm, sf_mime = ''application/octet-stream''\<rparr>\<rparr> of
               Inl e \<Rightarrow> Inl (NetworkError e)
             | Inr resp \<Rightarrow>
                 if \<not> is_success (hs_status resp)
                 then Inl (classify_openai_error (error_json env) (rfc2822 env) (unix_now env) (hs_status resp) (hs_retry_after resp) (hs_text resp))
                 else if word_timestamps opts \<or> interim_results opts
                 then (case verbose_json resp of
                   Inl e \<Rightarrow> Inl (Internal (''openai-stt verbose decode: '' @ e))
                 | Inr parsed \<Rightarrow> Inr (map Inr (verbose_to_chunks (ab_request_id b) parsed)))
                 else (case answer_json env resp of
                   Inl e \<Rightarrow> Inl (Internal (''openai-stt plain decode: '' @ e))
                 | Inr t \<Rightarrow> Inr (map Inr (plain_to_chunks (ab_request_id b) t)))))))))"

definition stt_per_minute_usd :: "string \<Rightarrow> f64" where
  "stt_per_minute_usd m = (if m = ''whisper-1'' then f64_of_rat (6 / 1000) else if m = ''gpt-4o-transcribe'' then f64_of_rat (6 / 1000)
     else if m = ''gpt-4o-mini-transcribe'' then f64_of_rat (3 / 1000) else Fin 0)"

definition stt_estimate_usd :: "string \<Rightarrow> u32 \<Rightarrow> f64" where
  "stt_estimate_usd m secs = f64_div (f64_mul (stt_per_minute_usd m) (f64_of_nat (unat secs))) (Fin 60)"

section \<open>Collecting a transcript\<close>

text \<open>The chunks handed over at the end, and what one read contributes, for a decoder of one text frame.\<close>

definition settle :: "string \<Rightarrow> bool \<Rightarrow> transcript_chunk list \<Rightarrow> transcript_chunk list" where
  "settle rid seen produced = (if seen then produced else promote_last rid produced)"

definition read_chunks :: "(string \<Rightarrow> string + transcript_chunk option) \<Rightarrow> ws_read \<Rightarrow> transcript_chunk list" where
  "read_chunks decode r = (case r of
     Inr (Some (frame.Text t)) \<Rightarrow> (case decode t of Inr (Some c) \<Rightarrow> [c] | _ \<Rightarrow> []) | _ \<Rightarrow> [])"

definition stt_ends :: "(string \<Rightarrow> string + transcript_chunk option) \<Rightarrow> ws_read \<Rightarrow> bool" where
  "stt_ends decode r = (case r of
     Inr (Some (frame.Text t)) \<Rightarrow> isl (decode t) | Inr (Some (Close _ _)) \<Rightarrow> True | Inr None \<Rightarrow> True | Inl _ \<Rightarrow> True | _ \<Rightarrow> False)"

definition collected :: "(string \<Rightarrow> string + transcript_chunk option) \<Rightarrow> ws_read list \<Rightarrow> transcript_chunk list" where
  "collected decode rs = concat (map (read_chunks decode) rs)"

text \<open>The contract of a collecting task whose receiver listens: its variables are a state and the chunks produced so far.\<close>

locale transcript_task =
  fixes task :: "'s \<Rightarrow> transcript_chunk list \<Rightarrow> ws_read list \<Rightarrow> transcript_chunk inference_result list"
    and decode :: "string \<Rightarrow> string + transcript_chunk option"
    and seen :: "'s \<Rightarrow> bool"
    and mark :: "'s \<Rightarrow> transcript_chunk list \<Rightarrow> transcript_chunk \<Rightarrow> 's"
    and who :: string
    and rid :: string
  assumes task_Nil: "task s p [] = []"
    and task_text: "task s p (Inr (Some (frame.Text t)) # rs) = (case decode t of
         Inl e \<Rightarrow> Inl (Internal (who @ '' envelope decode: '' @ e)) # map Inr (settle rid (seen s) p)
       | Inr None \<Rightarrow> task s p rs
       | Inr (Some c) \<Rightarrow> task (mark s p c) (p @ [c]) rs)"
    and task_close: "task s p (Inr (Some (Close code reason)) # rs) =
       (if normal_close code then map Inr (settle rid (seen s) p)
        else [Inl (NetworkError (who @ '' closed code='' @ show_word code @ '' reason='' @ reason))])"
    and task_end: "task s p (Inr None # rs) = map Inr (settle rid (seen s) p)"
    and task_fail: "task s p (Inl e # rs) = [Inl (NetworkError (who @ '' ws recv: '' @ e))]"
    and task_other: "f \<in> {Binary d, Ping d, Pong d} \<Longrightarrow> task s p (Inr (Some f) # rs) = task s p rs"
    and seen_mark: "seen (mark s p c) \<longleftrightarrow> seen s \<or> tr_is_final c"
begin

lemma quiet_read:
  assumes "\<not> stt_ends decode r"
  shows "\<exists>s'. task s p (r # rs) = task s' (p @ read_chunks decode r) rs \<and> (seen s' \<longleftrightarrow> seen s \<or> list_ex tr_is_final (read_chunks decode r))"
proof (cases "\<exists>t. r = Inr (Some (frame.Text t))")
  case True
  then obtain t c where "r = Inr (Some (frame.Text t))" "decode t = Inr c" using assms
    by (auto simp: stt_ends_def isl_def) (metis sum.exhaust)
  then show ?thesis by (cases c) (auto simp: task_text read_chunks_def seen_mark)
next
  case False
  then obtain f d where "r = Inr (Some f)" "f \<in> {Binary d, Ping d, Pong d}"
    using assms by (auto simp: stt_ends_def split: sum.splits option.splits frame.splits)
  then show ?thesis using task_other [of f d s p rs] by (auto simp: read_chunks_def)
qed

lemma quiet:
  assumes "\<not> list_ex (stt_ends decode) xs"
  shows "\<exists>s'. task s p (xs @ ys) = task s' (p @ collected decode xs) ys \<and> (seen s' \<longleftrightarrow> seen s \<or> list_ex tr_is_final (collected decode xs))"
  using assms
proof (induction xs arbitrary: s p)
  case (Cons r xs)
  then have r: "\<not> stt_ends decode r" and xs: "\<not> list_ex (stt_ends decode) xs" by simp_all
  obtain s1 where 1: "task s p (r # xs @ ys) = task s1 (p @ read_chunks decode r) (xs @ ys)"
    "seen s1 \<longleftrightarrow> seen s \<or> list_ex tr_is_final (read_chunks decode r)" using quiet_read [OF r] by blast
  from Cons.IH [OF xs, of s1 "p @ read_chunks decode r"] 1 show ?case by (auto simp: collected_def)
qed (auto simp: collected_def)

text \<open>Nothing is handed over before the end; a normal end hands over everything; a failure hands over only itself.\<close>

lemma nothing_early: "\<not> list_ex (stt_ends decode) xs \<Longrightarrow> task s p xs = []"
  using quiet [of xs s p "[]"] by (auto simp: task_Nil)

lemma normal_end:
  assumes "\<not> list_ex (stt_ends decode) xs" "\<not> seen s" "e = Inr None \<or> (\<exists>code reason. e = Inr (Some (Close code reason)) \<and> normal_close code)"
  shows "task s [] (xs @ e # ys) = map Inr (settle rid (list_ex tr_is_final (collected decode xs)) (collected decode xs))"
proof -
  obtain s' where "task s [] (xs @ e # ys) = task s' (collected decode xs) (e # ys)"
    "seen s' \<longleftrightarrow> list_ex tr_is_final (collected decode xs)"
    using quiet [OF assms(1), of s "[]" "e # ys"] assms(2) by auto
  with assms(3) show ?thesis by (auto simp: task_end task_close)
qed

lemma failed_end:
  assumes "\<not> list_ex (stt_ends decode) xs"
  shows "task s p (xs @ Inl e # ys) = [Inl (NetworkError (who @ '' ws recv: '' @ e))]"
    and "\<not> normal_close code \<Longrightarrow> task s p (xs @ Inr (Some (Close code reason)) # ys) =
      [Inl (NetworkError (who @ '' closed code='' @ show_word code @ '' reason='' @ reason))]"
  using quiet [OF assms, of s p "Inl e # ys"] quiet [OF assms, of s p "Inr (Some (Close code reason)) # ys"]
  by (auto simp: task_fail task_close)

end

text \<open>What one text frame means to each of the two providers.\<close>

definition deepgram_decode :: "(string \<Rightarrow> string + deepgram_inbound) \<Rightarrow> string \<Rightarrow> transcribe_options \<Rightarrow> string \<Rightarrow> string + transcript_chunk option" where
  "deepgram_decode json rid opts t = (case json t of
     Inl e \<Rightarrow> Inl e
   | Inr (Results r) \<Rightarrow> Inr (if \<not> interim_results opts \<and> \<not> re_is_final r then None
       else Some (results_to_chunk rid r (diarize opts) (word_timestamps opts)))
   | Inr _ \<Rightarrow> Inr None)"

definition assemblyai_decode :: "(string \<Rightarrow> string + assemblyai_inbound) \<Rightarrow> string \<Rightarrow> transcribe_options \<Rightarrow> string \<Rightarrow> string + transcript_chunk option" where
  "assemblyai_decode json rid opts t = (case json t of
     Inl e \<Rightarrow> Inl e
   | Inr (Turn u) \<Rightarrow> Inr (if \<not> interim_results opts \<and> \<not> end_of_turn u then None else Some (turn_to_chunk rid u (word_timestamps opts)))
   | Inr _ \<Rightarrow> Inr None)"

interpretation dg: transcript_task "deepgram_downlink json rid opts (\<lambda>_. True)" "deepgram_decode json rid opts" "\<lambda>s. s \<noteq> None"
    "\<lambda>s p c. if tr_is_final c then Some (u64_of_nat (length p)) else s" "''deepgram''" rid
  for json :: "string \<Rightarrow> string + deepgram_inbound" and rid opts
  by unfold_locales
    (auto simp: deepgram_decode_def deepgram_finish_def settle_def Let_def split: sum.splits deepgram_inbound.splits)

interpretation aa: transcript_task "assemblyai_downlink json rid opts (\<lambda>_. True)" "assemblyai_decode json rid opts" "\<lambda>s. s"
    "\<lambda>s p c. if tr_is_final c then True else s" "''assemblyai''" rid
  for json :: "string \<Rightarrow> string + assemblyai_inbound" and rid opts
  by unfold_locales
    (auto simp: assemblyai_decode_def assemblyai_finish_def settle_def Let_def split: sum.splits assemblyai_inbound.splits)

section \<open>Final chunks and texts\<close>

lemma settle_finals:
  "length (filter tr_is_final (settle rid (list_ex tr_is_final cs) cs)) = max 1 (length (filter tr_is_final cs))"
proof (cases "list_ex tr_is_final cs")
  case True
  then have "filter tr_is_final cs \<noteq> []" by (auto simp: list_ex_iff filter_empty_conv)
  then show ?thesis using True by (cases "filter tr_is_final cs") (simp_all add: settle_def)
next
  case False
  then have "filter tr_is_final cs = []" "filter tr_is_final (butlast cs) = []"
    by (auto simp: list_ex_iff filter_empty_conv dest: in_set_butlastD)
  with False show ?thesis by (simp add: settle_def promote_last_def empty_terminal_def)
qed

lemma settle_texts: "concat (map tr_text (settle rid seen cs)) = concat (map tr_text cs)"
  by (cases cs rule: rev_cases) (simp_all add: settle_def promote_last_def empty_terminal_def)

section \<open>Timings\<close>

lemma unat_seconds_to_ms: "unat (seconds_to_ms s) = fp_to_uint 32 (fp_max (f32_mul s (Fin 1000)) (Fin 0))"
proof -
  have "fp_to_uint 32 v < 2 ^ 32" for v by (cases v) auto
  then show ?thesis by (simp add: seconds_to_ms_def unat_of_nat take_bit_nat_eq_self)
qed

lemma seconds_to_ms_mono: "fp_le a b \<Longrightarrow> seconds_to_ms a \<le> seconds_to_ms b"
  unfolding word_le_nat_alt unat_seconds_to_ms
  by (intro fp_to_uint_mono fp_max_mono f32_mul_mono) simp_all

lemma seconds_to_ms_none [simp]: "seconds_to_ms NaN = 0" "seconds_to_ms NInf = 0"
  by (simp_all add: seconds_to_ms_def fp_max_def)

text \<open>Times the provider sends: a word may not end before it starts, a duration is not negative, a confidence is a
  probability.\<close>

definition word_ok :: "deepgram_word \<Rightarrow> bool" where
  "word_ok w \<longleftrightarrow> fp_le (dw_start w) (dw_end w) \<and> (case dw_confidence w of None \<Rightarrow> True | Some c \<Rightarrow> fp_le (Fin 0) c \<and> fp_le c (Fin 1))"

definition results_ok :: "results_envelope \<Rightarrow> bool" where
  "results_ok r \<longleftrightarrow> is_f32 (re_start r) \<and> fp_le (Fin 0) (re_duration r) \<and> list_all (\<lambda>a. list_all word_ok (ta_words a)) (alternatives r)"

definition well_timed :: "transcript_chunk \<Rightarrow> bool" where
  "well_timed c \<longleftrightarrow> tr_start_ms c \<le> tr_end_ms c \<and> list_all timing_valid (tr_words c)"

lemma word_timing_valid: "word_ok w \<Longrightarrow> timing_valid (deepgram_word_timing w)"
  by (simp add: word_ok_def timing_valid_def deepgram_word_timing_def seconds_to_ms_mono)

lemma segment_ordered:
  assumes "is_f32 a" "fp_le (Fin 0) d"
  shows "seconds_to_ms a \<le> seconds_to_ms (f32_add a d)"
proof (cases "a = NaN \<or> f32_add a d = NaN")
  case True
  then have "a = NaN \<or> a = NInf" using assms(2) by (cases a; cases d) (auto simp: fp_le_def)
  then show ?thesis by auto
next
  case False
  then show ?thesis using assms by (intro seconds_to_ms_mono f32_add_nonneg) simp_all
qed

lemma results_well_timed:
  assumes "results_ok r"
  shows "well_timed (results_to_chunk rid r want_diarize want_words)"
proof -
  have "list_all timing_valid (map deepgram_word_timing (ta_words a))" if "a \<in> set (alternatives r)" for a
    using assms that by (auto simp: results_ok_def list_all_iff word_timing_valid)
  then show ?thesis using assms segment_ordered [of "re_start r" "re_duration r"]
    by (auto simp: well_timed_def results_to_chunk_def results_ok_def Let_def split: list.split)
qed

text \<open>Handing over keeps chunks well-timed, whoever listens.\<close>

lemma settle_well_timed: "list_all well_timed p \<Longrightarrow> list_all well_timed (settle rid seen p)"
  by (cases p rule: rev_cases) (auto simp: settle_def promote_last_def well_timed_def empty_terminal_def)

lemma send_all_items: "x \<in> set (snd (send_all alive out xs)) \<Longrightarrow> x \<in> set out \<or> x \<in> set xs"
proof (induction xs arbitrary: out)
  case (Cons y xs)
  then show ?case using Cons.IH [of "out @ [y]"] by (cases "alive (length out)") (auto simp: rt_send_def)
qed simp

lemma deepgram_finish_timed:
  "list_all well_timed p \<Longrightarrow> Inr c \<in> set (deepgram_finish rid alive out last_idx p) \<Longrightarrow> Inr c \<notin> set out \<Longrightarrow> well_timed c"
  using settle_well_timed [of p rid "last_idx \<noteq> None"]
  by (auto simp: deepgram_finish_def settle_def list_all_iff dest!: send_all_items split: if_splits)

lemma deepgram_downlink_timed:
  assumes "\<And>t r. json t = Inr (Results r) \<Longrightarrow> results_ok r"
  shows "list_all well_timed p \<Longrightarrow> Inr c \<in> set (deepgram_downlink json rid opts alive last_idx p rs) \<Longrightarrow> well_timed c"
proof (induction rs arbitrary: last_idx p)
  case (Cons x rs)
  note finish = deepgram_finish_timed [OF Cons.prems(1)]
  show ?case
  proof (cases "\<exists>t. x = Inr (Some (frame.Text t))")
    case True
    then obtain t where x: "x = Inr (Some (frame.Text t))" by blast
    show ?thesis
    proof (cases "json t")
      case (Inl e)
      then show ?thesis using x Cons.prems(2) finish by (auto simp: rt_send_def)
    next
      case (Inr env)
      show ?thesis
      proof (cases env)
        case (Results r)
        then have "list_all well_timed (p @ [results_to_chunk rid r (diarize opts) (word_timestamps opts)])"
          using Cons.prems(1) results_well_timed [OF assms] Inr by simp
        from Cons.IH [OF this] Cons.IH [OF Cons.prems(1)] Cons.prems(2) show ?thesis
          using x Inr Results by (auto simp: Let_def split: if_splits)
      qed (use x Inr Cons in auto)
    qed
  next
    case False
    then show ?thesis using Cons finish
      by (cases "(json, rid, opts, alive, last_idx, p, x # rs)" rule: deepgram_downlink.cases)
        (auto simp: rt_send_def split: if_splits)
  qed
qed simp

section \<open>Verbose answers\<close>

text \<open>
  One chunk per segment in order, only the last final; a word is attributed to exactly the segments whose range
  contains it.  The comment in the code speaks of overlap: a word that merely overlaps a segment is in no chunk.
\<close>

lemma verbose_chunks_final: "map tr_is_final (verbose_to_chunks rid p) = replicate (length (verbose_to_chunks rid p) - 1) False @ [True]"
proof (cases "vr_segments p = []")
  case False
  let ?n = "length (vr_segments p)"
  have "map tr_is_final (verbose_to_chunks rid p) = map (\<lambda>i. i = ?n - 1) [0..<?n]"
    using False by (intro nth_equalityI) (simp_all add: verbose_to_chunks_def Let_def segment_chunk_def nth_enumerate_eq)
  also have "\<dots> = replicate (?n - 1) False @ [True]"
    using False by (intro nth_equalityI) (auto simp: nth_append)
  finally show ?thesis using False by (simp add: verbose_to_chunks_def Let_def)
qed (simp add: verbose_to_chunks_def Let_def)

lemma verbose_chunks_text:
  "map tr_text (verbose_to_chunks rid p) = (if vr_segments p = [] then [vr_text p] else map vg_text (vr_segments p))"
  by (simp add: verbose_to_chunks_def Let_def segment_chunk_def case_prod_unfold comp_def flip: map_map [of _ snd, unfolded comp_def])

lemma verbose_chunks_words:
  "vr_segments p \<noteq> [] \<Longrightarrow> map tr_words (verbose_to_chunks rid p) =
     map (\<lambda>seg. filter (\<lambda>w. seconds_to_ms (vg_start seg) \<le> wt_start_ms w \<and> wt_end_ms w \<le> seconds_to_ms (vg_end seg))
       (map verbose_word_timing (vr_words p))) (vr_segments p)"
  by (intro nth_equalityI) (simp_all add: verbose_to_chunks_def Let_def segment_chunk_def nth_enumerate_eq)

lemma verbose_word_dropped_iff:
  assumes "vr_segments p \<noteq> []" "w \<in> set (map verbose_word_timing (vr_words p))"
  shows "w \<notin> set (concat (map tr_words (verbose_to_chunks rid p))) \<longleftrightarrow>
    (\<forall>seg \<in> set (vr_segments p). wt_start_ms w < seconds_to_ms (vg_start seg) \<or> seconds_to_ms (vg_end seg) < wt_end_ms w)"
  unfolding verbose_chunks_words [OF assms(1)] using assms(2) by (auto simp: not_le)

section \<open>The audio sent\<close>

lemma pump_audio_all:
  "pump_audio who marker (\<lambda>_. None) out cs = (out @ map Binary (filter (\<lambda>c. c \<noteq> []) cs) @ [frame.Text marker], None)"
  by (induction cs arbitrary: out) simp_all

lemma concat_filter_nonempty: "concat (filter (\<lambda>c. c \<noteq> []) cs) = concat cs"
  by (induction cs) auto

text \<open>The bytes of an input: the payload itself, the file's contents, or what the channel yields.\<close>

definition input_bytes :: "stt_env \<Rightarrow> u8 list list audio_input \<Rightarrow> u8 list" where
  "input_bytes env i = (case i of
     Static (Bytes d _) \<Rightarrow> d
   | Static (Path f _) \<Rightarrow> (case sv_read_file env f of Inr d \<Rightarrow> d | Inl _ \<Rightarrow> [])
   | Static (Url _ _) \<Rightarrow> []
   | Stream _ pieces \<Rightarrow> concat pieces)"

lemma open_audio_input_ok:
  "open_audio_input env who i = Inr (ps, pieces) \<Longrightarrow> concat pieces = input_bytes env i \<and> ps = input_params i"
  by (auto simp: open_audio_input_def materialize_payload_def input_bytes_def slices_concat
      split: audio_input.splits audio_payload.splits sum.splits)

text \<open>Binary frames without empty ones that carry the bytes, then the marker, and no error.\<close>

definition uploads :: "string \<Rightarrow> u8 list \<Rightarrow> frame list \<times> inference_error option \<Rightarrow> bool" where
  "uploads marker bytes up \<longleftrightarrow> (\<exists>ds. up = (map Binary ds @ [frame.Text marker], None) \<and> concat ds = bytes \<and> [] \<notin> set ds)"

lemma pump_uploads: "uploads marker (concat pieces) (pump_audio who marker (\<lambda>_. None) [] pieces)"
  by (auto simp: uploads_def pump_audio_all concat_filter_nonempty intro!: exI [of _ "filter (\<lambda>c. c \<noteq> []) pieces"])

section \<open>Properties\<close>

definition demo_results :: "string \<Rightarrow> results_envelope" where
  "demo_results s = \<lparr>re_start = Fin 0, re_duration = Fin 1, re_is_final = True, speech_final = False,
     alternatives = [\<lparr>ta_transcript = s, ta_confidence = None, ta_words = []\<rparr>]\<rparr>"

definition demo_deepgram_json :: "string \<Rightarrow> string + deepgram_inbound" where
  "demo_deepgram_json s = Inr (Results (demo_results s))"

definition demo_assemblyai_json :: "string \<Rightarrow> string + assemblyai_inbound" where
  "demo_assemblyai_json s = Inr (Turn \<lparr>turn_order = 0, turn_is_formatted = False, end_of_turn = True, end_of_turn_confidence = None,
     te_transcript = s, te_words = []\<rparr>)"

definition demo_stt_env :: stt_env where
  "demo_stt_env = \<lparr>sv_url_join = (\<lambda>a b. Inr (a @ b)), sv_append_pair = (\<lambda>u k v. u), sv_connect = (\<lambda>_ _ _. Inr ()),
     sv_read_file = (\<lambda>_. Inl ''none''), sv_show_format = (\<lambda>_. []), sv_marker_json = None\<rparr>"

definition demo_audio_batch :: "u8 list list audio_batch" where
  "demo_audio_batch = \<lparr>ab_request_id = ''r'', ab_model = ''nova-2'', ab_input = Stream (new_audio_params 16000 1 Pcm16Le) [[1, 2], [], [3]],
     ab_stream = True, ab_options = Transcribe default_transcribe_options, estimated_units = 1\<rparr>"

lemmas demo_stt_defs = demo_results_def demo_deepgram_json_def demo_assemblyai_json_def demo_stt_env_def demo_audio_batch_def

lemma demo_quiet:
  "\<not> list_ex (stt_ends (deepgram_decode demo_deepgram_json ''r'' default_transcribe_options)) [Inr (Some (frame.Text ''he'')), Inr (Some (frame.Text ''llo''))]"
  "\<not> list_ex (stt_ends (assemblyai_decode demo_assemblyai_json ''r'' default_transcribe_options)) [Inr (Some (frame.Text ''he'')), Inr (Some (frame.Text ''llo''))]"
  by (simp_all add: stt_ends_def deepgram_decode_def assemblyai_decode_def demo_stt_defs)






text \<open>What is transcribed is what was given.  While the socket accepts frames, both streaming runners send the
  bytes of the input (a buffer, a file, or a stream of pieces) completely and in order as non-empty binary
  frames, then the provider's end marker, and report no error.\<close>

theorem stt_uploads_input:
  "(deepgram_execute env json cfg token (\<lambda>_. None) alive reads b = Inr (up, out) \<longrightarrow> uploads (deepgram_marker env) (input_bytes env (ab_input b)) up) \<and>
   (assemblyai_execute env json' cfg' token (\<lambda>_. None) alive reads b = Inr (up', out') \<longrightarrow> uploads (assemblyai_marker env) (input_bytes env (ab_input b)) up')"
proof -
  have "uploads marker (input_bytes env (ab_input b)) (pump_audio who marker (\<lambda>_. None) [] pieces)"
    if "open_audio_input env who' (ab_input b) = Inr (ps, pieces)" for who who' marker ps pieces
    using pump_uploads [of marker pieces who] open_audio_input_ok [OF that] by simp
  then show ?thesis
    by (auto simp: deepgram_execute_def assemblyai_execute_def split: audio_options.splits sum.splits if_splits)
qed

theorem stt_uploads_input_witness:
  "\<exists>up out. deepgram_execute demo_stt_env demo_deepgram_json defaults_for_deepgram ''k'' (\<lambda>_. None) (\<lambda>_. True) [] demo_audio_batch = Inr (up, out) \<and>
     uploads (type_marker ''CloseStream'') [1, 2, 3] up"
proof -
  have "\<exists>up out. deepgram_execute demo_stt_env demo_deepgram_json defaults_for_deepgram ''k'' (\<lambda>_. None) (\<lambda>_. True) [] demo_audio_batch = Inr (up, out)"
    by (simp add: deepgram_execute_def open_audio_input_def deepgram_encoding_def new_audio_params_def demo_stt_defs)
  moreover have "input_bytes demo_stt_env (ab_input demo_audio_batch) = [1, 2, 3]" "deepgram_marker demo_stt_env = type_marker ''CloseStream''"
    by (simp_all add: input_bytes_def deepgram_marker_def demo_stt_defs)
  ultimately show ?thesis
    using stt_uploads_input [of demo_stt_env demo_deepgram_json defaults_for_deepgram "''k''" "\<lambda>_. True" "[]" demo_audio_batch] by metis
qed

text \<open>Deepgram chunks are well-timed.  If the provider's envelopes are sane (no negative duration, no word that ends
  before it starts, confidences are probabilities), every chunk handed to the caller, wherever it stops
  listening, has a start not after its end and only valid word timings: the conversion from seconds in single
  precision to whole milliseconds rounds, saturates and maps NaN to zero without breaking the order.\<close>

theorem deepgram_chunks_well_timed:
  assumes "\<And>t r. json t = Inr (Results r) \<Longrightarrow> results_ok r"
    and "deepgram_execute env json cfg token fails alive reads b = Inr (up, items)" and "Inr c \<in> set items"
  shows "well_timed c"
proof -
  obtain opts where "items = deepgram_downlink json (ab_request_id b) opts alive None [] reads"
    using assms(2) by (auto simp: deepgram_execute_def split: audio_options.splits sum.splits)
  with deepgram_downlink_timed [where json = json and p = "[]"] assms(1,3) show ?thesis by auto
qed

theorem deepgram_chunks_well_timed_witness:
  "well_timed ((results_to_chunk ''r'' (demo_results ''hi'') False False)\<lparr>tr_is_final := True\<rparr>)"
proof -
  have ok: "demo_deepgram_json t = Inr (Results r) \<Longrightarrow> results_ok r" for t r
    by (auto simp: demo_deepgram_json_def demo_results_def results_ok_def is_f32_def round_fp_def round_pos_def fp_le_def)
  have "deepgram_execute demo_stt_env demo_deepgram_json defaults_for_deepgram ''k'' (\<lambda>_. None) (\<lambda>_. True) [Inr (Some (frame.Text ''hi'')), Inr None] demo_audio_batch
      = Inr (pump_audio ''deepgram'' (type_marker ''CloseStream'') (\<lambda>_. None) [] [[1, 2], [], [3]],
             [Inr ((results_to_chunk ''r'' (demo_results ''hi'') False False)\<lparr>tr_is_final := True\<rparr>)])"
    by (simp add: deepgram_execute_def open_audio_input_def deepgram_encoding_def deepgram_marker_def new_audio_params_def deepgram_finish_def promote_last_def
        results_to_chunk_def default_transcribe_options_def Let_def demo_stt_defs)
  from deepgram_chunks_well_timed [OF ok this] show ?thesis by simp
qed

end
