(* ===== verification/Local_Speech.thy ===== *)
theory Local_Speech
  imports Whisper_Decode Speech_Synthesis
begin

text \<open>
  The two local speech backends: synthesis with Piper, \<^verbatim>\<open>inference-runtime-piper\<close>, and transcription with whisper.cpp,
  \<^verbatim>\<open>inference-runtime-whisper-local/src/session.rs\<close> and \<^verbatim>\<open>runner.rs\<close> on top of the decoder of \<open>Whisper_Decode\<close>.  The model libraries are outside:
  what a run of a session returns is given.  Paths are strings.
\<close>

text \<open>\<^verbatim>\<open>OnceCell::get_or_try_init\<close>: a failure leaves the cell empty.\<close>

definition get_or_try_init :: "'err + 's \<Rightarrow> 's option \<Rightarrow> 's option \<times> ('err + 's)" where
  "get_or_try_init built cell = (case cell of
     Some s \<Rightarrow> (cell, Inr s)
   | None \<Rightarrow> (case built of Inl e \<Rightarrow> (None, Inl e) | Inr s \<Rightarrow> (Some s, Inr s)))"

definition drop_on_rebuild :: "session_rebuild_cause \<Rightarrow> 's option \<Rightarrow> 's option" where
  "drop_on_rebuild cause cell = (if cause = CudaContextPoisonedCause \<or> cause = Manual then None else cell)"

section \<open>Piper: configuration and errors\<close>

record piper_config =
  voice_path :: string
  voice_manifest_path :: "string option"
  pc_speaker_id :: "64 word option"
  length_scale :: f32
  noise_scale :: f32
  noise_w :: f32
  chunk_samples :: nat
  intra_threads :: "u32 option"

definition resolved_manifest_path :: "piper_config \<Rightarrow> string" where
  "resolved_manifest_path c = (case voice_manifest_path c of Some p \<Rightarrow> p | None \<Rightarrow> voice_path c @ ''.json'')"

record piper_voice_manifest =
  pm_sample_rate :: u32
  phoneme_id_map :: "string \<rightharpoonup> 64 word list"
  num_symbols :: u32
  num_speakers :: u32
  espeak_voice :: "string option"

definition default_num_speakers :: u32 where
  "default_num_speakers = 1"

definition default_chunk_samples :: nat where
  "default_chunk_samples = 4096"

datatype piper_error =
    VoiceNotFound string
  | ManifestNotFound string
  | ManifestIo string
  | ManifestParse string
  | UnknownPhoneme string
  | SpeakerOutOfRange "64 word" u32
  | PiperOrt string
  | PiperFeatureDisabled

text \<open>The rendering of the errors is the argument \<open>to_string\<close>.\<close>

fun piper_error_into :: "(piper_error \<Rightarrow> string) \<Rightarrow> piper_error \<Rightarrow> inference_error" where
  "piper_error_into to_string (ManifestIo e) = Internal (to_string (ManifestIo e))"
| "piper_error_into to_string (ManifestParse e) = Internal (to_string (ManifestParse e))"
| "piper_error_into to_string (PiperOrt e) = Internal (to_string (PiperOrt e))"
| "piper_error_into to_string PiperFeatureDisabled = Internal (to_string PiperFeatureDisabled)"
| "piper_error_into to_string e = BadRequest (to_string e)"

section \<open>Piper: phonemes\<close>

text \<open>\<^verbatim>\<open>str::chars\<close> on the bytes of a string: a first byte and the continuation bytes after it.\<close>

definition is_continuation :: "char \<Rightarrow> bool" where
  "is_continuation c \<longleftrightarrow> 128 \<le> byte_of c \<and> byte_of c < 192"

function str_chars :: "string \<Rightarrow> string list" where
  "str_chars [] = []"
| "str_chars (c # s) = (c # takeWhile is_continuation s) # str_chars (dropWhile is_continuation s)"
  by pat_completeness auto
termination
  by (relation "measure length") (auto simp: le_imp_less_Suc length_dropWhile_le)

fun phoneme_loop :: "(string \<rightharpoonup> 64 word list) \<Rightarrow> 64 word list \<Rightarrow> 64 word list \<Rightarrow> string list \<Rightarrow> piper_error + 64 word list" where
  "phoneme_loop m pad out [] = Inr out"
| "phoneme_loop m pad out (k # ks) = (case m k of
     None \<Rightarrow> Inl (UnknownPhoneme k)
   | Some ids \<Rightarrow> phoneme_loop m pad (out @ ids @ pad) ks)"

definition ids_for_text :: "(string \<rightharpoonup> 64 word list) \<Rightarrow> string \<Rightarrow> piper_error + 64 word list" where
  "ids_for_text m s =
     (let pad = (case m ''_'' of Some p \<Rightarrow> p | None \<Rightarrow> []);
          start = (case m ''^'' of Some bos \<Rightarrow> bos @ pad | None \<Rightarrow> [])
      in case phoneme_loop m pad start (str_chars s) of
           Inl e \<Rightarrow> Inl e
         | Inr out \<Rightarrow> Inr (out @ (case m ''$'' of Some eos \<Rightarrow> eos | None \<Rightarrow> [])))"

section \<open>Piper: synthesis\<close>

record piper_inputs =
  pi_ids :: "64 word list"
  pi_length :: nat
  pi_scales :: "f32 list"
  pi_sid :: "64 word option"

text \<open>A loaded voice.  A run returns the outputs by name, a tensor of floats or another value.\<close>

record piper_state =
  ps_manifest :: piper_voice_manifest
  output_names :: "string list"
  piper_run :: "piper_inputs \<Rightarrow> string + (string \<rightharpoonup> f32 list option)"

record piper_env =
  pe_exists :: "string \<Rightarrow> bool"
  pe_read :: "string \<Rightarrow> string + u8 list"
  pe_manifest_json :: "u8 list \<Rightarrow> string + piper_voice_manifest"
  pe_session :: "string \<Rightarrow> u32 option \<Rightarrow> string + string list \<times> (piper_inputs \<Rightarrow> string + (string \<rightharpoonup> f32 list option))"

definition load_manifest :: "piper_env \<Rightarrow> string \<Rightarrow> piper_error + piper_voice_manifest" where
  "load_manifest env path =
     (if \<not> pe_exists env path then Inl (ManifestNotFound path)
      else (case pe_read env path of
        Inl e \<Rightarrow> Inl (ManifestIo e)
      | Inr raw \<Rightarrow> (case pe_manifest_json env raw of Inl e \<Rightarrow> Inl (ManifestParse e) | Inr m \<Rightarrow> Inr m)))"

definition piper_build_state :: "piper_env \<Rightarrow> piper_config \<Rightarrow> piper_error + piper_state" where
  "piper_build_state env c =
     (if \<not> pe_exists env (voice_path c) then Inl (VoiceNotFound (voice_path c))
      else (case load_manifest env (resolved_manifest_path c) of
        Inl e \<Rightarrow> Inl e
      | Inr m \<Rightarrow> (case pe_session env (voice_path c) (intra_threads c) of
          Inl e \<Rightarrow> Inl (PiperOrt e)
        | Inr (names, run) \<Rightarrow> Inr \<lparr>ps_manifest = m, output_names = names, piper_run = run\<rparr>)))"

fun first_f32 :: "(string \<rightharpoonup> f32 list option) \<Rightarrow> string list \<Rightarrow> piper_error + f32 list" where
  "first_f32 outs [] = Inl (PiperOrt ''no f32 output tensor'')"
| "first_f32 outs (n # ns) = (case outs n of Some (Some d) \<Rightarrow> Inr d | _ \<Rightarrow> first_f32 outs ns)"

text \<open>\<^verbatim>\<open>sid < 0 || sid as u32 >= num_speakers\<close>: the cast keeps the low 32 bits.\<close>

definition speaker_out_of_range :: "64 word \<Rightarrow> u32 \<Rightarrow> bool" where
  "speaker_out_of_range sid n \<longleftrightarrow> sint sid < 0 \<or> n \<le> ucast sid"

definition run_synthesis :: "piper_state \<Rightarrow> string \<Rightarrow> piper_config \<Rightarrow> piper_error + f32 list" where
  "run_synthesis st s c = (case ids_for_text (phoneme_id_map (ps_manifest st)) s of
     Inl e \<Rightarrow> Inl e
   | Inr ids \<Rightarrow>
       (let sid = (case pc_speaker_id c of Some i \<Rightarrow> i | None \<Rightarrow> 0); n = num_speakers (ps_manifest st) in
        if speaker_out_of_range sid n then Inl (SpeakerOutOfRange sid n)
        else (case piper_run st \<lparr>pi_ids = ids, pi_length = length ids, pi_scales = [noise_scale c, length_scale c, noise_w c],
                pi_sid = (if 1 < n then Some sid else None)\<rparr> of
          Inl e \<Rightarrow> Inl (PiperOrt e)
        | Inr outs \<Rightarrow> first_f32 outs (output_names st))))"

text \<open>\<^verbatim>\<open>(s.clamp(-1.0, 1.0) * i16::MAX as f32) as i16\<close>; the cast drops the fraction, saturates, and maps NaN to 0.\<close>

fun f32_to_i16 :: "f32 \<Rightarrow> u16" where
  "f32_to_i16 (Fin x) = word_of_int (max (- 32768) (min 32767 (if x < 0 then - \<lfloor>- x\<rfloor> else \<lfloor>x\<rfloor>)))"
| "f32_to_i16 PInf = 32767"
| "f32_to_i16 NInf = word_of_int (- 32768)"
| "f32_to_i16 NaN = 0"

definition i16_sample :: "f32 \<Rightarrow> u16" where
  "i16_sample s = f32_to_i16 (f32_mul (fp_clamp (Fin (- 1)) (Fin 1) s) (Fin 32767))"

text \<open>\<^verbatim>\<open>slice::chunks\<close>.\<close>

function list_chunks :: "nat \<Rightarrow> 'x list \<Rightarrow> 'x list list" where
  "list_chunks k xs = (if xs = [] then [] else take (max k 1) xs # list_chunks k (drop (max k 1) xs))"
  by pat_completeness auto
termination
  by (relation "measure (\<lambda>(k, xs). length xs)") auto

declare list_chunks.simps [simp del]

definition pcm_chunk :: "string \<Rightarrow> u32 \<Rightarrow> bool \<Rightarrow> u8 list \<Rightarrow> speech_chunk" where
  "pcm_chunk rid rate fin bytes = \<lparr>sp_request_id = rid, sp_is_final = fin, audio_pcm_chunk = bytes,
     sp_params = new_audio_params rate 1 Pcm16Le, alignment = None, sp_usage = None\<rparr>"

definition pcm_f32_to_chunks :: "f32 list \<Rightarrow> string \<Rightarrow> u32 \<Rightarrow> nat \<Rightarrow> speech_chunk list" where
  "pcm_f32_to_chunks pcm rid rate k =
     (if pcm = [] then [pcm_chunk rid rate True []]
      else let num_chunks = (length pcm + k - 1) div k
           in map (\<lambda>(i, window). pcm_chunk rid rate (i + 1 = num_chunks) (concat (map (\<lambda>s. le_bytes16 (i16_sample s)) window)))
                (enumerate 0 (list_chunks k pcm)))"

definition piper_speak :: "(piper_error \<Rightarrow> string) \<Rightarrow> piper_env \<Rightarrow> piper_config \<Rightarrow> piper_state option \<Rightarrow> speech_batch \<Rightarrow>
    piper_state option \<times> speech_chunk list inference_result" where
  "piper_speak to_string env c cell b = (case get_or_try_init (piper_build_state env c) cell of
     (cell', Inl e) \<Rightarrow> (cell', Inl (piper_error_into to_string e))
   | (cell', Inr st) \<Rightarrow> (cell', case run_synthesis st (sb_text b) c of
       Inl e \<Rightarrow> Inl (piper_error_into to_string e)
     | Inr pcm \<Rightarrow> Inr (pcm_f32_to_chunks pcm (sb_request_id b) (pm_sample_rate (ps_manifest st)) (max (chunk_samples c) 1))))"

section \<open>Whisper: session\<close>

record whisper_config =
  wc_model_path :: string
  wc_language :: "string option"
  n_threads :: "u32 option"
  translate :: bool
  wc_word_timestamps :: bool
  wc_sample_rate_hz :: u32

definition default_whisper_config :: whisper_config where
  "default_whisper_config = \<lparr>wc_model_path = [], wc_language = None, n_threads = None, translate = False, wc_word_timestamps = False,
     wc_sample_rate_hz = 16000\<rparr>"

record whisper_token =
  tok_text :: "string + string"
  tok_t0 :: "64 word"
  tok_t1 :: "64 word"
  tok_p :: f32

record whisper_segment =
  seg_text :: "string + string"
  seg_start :: "64 word"
  seg_end :: "64 word"
  seg_tokens :: "whisper_token option list"

text \<open>The parameters of a run, and the segments it leaves: the number the library reports and the lookup by index.\<close>

record full_params =
  fp_threads :: "32 word option"
  fp_language :: "string option"
  fp_translate :: bool
  fp_token_timestamps :: bool

record whisper_result =
  n_segments :: int
  get_segment :: "nat \<Rightarrow> whisper_segment option"

type_synonym whisper_session = "full_params \<Rightarrow> f32 list \<Rightarrow> string + whisper_result"

definition full_params_of :: "whisper_config \<Rightarrow> full_params" where
  "full_params_of c = \<lparr>fp_threads = n_threads c, fp_language = wc_language c, fp_translate = translate c,
     fp_token_timestamps = wc_word_timestamps c\<rparr>"

text \<open>\<^verbatim>\<open>(t.max(0) as u64 * 10) as u32\<close>, centiseconds to milliseconds; the product wraps as in a release build.\<close>

definition centis_to_ms :: "64 word \<Rightarrow> u32" where
  "centis_to_ms t = ucast ((if sint t < 0 then 0 else t) * 10)"

fun extract_words :: "nat \<Rightarrow> whisper_token option list \<Rightarrow> whisper_error + word_timing list" where
  "extract_words j [] = Inr []"
| "extract_words j (None # ts) = extract_words (Suc j) ts"
| "extract_words j (Some t # ts) = (case tok_text t of
     Inl e \<Rightarrow> Inl (Backend (''token.to_str_lossy('' @ show_nat j @ ''): '' @ e))
   | Inr s \<Rightarrow> if starts_with s ''['' \<or> starts_with s ''<'' then extract_words (Suc j) ts
       else (case extract_words (Suc j) ts of
         Inl e \<Rightarrow> Inl e
       | Inr ws \<Rightarrow> Inr (\<lparr>wt_text = trim s, wt_start_ms = centis_to_ms (tok_t0 t), wt_end_ms = centis_to_ms (tok_t1 t), confidence = Some (tok_p t)\<rparr> # ws)))"

definition segment_words :: "whisper_config \<Rightarrow> whisper_segment \<Rightarrow> whisper_error + word_timing list" where
  "segment_words c sg = (if wc_word_timestamps c then extract_words 0 (seg_tokens sg) else Inr [])"

definition whisper_chunk :: "string \<Rightarrow> bool \<Rightarrow> whisper_segment \<Rightarrow> string \<Rightarrow> word_timing list \<Rightarrow> transcript_chunk" where
  "whisper_chunk rid fin sg s ws = \<lparr>tr_request_id = rid, tr_is_final = fin, tr_text = s, tr_start_ms = centis_to_ms (seg_start sg),
     tr_end_ms = centis_to_ms (seg_end sg), speaker_id = None, tr_words = ws, tr_usage = None\<rparr>"

fun segments_loop :: "whisper_config \<Rightarrow> string \<Rightarrow> whisper_result \<Rightarrow> nat list \<Rightarrow> whisper_error + transcript_chunk list" where
  "segments_loop c rid r [] = Inr []"
| "segments_loop c rid r (i # is) = (case get_segment r i of
     None \<Rightarrow> Inl (Backend (''get_segment('' @ show_nat i @ '') returned None''))
   | Some sg \<Rightarrow> (case seg_text sg of
       Inl e \<Rightarrow> Inl (Backend (''segment.to_str_lossy('' @ show_nat i @ ''): '' @ e))
     | Inr s \<Rightarrow> (case segment_words c sg of
         Inl e \<Rightarrow> Inl e
       | Inr ws \<Rightarrow> (case segments_loop c rid r is of
           Inl e \<Rightarrow> Inl e
         | Inr cs \<Rightarrow> Inr (whisper_chunk rid (int i + 1 = n_segments r) sg s ws # cs)))))"

definition transcribe :: "whisper_session \<Rightarrow> f32 list \<Rightarrow> whisper_config \<Rightarrow> string \<Rightarrow> whisper_error + transcript_chunk list" where
  "transcribe session samples c rid = (case session (full_params_of c) samples of
     Inl e \<Rightarrow> Inl (Backend (''WhisperState::full: '' @ e))
   | Inr r \<Rightarrow> if n_segments r \<le> 0
       then Inr [\<lparr>tr_request_id = rid, tr_is_final = True, tr_text = [], tr_start_ms = 0, tr_end_ms = 0, speaker_id = None, tr_words = [], tr_usage = None\<rparr>]
       else segments_loop c rid r [0..<nat (n_segments r)])"

section \<open>Whisper: runner\<close>

record whisper_env =
  we_is_file :: "string \<Rightarrow> bool"
  we_context :: "string \<Rightarrow> string + (string + whisper_session)"
  we_files :: file_system
  we_lossy :: "u8 list \<Rightarrow> string"
  we_to_string :: "whisper_error \<Rightarrow> string"

text \<open>Creating the context and then its state can both fail.\<close>

definition build_session :: "whisper_env \<Rightarrow> whisper_config \<Rightarrow> whisper_error + whisper_session" where
  "build_session env c =
     (if \<not> we_is_file env (wc_model_path c) then Inl (ModelNotFound (wc_model_path c))
      else (case we_context env (wc_model_path c) of
        Inl e \<Rightarrow> Inl (Backend (''WhisperContext::new: '' @ e))
      | Inr (Inl e) \<Rightarrow> Inl (Backend (''WhisperContext::create_state: '' @ e))
      | Inr (Inr s) \<Rightarrow> Inr s))"

text \<open>A panic in the blocking task arrives as a join error.\<close>

definition whisper_execute :: "whisper_env \<Rightarrow> whisper_config \<Rightarrow> whisper_session option \<Rightarrow> 'rx audio_batch \<Rightarrow>
    whisper_session option \<times> transcript_chunk list inference_result" where
  "whisper_execute env c cell b = (case ab_options b of
     Audio2Face _ \<Rightarrow> (cell, Inl (BadRequest (''whisper-local: AudioOptions::Audio2Face passed to an STT runner '' @ em_dash @
       '' wire the request to an A2F deployment instead'')))
   | Transcribe _ \<Rightarrow> (case ab_input b of
       Stream _ _ \<Rightarrow> (cell, Inl (whisper_error_into (we_to_string env) StreamingNotSupported))
     | Static payload \<Rightarrow> (case get_or_try_init (build_session env c) cell of
         (cell', Inl e) \<Rightarrow> (cell', Inl (whisper_error_into (we_to_string env) e))
       | (cell', Inr session) \<Rightarrow> (cell', case payload_to_f32_pcm (we_lossy env) (we_files env) payload (wc_sample_rate_hz c) of
           Inl Panic \<Rightarrow> Inl (Internal ''whisper: spawn_blocking join: task panicked'')
         | Inl (Err e) \<Rightarrow> Inl (whisper_error_into (we_to_string env) e)
         | Inr pcm \<Rightarrow> (case transcribe session pcm c (ab_request_id b) of
             Inl e \<Rightarrow> Inl (whisper_error_into (we_to_string env) e)
           | Inr chunks \<Rightarrow> Inr chunks)))))"

section \<open>Facts: single precision near integers\<close>

lemma round32_int: "\<bar>n\<bar> \<le> 16777216 \<Longrightarrow> round_fp 24 (- 149) (of_int n) = of_int n"
  using round_pos_exact [of 24 "\<bar>n\<bar>" "- 149" 0 "of_int \<bar>n\<bar>"]
  by (cases "n < 0") (simp_all add: round_fp_def)

lemma floor_small:
  assumes "\<bar>x :: rat\<bar> < 2 ^ 20"
  shows "- 1048576 \<le> \<lfloor>x\<rfloor>" "\<lfloor>x\<rfloor> < 1048576"
  using assms by (simp_all add: le_floor_iff floor_less_iff abs_less_iff)

lemma round32_floor:
  assumes "\<bar>x\<bar> < 2 ^ 20"
  shows "of_int \<lfloor>x\<rfloor> \<le> round_fp 24 (- 149) x \<and> round_fp 24 (- 149) x \<le> of_int (\<lfloor>x\<rfloor> + 1)"
proof -
  have b: "\<bar>\<lfloor>x\<rfloor>\<bar> \<le> 16777216" "\<bar>\<lfloor>x\<rfloor> + 1\<bar> \<le> 16777216" using floor_small [OF assms] by linarith+
  have "round_fp 24 (- 149) (of_int \<lfloor>x\<rfloor>) \<le> round_fp 24 (- 149) x" "round_fp 24 (- 149) x \<le> round_fp 24 (- 149) (of_int (\<lfloor>x\<rfloor> + 1))"
    by (rule round_fp_mono; simp; linarith)+
  then show ?thesis by (simp only: round32_int [OF b(1)] round32_int [OF b(2)])
qed

lemma f32_of_rat_small:
  assumes "\<bar>x\<bar> < 2 ^ 20"
  shows "f32_of_rat x = Fin (round_fp 24 (- 149) x)"
proof -
  have "of_int (\<lfloor>x\<rfloor> + 1) \<le> (of_int 1048576 :: rat)" "(of_int (- 1048576) :: rat) \<le> of_int \<lfloor>x\<rfloor>"
    unfolding of_int_le_iff using floor_small [OF assms] by simp_all
  then have "round_fp 24 (- 149) x \<le> 1048576" "- 1048576 \<le> round_fp 24 (- 149) x"
    using round32_floor [OF assms] by linarith+
  then show ?thesis by (simp add: f32_of_rat_def Let_def)
qed

lemma rne_error: "\<bar>of_int (rne x) - x\<bar> \<le> 1 / 2"
  using floor_correct [of x] by (auto simp: rne_def Let_def abs_le_iff)

lemma round32_error:
  assumes "\<bar>x\<bar> \<le> 1"
  shows "\<bar>round_fp 24 (- 149) x - x\<bar> \<le> 1 / 16777216"
proof -
  have pos: "\<bar>round_pos 24 (- 149) y - y\<bar> \<le> 1 / 16777216" if y: "0 < y" "y \<le> 1" for y :: rat
  proof -
    have "ilog2 (1 :: rat) = 0" by (rule ilog2_unique) simp_all
    then have "ilog2 y \<le> 0" using ilog2_mono [OF y] by simp
    then have u: "ulp_exp 24 (- 149) y \<le> - 23" by (simp add: ulp_exp_def)
    let ?e = "(2 :: rat) powi ulp_exp 24 (- 149) y"
    have e: "0 < ?e" by simp
    have e23: "?e \<le> 2 powi (- 23)" using u by (rule powi_le_mono)
    have "round_pos 24 (- 149) y - y = (of_int (rne (y / ?e)) - y / ?e) * ?e"
      using y e by (simp add: round_pos_def field_simps)
    then have "\<bar>round_pos 24 (- 149) y - y\<bar> \<le> 1 / 2 * ?e"
      using rne_error [of "y / ?e"] e by (simp add: abs_mult mult_right_mono del: times_divide_eq_left)
    also have "\<dots> \<le> 1 / 2 * 2 powi (- 23)" using e23 by (simp only: mult_left_mono)
    also have "\<dots> = 1 / 16777216" by (simp add: power_int_minus)
    finally show ?thesis .
  qed
  consider "x = 0" | "0 < x" | "x < 0" by linarith
  then show ?thesis
  proof cases
    case 3
    then have "round_fp 24 (- 149) x - x = - (round_pos 24 (- 149) (- x) - (- x))" by (simp add: round_fp_def)
    then show ?thesis using pos [of "- x"] assms 3 by (simp only: abs_minus_cancel)
  qed (use pos [of x] assms in \<open>simp_all add: round_fp_def round_pos_def [of _ _ 0]\<close>)
qed

section \<open>Facts: samples\<close>

lemma sint_i16: "- 32768 \<le> i \<Longrightarrow> i \<le> 32767 \<Longrightarrow> sint (word_of_int i :: u16) = i"
  by (simp add: sint_sbintrunc' signed_take_bit_int_eq_self)

lemma truncation_between:
  assumes "of_int n \<le> x" "x \<le> (of_int (n + 1) :: rat)"
  shows "n \<le> (if x < 0 then - \<lfloor>- x\<rfloor> else \<lfloor>x\<rfloor>) \<and> (if x < 0 then - \<lfloor>- x\<rfloor> else \<lfloor>x\<rfloor>) \<le> n + 1"
  using assms by (auto simp: le_floor_iff floor_le_iff le_minus_iff [of n]) linarith+

lemma i16_sample_near:
  assumes "\<bar>c\<bar> \<le> 1"
  shows "\<exists>i. f32_to_i16 (f32_mul (Fin c) (Fin 32767)) = word_of_int i \<and> \<bar>i\<bar> \<le> 32767 \<and> \<bar>of_int i - c * 32767\<bar> \<le> 1"
proof -
  define x where "x = c * 32767"
  let ?r = "round_fp 24 (- 149) x"
  have x: "\<bar>x\<bar> \<le> 32767" using assms by (simp add: x_def abs_mult)
  then have small: "\<bar>x\<bar> < 2 ^ 20" by simp
  define i where "i = (if ?r < 0 then - \<lfloor>- ?r\<rfloor> else \<lfloor>?r\<rfloor>)"
  have t: "\<lfloor>x\<rfloor> \<le> i" "i \<le> \<lfloor>x\<rfloor> + 1"
    using truncation_between [of "\<lfloor>x\<rfloor>" ?r] round32_floor [OF small] unfolding i_def by auto
  have "round_fp 24 (- 149) (of_int (- 32767)) \<le> ?r" "?r \<le> round_fp 24 (- 149) (of_int 32767)"
    using x by (intro round_fp_mono; simp; linarith)+
  then have r: "- 32767 \<le> ?r" "?r \<le> 32767" using round32_int [of "- 32767"] round32_int [of 32767] by simp_all
  then have i: "\<bar>i\<bar> \<le> 32767" unfolding i_def by (auto simp: le_floor_iff floor_le_iff)
  have "f32_to_i16 (f32_mul (Fin c) (Fin 32767)) = word_of_int i"
    using i by (simp add: x_def [symmetric] f32_of_rat_small [OF small] i_def)
  moreover have "\<bar>of_int i - x\<bar> \<le> 1" using t by linarith
  ultimately show ?thesis using i unfolding x_def by blast
qed

text \<open>A sample is near what the decoder makes of its 16 bits.\<close>

definition near_sample :: "f32 \<Rightarrow> f32 \<Rightarrow> bool" where
  "near_sample s d \<longleftrightarrow> (case fp_clamp (Fin (- 1)) (Fin 1) s of
     Fin c \<Rightarrow> (case d of Fin x \<Rightarrow> \<bar>x - c\<bar> \<le> 1 / 32000 | _ \<Rightarrow> False) | _ \<Rightarrow> d = Fin 0)"

lemma f32_of_int:
  assumes "\<bar>n\<bar> \<le> 32767"
  shows "f32_of_rat (of_int n) = Fin (of_int n)"
proof -
  have "\<bar>of_int n :: rat\<bar> \<le> 32767" using assms by (simp flip: of_int_abs)
  then show ?thesis using f32_of_rat_small [of "of_int n"] round32_int [of n] assms by simp
qed

lemma pcm16_sample_int:
  assumes "\<bar>i\<bar> \<le> 32767"
  shows "pcm16_sample (word_of_int i) = Fin (round_fp 24 (- 149) (of_int i / 32767))"
proof -
  have i: "sint (word_of_int i :: u16) = i" using assms by (intro sint_i16) auto
  have "\<bar>of_int i :: rat\<bar> \<le> 32767" using assms by (simp flip: of_int_abs)
  then have "\<bar>of_int i / 32767 :: rat\<bar> < 2 ^ 20" by simp
  from f32_of_rat_small [OF this] show ?thesis
    using f32_of_int [OF assms] f32_of_int [of 32767] unfolding pcm16_sample_def i by simp
qed

lemma near_i16_sample: "near_sample s (pcm16_sample (i16_sample s))"
proof (cases "fp_clamp (Fin (- 1)) (Fin 1) s")
  case (Fin c)
  then have c: "\<bar>c\<bar> \<le> 1" by (cases s) (auto simp: fp_clamp_def split: if_splits)
  obtain i where i: "i16_sample s = word_of_int i" "\<bar>i\<bar> \<le> 32767" "\<bar>of_int i - c * 32767\<bar> \<le> 1"
    using i16_sample_near [OF c] Fin unfolding i16_sample_def by auto
  have "\<bar>of_int i :: rat\<bar> \<le> 32767" using i(2) by (simp flip: of_int_abs)
  then have "\<bar>of_int i / 32767 :: rat\<bar> \<le> 1" by simp
  from round32_error [OF this] have "\<bar>round_fp 24 (- 149) (of_int i / 32767) - of_int i / 32767\<bar> \<le> 1 / 16777216" .
  moreover have "\<bar>of_int i / 32767 - c\<bar> \<le> 1 / 32767" using i(3) by (simp add: abs_le_iff field_simps)
  ultimately have "\<bar>round_fp 24 (- 149) (of_int i / 32767) - c\<bar> \<le> 1 / 32000" by linarith
  then show ?thesis using Fin by (simp add: near_sample_def i(1) pcm16_sample_int [OF i(2)])
next
  case NaN
  have "pcm16_sample 0 = Fin 0" using pcm16_sample_int [of 0] round32_int [of 0] by simp
  then show ?thesis using NaN by (simp add: near_sample_def i16_sample_def)
qed (auto simp: fp_clamp_def split: if_splits)

section \<open>Facts: chunks\<close>

lemma list_chunks_Nil [simp]: "list_chunks k [] = []"
  by (simp add: list_chunks.simps)

lemma list_chunks_step: "xs \<noteq> [] \<Longrightarrow> list_chunks k xs = take (max k 1) xs # list_chunks k (drop (max k 1) xs)"
  by (subst list_chunks.simps) simp

lemma list_chunks_concat: "concat (list_chunks k xs) = xs"
proof (induction k xs rule: list_chunks.induct)
  case (1 k xs)
  then show ?case by (cases "xs = []") (simp_all add: list_chunks_step)
qed

lemma list_chunks_length: "0 < k \<Longrightarrow> length (list_chunks k xs) = (length xs + k - 1) div k"
proof (induction k xs rule: list_chunks.induct)
  case (1 k xs)
  show ?case
  proof (cases "xs = []")
    case False
    have k: "max k 1 = k" using 1(2) by simp
    have IH: "length (list_chunks k (drop k xs)) = (length xs - k + k - 1) div k" using 1(1) [OF False 1(2)] unfolding k by simp
    show ?thesis
    proof (cases "k \<le> length xs")
      case True
      then have "length xs + k - 1 = (length xs - 1) + k" "length xs - k + k - 1 = length xs - 1" using 1(2) by simp_all
      then have "(length xs + k - 1) div k = Suc ((length xs - k + k - 1) div k)"
        using 1(2) by (simp only: div_add_self2)
      then show ?thesis using IH list_chunks_step [OF False, of k] unfolding k by (simp only: list.size)
    next
      case f: False
      then have "(length xs + k - 1) div k = 1" using False 1(2)
        by (cases xs) (auto intro: div_nat_eqI)
      then show ?thesis using f False by (simp add: list_chunks_step k)
    qed
  qed (use 1 in simp)
qed

lemma last_only: "0 < n \<Longrightarrow> map (\<lambda>i. i + 1 = n) [0..<n] = replicate (n - 1) False @ [True]"
  by (rule nth_equalityI) (auto simp: nth_append)

lemma pcm_chunks_audio:
  "concat (map audio_pcm_chunk (pcm_f32_to_chunks pcm rid rate k)) = concat (map (\<lambda>s. le_bytes16 (i16_sample s)) pcm)"
proof -
  have f: "concat (map (\<lambda>w. concat (map f w)) ws) = concat (map f (concat ws))" for f :: "f32 \<Rightarrow> u8 list" and ws
    by (induction ws) simp_all
  have e: "map (\<lambda>p. g (snd p)) (enumerate n ws) = map g ws" for g :: "f32 list \<Rightarrow> u8 list" and n ws
    by (induction ws arbitrary: n) simp_all
  show ?thesis
    by (auto simp: pcm_f32_to_chunks_def Let_def pcm_chunk_def comp_def case_prod_unfold e [of "\<lambda>w. concat (map (\<lambda>s. le_bytes16 (i16_sample s)) w)"] f list_chunks_concat)
qed

lemma pcm_chunks_final:
  assumes "0 < k"
  shows "\<exists>n. map sp_is_final (pcm_f32_to_chunks pcm rid rate k) = replicate n False @ [True]"
proof (cases "pcm = []")
  case False
  let ?n = "(length pcm + k - 1) div k"
  have "0 < ?n" using False assms by (cases pcm) (simp_all add: div_greater_zero_iff)
  moreover have "map (\<lambda>(i, w). i + 1 = ?n) (enumerate 0 (list_chunks k pcm)) = map (\<lambda>i. i + 1 = ?n) [0..<?n]"
    using list_chunks_length [OF assms, of pcm] by (intro nth_equalityI) (auto simp: nth_enumerate_eq case_prod_unfold)
  ultimately show ?thesis using False last_only [of ?n]
    by (intro exI [of _ "?n - 1"]) (simp add: pcm_f32_to_chunks_def Let_def pcm_chunk_def case_prod_unfold comp_def)
qed (auto simp: pcm_f32_to_chunks_def pcm_chunk_def)

lemma pcm_chunks_params:
  "c \<in> set (pcm_f32_to_chunks pcm rid rate k) \<Longrightarrow> sp_params c = new_audio_params rate 1 Pcm16Le \<and> sp_request_id c = rid"
  by (auto simp: pcm_f32_to_chunks_def Let_def pcm_chunk_def split: if_splits)

section \<open>Facts: phonemes, speakers and transcripts\<close>

lemma str_chars_concat: "concat (str_chars s) = s"
  by (induction s rule: str_chars.induct) simp_all

lemma phoneme_loop_ids:
  "phoneme_loop m pad out ks = Inr ids \<longleftrightarrow> (\<forall>k \<in> set ks. m k \<noteq> None) \<and> ids = out @ concat (map (\<lambda>k. the (m k) @ pad) ks)"
  by (induction ks arbitrary: out) (auto split: option.splits)

text \<open>The speaker test sees the low 32 bits of the number only.\<close>

lemma speaker_out_of_range_iff:
  "speaker_out_of_range sid n \<longleftrightarrow> sint sid < 0 \<or> unat n \<le> unat sid mod 2 ^ 32"
  by (simp add: speaker_out_of_range_def word_le_nat_alt unsigned_ucast_eq take_bit_eq_mod)

lemma speaker_test_truncates: "\<not> speaker_out_of_range (word_of_int (2 ^ 32)) 1"
  by (simp add: speaker_out_of_range_iff)

lemma centis_to_ms_exact:
  assumes "0 \<le> sint t" "sint t < 429496729"
  shows "uint (centis_to_ms t) = 10 * sint t"
proof -
  have "uint t = sint t" using assms by (simp add: uint_sint take_bit_eq_mod)
  then show ?thesis using assms by (simp add: centis_to_ms_def uint_word_ariths unsigned_ucast_eq take_bit_eq_mod mult.commute)
qed

text \<open>A chunk carries a segment: its text, its times and the words the configuration asks for.\<close>

definition carries_segment :: "whisper_config \<Rightarrow> string \<Rightarrow> whisper_segment option \<Rightarrow> transcript_chunk \<Rightarrow> bool" where
  "carries_segment c rid s ch \<longleftrightarrow> (case s of None \<Rightarrow> False
   | Some sg \<Rightarrow> tr_request_id ch = rid \<and> seg_text sg = Inr (tr_text ch) \<and> tr_start_ms ch = centis_to_ms (seg_start sg) \<and>
       tr_end_ms ch = centis_to_ms (seg_end sg) \<and> segment_words c sg = Inr (tr_words ch))"

lemma segments_loop_chunks:
  "segments_loop c rid r is = Inr chs \<Longrightarrow>
     list_all2 (carries_segment c rid) (map (get_segment r) is) chs \<and> map tr_is_final chs = map (\<lambda>i. int i + 1 = n_segments r) is"
  by (induction "is" arbitrary: chs) (auto simp: carries_segment_def whisper_chunk_def split: option.splits sum.splits)

lemma transcribe_chunks:
  assumes "transcribe session samples c rid = Inr chs" "session (full_params_of c) samples = Inr r"
  shows "map tr_is_final chs = replicate (length chs - 1) False @ [True] \<and>
    (if n_segments r \<le> 0 then map tr_text chs = [[]] else list_all2 (carries_segment c rid) (map (get_segment r) [0..<nat (n_segments r)]) chs)"
proof (cases "n_segments r \<le> 0")
  case False
  then have "segments_loop c rid r [0..<nat (n_segments r)] = Inr chs" using assms by (simp add: transcribe_def)
  note l = segments_loop_chunks [OF this]
  have "(\<lambda>i. int i + 1 = n_segments r) = (\<lambda>i. i + 1 = nat (n_segments r))" by (rule ext) linarith
  then have "map tr_is_final chs = replicate (nat (n_segments r) - 1) False @ [True]"
    using l last_only [of "nat (n_segments r)"] False by simp
  moreover have "length chs = nat (n_segments r)" using l by (auto dest: list_all2_lengthD)
  ultimately show ?thesis using False l by simp
qed (use assms in \<open>auto simp: transcribe_def\<close>)

section \<open>Properties\<close>

text \<open>C21: what Piper says, Whisper hears.  When a voice at 16 kHz speaks, exactly the last of its chunks is final, and the bytes of the
  chunks put together are a payload that the Whisper front end decodes to as many samples as the
  voice produced, each within 1/32000 of the sample clamped to the range from -1 to 1 (not-a-number becomes
  silence); every rounding of the multiplication, the truncation to 16 bits and the division is counted.\<close>

theorem piper_heard_by_whisper:
  assumes "piper_speak to_string env c cell b = (Some st, Inr chs)" and "pm_sample_rate (ps_manifest st) = 16000"
  shows "\<exists>pcm ds n. run_synthesis st (sb_text b) c = Inr pcm \<and> map sp_is_final chs = replicate n False @ [True] \<and>
    payload_to_f32_pcm lossy fs (Bytes (concat (map audio_pcm_chunk chs)) (sp_params (last chs))) 16000 = Inr ds \<and>
    list_all2 near_sample pcm ds"
proof -
  obtain pcm where pcm: "run_synthesis st (sb_text b) c = Inr pcm"
    and chs: "chs = pcm_f32_to_chunks pcm (sb_request_id b) 16000 (max (chunk_samples c) 1)"
    using assms by (auto simp: piper_speak_def get_or_try_init_def split: option.splits sum.splits)
  obtain n where n: "map sp_is_final chs = replicate n False @ [True]"
    using pcm_chunks_final [of "max (chunk_samples c) 1" pcm "sb_request_id b" 16000] unfolding chs by (auto simp: less_max_iff_disj)
  then have "chs \<noteq> []" by auto
  then have p: "sp_params (last chs) = new_audio_params 16000 1 Pcm16Le"
    using pcm_chunks_params [OF last_in_set] unfolding chs by blast
  have "payload_to_f32_pcm lossy fs (Bytes (concat (map audio_pcm_chunk chs)) (sp_params (last chs))) 16000 = Inr (map (\<lambda>s. pcm16_sample (i16_sample s)) pcm)"
    using pcm16_samples_bytes [of "map i16_sample pcm"] length_le_bytes16 [of "map i16_sample pcm"]
    unfolding p by (simp add: chs pcm_chunks_audio check_params_def new_audio_params_def decode_bytes_def decode_pcm16_def comp_def)
  moreover have "list_all2 near_sample pcm (map (\<lambda>s. pcm16_sample (i16_sample s)) pcm)"
    by (simp add: list_all2_map2 near_i16_sample list.rel_refl_strong)
  ultimately show ?thesis using pcm n by blast
qed

definition demo_voice :: piper_state where
  "demo_voice = \<lparr>ps_manifest = \<lparr>pm_sample_rate = 16000, phoneme_id_map = [''h'' \<mapsto> [10], ''i'' \<mapsto> [14]], num_symbols = 2, num_speakers = 1, espeak_voice = None\<rparr>,
     output_names = [''output''], piper_run = (\<lambda>_. Inr [''output'' \<mapsto> Some [Fin 0, Fin 2, NaN]])\<rparr>"

definition demo_piper :: piper_config where
  "demo_piper = \<lparr>voice_path = ''v.onnx'', voice_manifest_path = None, pc_speaker_id = None, length_scale = Fin 1, noise_scale = Fin 1, noise_w = Fin 1,
     chunk_samples = 2, intra_threads = None\<rparr>"

definition demo_speech :: speech_batch where
  "demo_speech = \<lparr>sb_request_id = ''r'', sb_model = ''v'', sb_text = ''hi'', sb_voice = Named ''v'', sb_options = default_synth_options,
     sb_stream = True, emit_alignment = False, estimated_characters = 2\<rparr>"

definition demo_env_piper :: piper_env where
  "demo_env_piper = \<lparr>pe_exists = (\<lambda>_. False), pe_read = (\<lambda>_. Inl []), pe_manifest_json = (\<lambda>_. Inl []), pe_session = (\<lambda>_ _. Inl [])\<rparr>"

lemma demo_voice_speaks:
  "run_synthesis demo_voice ''hi'' demo_piper = Inr [Fin 0, Fin 2, NaN]"
  "piper_speak (\<lambda>_. []) demo_env_piper demo_piper (Some demo_voice) demo_speech = (Some demo_voice, Inr (pcm_f32_to_chunks [Fin 0, Fin 2, NaN] ''r'' 16000 2))"
proof -
  show "run_synthesis demo_voice ''hi'' demo_piper = Inr [Fin 0, Fin 2, NaN]"
    by (simp add: run_synthesis_def demo_voice_def demo_piper_def ids_for_text_def is_continuation_def byte_of_def speaker_out_of_range_def)
  then show "piper_speak (\<lambda>_. []) demo_env_piper demo_piper (Some demo_voice) demo_speech = (Some demo_voice, Inr (pcm_f32_to_chunks [Fin 0, Fin 2, NaN] ''r'' 16000 2))"
    by (simp add: piper_speak_def get_or_try_init_def demo_speech_def) (simp add: demo_voice_def demo_piper_def numeral_2_eq_2)
qed

theorem piper_heard_by_whisper_witness:
  "\<exists>ds. payload_to_f32_pcm (\<lambda>_. []) (\<lambda>_. Inl NotFound) (Bytes (concat (map audio_pcm_chunk (pcm_f32_to_chunks [Fin 0, Fin 2, NaN] ''r'' 16000 2)))
      (sp_params (last (pcm_f32_to_chunks [Fin 0, Fin 2, NaN] ''r'' 16000 2)))) 16000 = Inr ds \<and> list_all2 near_sample [Fin 0, Fin 2, NaN] ds"
  using piper_heard_by_whisper [OF demo_voice_speaks(2), of "\<lambda>_. []" "\<lambda>_. Inl NotFound"] demo_voice_speaks(1)
  by (auto simp: demo_speech_def demo_voice_def)

text \<open>C22: a local transcription is the segments of the model.  When the runner answers, the payload decoded and the model ran on
  exactly those samples; the chunks are its segments in order, with their texts, times and words (one empty chunk if there are none),
  and the last chunk, and only it, is final.\<close>

theorem whisper_transcript_faithful:
  fixes b :: "'rx audio_batch"
  assumes "whisper_execute env c cell b = (Some session, Inr chs)" and "ab_input b = Static payload"
  shows "\<exists>pcm r. payload_to_f32_pcm (we_lossy env) (we_files env) payload (wc_sample_rate_hz c) = Inr pcm \<and>
    session (full_params_of c) pcm = Inr r \<and> map tr_is_final chs = replicate (length chs - 1) False @ [True] \<and>
    (if n_segments r \<le> 0 then map tr_text chs = [[]]
     else list_all2 (carries_segment c (ab_request_id b)) (map (get_segment r) [0..<nat (n_segments r)]) chs)"
proof -
  obtain pcm where pcm: "payload_to_f32_pcm (we_lossy env) (we_files env) payload (wc_sample_rate_hz c) = Inr pcm"
    and t: "transcribe session pcm c (ab_request_id b) = Inr chs"
    using assms by (auto simp: whisper_execute_def get_or_try_init_def split: option.splits sum.splits audio_options.splits fault.splits)
  from t obtain r where "session (full_params_of c) pcm = Inr r" by (auto simp: transcribe_def split: sum.splits)
  with transcribe_chunks [OF t this] pcm show ?thesis by blast
qed

definition demo_segment :: "string \<Rightarrow> 64 word \<Rightarrow> 64 word \<Rightarrow> whisper_segment" where
  "demo_segment s t0 t1 = \<lparr>seg_text = Inr s, seg_start = t0, seg_end = t1,
     seg_tokens = [Some \<lparr>tok_text = Inr ''[_BEG_]'', tok_t0 = 0, tok_t1 = 0, tok_p = Fin 1\<rparr>, None, Some \<lparr>tok_text = Inr s, tok_t0 = t0, tok_t1 = t1, tok_p = Fin 1\<rparr>]\<rparr>"

definition demo_session :: whisper_session where
  "demo_session ps samples = Inr \<lparr>n_segments = 2, get_segment = (\<lambda>i. Some (demo_segment (if i = 0 then ''hi'' else ''you'') (of_nat i) (of_nat i + 1)))\<rparr>"

definition demo_audio :: "unit audio_batch" where
  "demo_audio = \<lparr>ab_request_id = ''r'', ab_model = ''w'', ab_input = Static (Bytes [0, 0] (new_audio_params 16000 1 Pcm16Le)), ab_stream = False,
     ab_options = Transcribe default_transcribe_options, estimated_units = 0\<rparr>"

definition demo_whisper_env :: whisper_env where
  "demo_whisper_env = \<lparr>we_is_file = (\<lambda>_. True), we_context = (\<lambda>_. Inr (Inr demo_session)), we_files = (\<lambda>_. Inl NotFound), we_lossy = (\<lambda>_. []), we_to_string = (\<lambda>_. [])\<rparr>"

definition demo_chunks :: "transcript_chunk list" where
  "demo_chunks = [whisper_chunk ''r'' False (demo_segment ''hi'' 0 1) ''hi'' [], whisper_chunk ''r'' True (demo_segment ''you'' 1 2) ''you'' []]"

lemma demo_transcribe: "transcribe demo_session samples default_whisper_config ''r'' = Inr demo_chunks"
proof -
  have "seg_text (demo_segment s t0 t1) = Inr s" for s t0 t1 by (simp add: demo_segment_def)
  moreover have "segment_words default_whisper_config sg = Inr []" for sg by (simp add: segment_words_def default_whisper_config_def)
  ultimately show ?thesis
    by (simp add: transcribe_def demo_session_def demo_chunks_def upt_conv_Cons numeral_2_eq_2)
qed

lemma demo_whisper_runs:
  "whisper_execute demo_whisper_env default_whisper_config None demo_audio = (Some demo_session, Inr demo_chunks)"
proof -
  have "build_session demo_whisper_env default_whisper_config = Inr demo_session" by (simp add: build_session_def demo_whisper_env_def)
  moreover have "payload_to_f32_pcm l fs (Bytes [0, 0] (new_audio_params 16000 1 Pcm16Le)) (wc_sample_rate_hz default_whisper_config) = Inr [pcm16_sample (u16_from_le_bytes 0 0)]" for l fs
    by (simp add: check_params_def new_audio_params_def default_whisper_config_def decode_bytes_def decode_pcm16_def)
  ultimately show ?thesis by (simp add: whisper_execute_def demo_audio_def get_or_try_init_def demo_transcribe del: payload_to_f32_pcm.simps)
qed

theorem whisper_transcript_faithful_witness:
  "map tr_is_final demo_chunks = replicate (length demo_chunks - 1) False @ [True] \<and> map tr_text demo_chunks = [''hi'', ''you'']"
proof -
  have i: "ab_input demo_audio = Static (Bytes [0, 0] (new_audio_params 16000 1 Pcm16Le))" by (simp add: demo_audio_def)
  have "map tr_is_final demo_chunks = replicate (length demo_chunks - 1) False @ [True]"
    using whisper_transcript_faithful [OF demo_whisper_runs i] by blast
  then show ?thesis by (simp add: demo_chunks_def whisper_chunk_def)
qed

end
