(* ===== verification/Provider_LiteLlm.thy ===== *)
theory Provider_LiteLlm
  imports Provider_OpenAi Session
begin

text \<open>
  The LiteLLM runner, \<^verbatim>\<open>inference-runtime-litellm/src/lib.rs\<close>, an OpenAI runner behind another configuration, and the configuration of
  the OpenAI runner itself, \<^verbatim>\<open>inference-runtime-openai/src/config.rs\<close>.
\<close>

datatype secret_ref = SecretEnv string | SecretFile string | SecretInline string

definition default_rate_limits :: rate_limits where
  "default_rate_limits = \<lparr>requests_per_minute = None, tokens_per_minute = None, concurrent_requests = None, strict = False\<rparr>"

record openai_config =
  oc_variant :: openai_variant
  oc_api_key :: secret_ref
  oc_organization :: "string option"
  oc_project :: "string option"
  oc_rate_limits :: rate_limits
  oc_retry :: retry_policy
  oc_circuit_breaker :: circuit_breaker_config
  oc_timeouts :: timeouts

definition defaults_for_openai :: "secret_ref \<Rightarrow> openai_config" where
  "defaults_for_openai key = \<lparr>oc_variant = Direct ''https://api.openai.com/v1/'', oc_api_key = key, oc_organization = None, oc_project = None,
     oc_rate_limits = default_rate_limits, oc_retry = default_retry_policy, oc_circuit_breaker = default_circuit_breaker_config, oc_timeouts = default_timeouts\<rparr>"

definition with_endpoint :: "string \<Rightarrow> openai_config \<Rightarrow> openai_config" where
  "with_endpoint endpoint c = (case oc_variant c of Direct _ \<Rightarrow> c\<lparr>oc_variant := Direct endpoint\<rparr> | _ \<Rightarrow> c)"

definition openai_new :: "('b, 'ev, 'r, 'eb) http_env \<Rightarrow> openai_config \<Rightarrow> openai_runner inference_result" where
  "openai_new env c = (case chat_completions_url env (oc_variant c) of
     Inl e \<Rightarrow> Inl (Internal (''openai endpoint url: '' @ e))
   | Inr u \<Rightarrow> Inr \<lparr>or_chat_url = u, or_organization = oc_organization c, or_project = oc_project c\<rparr>)"

record litellm_config =
  ll_endpoint :: string
  ll_api_key :: secret_ref
  ll_rate_limits :: rate_limits
  ll_retry :: retry_policy
  ll_circuit_breaker :: circuit_breaker_config
  ll_timeouts :: timeouts

definition default_litellm_retry :: retry_policy where
  "default_litellm_retry = default_retry_policy\<lparr>max_retries := 1\<rparr>"

definition into_openai :: "litellm_config \<Rightarrow> secret_ref \<Rightarrow> openai_config" where
  "into_openai c key = \<lparr>oc_variant = Direct (ll_endpoint c), oc_api_key = key, oc_organization = None, oc_project = None,
     oc_rate_limits = ll_rate_limits c, oc_retry = ll_retry c, oc_circuit_breaker = ll_circuit_breaker c, oc_timeouts = ll_timeouts c\<rparr>"

record litellm_runner =
  ll_inner :: openai_runner
  ll_limits :: rate_limits

definition litellm_new :: "('b, 'ev, 'r, 'eb) http_env \<Rightarrow> openai_config \<Rightarrow> litellm_runner inference_result" where
  "litellm_new env c = (case openai_new env c of Inl e \<Rightarrow> Inl e | Inr r \<Rightarrow> Inr \<lparr>ll_inner = r, ll_limits = oc_rate_limits c\<rparr>)"

definition litellm_execute :: "('n chat_request, 'j chat_chunk, 'n chat_response, openai_error_body) http_env \<Rightarrow>
    (content_part list \<Rightarrow> 'n json option) \<Rightarrow> litellm_runner \<Rightarrow> string \<Rightarrow> execute_batch \<Rightarrow> (inference_error + 'j token_chunk) list inference_result" where
  "litellm_execute env to_value r token b = openai_execute env to_value (ll_inner r) token b"

definition litellm_estimate_cost_usd :: "execute_batch \<Rightarrow> f64" where
  "litellm_estimate_cost_usd b = openai_estimate_cost_usd b"

section \<open>Facts\<close>

text \<open>A LiteLLM request goes to the chat route below the configured endpoint, without organization or project headers.\<close>

lemma litellm_request_target:
  assumes "litellm_new env (into_openai c key) = Inr r" "url_join env (ll_endpoint c) ''chat/completions'' = Inr u"
  shows "or_chat_url (ll_inner r) = u" "openai_auth_headers env (ll_inner r) token = (case header_value env (''Bearer '' @ token) of
     Inl e \<Rightarrow> Inl (Internal (''invalid bearer token: '' @ e)) | Inr v \<Rightarrow> Inr [(''authorization'', v)])"
  using assms by (auto simp: litellm_new_def openai_new_def into_openai_def openai_auth_headers_def opt_header_def split: sum.splits)

lemma with_endpoint_url:
  "oc_variant c = Direct e \<Longrightarrow> chat_completions_url env (oc_variant (with_endpoint e' c)) = url_join env e' ''chat/completions''"
  by (simp add: with_endpoint_def)

end
