(* ===== verification/Local_Runners.thy ===== *)
theory Local_Runners
  imports Ort_Model Event_Loop Control_Plane Local_Speech
begin

text \<open>
  The remaining local text backends.  mistral.rs, \<^verbatim>\<open>inference-runtime-mistralrs/src/lib.rs\<close>: what the engine's stream yields is given, the task
  that translates it is modelled.  TensorRT, \<^verbatim>\<open>inference-runtime-tensorrt/src/lib.rs\<close>: the life of the plan and the engine; file
  system, CUDA and the TensorRT library are fields of an environment.  Candle and cudarc are placeholders that always refuse.
\<close>

section \<open>mistral.rs\<close>

record mistral_config =
  mc_model_id :: string
  mc_quant :: "string option"
  hf_revision :: "string option"
  force_cpu :: bool
  mc_max_num_seqs :: "nat option"

record 'q mistral_builder =
  mb_model_id :: string
  mb_force_cpu :: bool
  mb_revision :: "string option"
  mb_max_num_seqs :: "nat option"
  mb_isq :: "'q option"

definition mistral_build :: "(string \<Rightarrow> string + 'q) \<Rightarrow> ('q mistral_builder \<Rightarrow> string + 'm) \<Rightarrow> mistral_config \<Rightarrow> 'm inference_result" where
  "mistral_build parse_isq build c =
     (let b = \<lparr>mb_model_id = mc_model_id c, mb_force_cpu = force_cpu c, mb_revision = hf_revision c, mb_max_num_seqs = mc_max_num_seqs c, mb_isq = None\<rparr>;
          finish = (\<lambda>b. case build b of
              Inl e \<Rightarrow> Inl (Internal (''mistralrs: failed to build model '' @ [CHR 0x27] @ mc_model_id c @ [CHR 0x27] @ '': '' @ e))
            | Inr m \<Rightarrow> Inr m)
      in case mc_quant c of
           None \<Rightarrow> finish b
         | Some q \<Rightarrow> (case parse_isq q of
             Inl e \<Rightarrow> Inl (Internal (''mistralrs: bad quant '' @ [CHR 0x27] @ q @ [CHR 0x27] @ '': '' @ e))
           | Inr isq \<Rightarrow> finish (b\<lparr>mb_isq := Some isq\<rparr>)))"

text \<open>What the engine's stream yields.  A choice of a chunk has a text and a finish reason, either of which may be missing.\<close>

record mistral_choice =
  mch_content :: "string option"
  mch_finish :: "string option"

datatype mistral_response =
    MrChunk "mistral_choice list"
  | MrDone nat nat "string list"
  | ModelError string
  | EngineInternalError string
  | ValidationError string
  | OtherResponse

definition mistral_finish_reason :: "string \<Rightarrow> finish_reason" where
  "mistral_finish_reason s = (if s = ''length'' then finish_reason.Length else if s = ''tool_calls'' then finish_reason.ToolCalls
     else if s = ''content_filter'' then finish_reason.ContentFilter else finish_reason.Stop)"

definition first_choice :: "'x list \<Rightarrow> 'x option" where
  "first_choice xs = (case xs of [] \<Rightarrow> None | x # _ \<Rightarrow> Some x)"

definition mistral_chunk :: "string \<Rightarrow> mistral_choice list \<Rightarrow> 'j token_chunk" where
  "mistral_chunk rid choices =
     \<lparr>tc_request_id = rid,
      text_delta = (case Option.bind (first_choice choices) mch_content of Some s \<Rightarrow> s | None \<Rightarrow> []),
      tool_call_delta = None, tc_usage = None,
      tc_finish_reason = map_option mistral_finish_reason (Option.bind (first_choice choices) mch_finish)\<rparr>"

definition mistral_done :: "string \<Rightarrow> nat \<Rightarrow> nat \<Rightarrow> string list \<Rightarrow> 'j token_chunk" where
  "mistral_done rid np nc fins =
     \<lparr>tc_request_id = rid, text_delta = [], tool_call_delta = None,
      tc_usage = Some (default_token_usage\<lparr>input_tokens := word_of_nat np, output_tokens := word_of_nat nc\<rparr>),
      tc_finish_reason = (case first_choice fins of Some s \<Rightarrow> Some (mistral_finish_reason s) | None \<Rightarrow> Some finish_reason.Stop)\<rparr>"

fun mistral_loop :: "(nat \<Rightarrow> bool) \<Rightarrow> string \<Rightarrow> (inference_error + 'j token_chunk) list \<Rightarrow> mistral_response list \<Rightarrow> (inference_error + 'j token_chunk) list" where
  "mistral_loop alive rid out [] = out"
| "mistral_loop alive rid out (MrChunk choices # rs) = (case rt_send alive (Inr (mistral_chunk rid choices)) out of
     (True, out') \<Rightarrow> mistral_loop alive rid out' rs | (False, out') \<Rightarrow> out')"
| "mistral_loop alive rid out (MrDone p c fins # _) = snd (rt_send alive (Inr (mistral_done rid p c fins)) out)"
| "mistral_loop alive rid out (ModelError m # _) = snd (rt_send alive (Inl (Internal (''mistralrs model error: '' @ m))) out)"
| "mistral_loop alive rid out (EngineInternalError e # _) = snd (rt_send alive (Inl (Internal (''mistralrs error: '' @ e))) out)"
| "mistral_loop alive rid out (ValidationError e # _) = snd (rt_send alive (Inl (Internal (''mistralrs error: '' @ e))) out)"
| "mistral_loop alive rid out (OtherResponse # _) = snd (rt_send alive (Inl (Internal ''mistralrs: unexpected response variant'')) out)"

definition mistral_messages :: "Core_Types.message list \<Rightarrow> (role \<times> string) list" where
  "mistral_messages ms = map (\<lambda>m. (role m, message_text m)) ms"

definition mistral_task :: "(nat \<Rightarrow> bool) \<Rightarrow> string \<Rightarrow> string + mistral_response list \<Rightarrow> (inference_error + 'j token_chunk) list" where
  "mistral_task alive rid opened = (case opened of
     Inl e \<Rightarrow> snd (rt_send alive (Inl (Internal (''mistralrs: stream_chat_request failed: '' @ e))) [])
   | Inr rs \<Rightarrow> mistral_loop alive rid [] rs)"

definition mistral_execute :: "(nat \<Rightarrow> bool) \<Rightarrow> 'm inference_result \<Rightarrow> ('m \<Rightarrow> (role \<times> string) list \<Rightarrow> string + mistral_response list) \<Rightarrow> 'm option \<Rightarrow> execute_batch \<Rightarrow>
    'm option \<times> (inference_error + 'j token_chunk) list inference_result" where
  "mistral_execute alive built stream_chat cell b = (case get_or_try_init built cell of
     (cell', Inl e) \<Rightarrow> (cell', Inl e)
   | (cell', Inr m) \<Rightarrow> (cell', Inr (mistral_task alive (request_id b) (stream_chat m (mistral_messages (messages b))))))"

section \<open>TensorRT\<close>

datatype trt_precision = Fp32 | Fp16 | Bf16 | Int8 | Fp8 | Best

record tensorrt_config =
  plan_path :: string
  max_batch_size :: u32
  precision :: trt_precision
  device_id :: u32

definition default_max_batch_size :: u32 where
  "default_max_batch_size = 1"

datatype trt_error =
    NotLinked string | TrtBuild string | TrtRuntime string | TrtExecution string | TrtOnnx string
  | TrtCalibration string | TrtPlugin string | TrtRefit string | NullEngine | InvalidArg string

fun map_trt_err :: "trt_error \<Rightarrow> inference_error" where
  "map_trt_err (NotLinked m) = Internal (''tensorrt not linked: '' @ m @ '' (rebuild with --features tensorrt-link)'')"
| "map_trt_err NullEngine = Internal ''tensorrt: engine pointer was null''"
| "map_trt_err (InvalidArg m) = BadRequest (''tensorrt: invalid argument: '' @ m)"
| "map_trt_err (TrtBuild m) = Internal (''tensorrt: '' @ m)"
| "map_trt_err (TrtRuntime m) = Internal (''tensorrt: '' @ m)"
| "map_trt_err (TrtExecution m) = Internal (''tensorrt: '' @ m)"
| "map_trt_err (TrtOnnx m) = Internal (''tensorrt: '' @ m)"
| "map_trt_err (TrtCalibration m) = Internal (''tensorrt: '' @ m)"
| "map_trt_err (TrtPlugin m) = Internal (''tensorrt: '' @ m)"
| "map_trt_err (TrtRefit m) = Internal (''tensorrt: '' @ m)"

record ('e, 's) trt_state =
  ts_engine :: 'e
  ts_stream :: 's

record ('e, 's) trt_runner =
  tr_config :: tensorrt_config
  tr_plan :: "u8 list"
  tr_state :: "('e, 's) trt_state option"

record ('e, 's) trt_env =
  te_read :: "string \<Rightarrow> string + u8 list"
  te_default_stream :: "u32 \<Rightarrow> string + 's"
  te_runtime :: "trt_error + unit"
  te_deserialize :: "u8 list \<Rightarrow> trt_error + 'e"

definition trt_new :: "('e, 's) trt_env \<Rightarrow> tensorrt_config \<Rightarrow> ('e, 's) trt_runner inference_result" where
  "trt_new env c = (case te_read env (plan_path c) of
     Inl e \<Rightarrow> Inl (Internal (''tensorrt: failed to read plan from '' @ plan_path c @ '': '' @ e))
   | Inr plan \<Rightarrow> Inr \<lparr>tr_config = c, tr_plan = plan, tr_state = None\<rparr>)"

definition trt_with_stream :: "'s \<Rightarrow> ('e, 's) trt_runner \<Rightarrow> ('e, 's) trt_runner" where
  "trt_with_stream s r = (case tr_state r of Some st \<Rightarrow> r\<lparr>tr_state := Some (st\<lparr>ts_stream := s\<rparr>)\<rparr> | None \<Rightarrow> r)"

definition trt_ensure_state :: "('e, 's) trt_env \<Rightarrow> ('e, 's) trt_runner \<Rightarrow> ('e, 's) trt_runner \<times> unit inference_result" where
  "trt_ensure_state env r = (case tr_state r of
     Some _ \<Rightarrow> (r, Inr ())
   | None \<Rightarrow> (case te_default_stream env (device_id (tr_config r)) of
       Inl e \<Rightarrow> (r, Inl (Internal (''tensorrt: failed to create CUDA context on device '' @ show_word (device_id (tr_config r)) @ '': '' @ e)))
     | Inr s \<Rightarrow> (case te_runtime env of
         Inl e \<Rightarrow> (r, Inl (map_trt_err e))
       | Inr _ \<Rightarrow> (case te_deserialize env (tr_plan r) of
           Inl e \<Rightarrow> (r, Inl (map_trt_err e))
         | Inr eng \<Rightarrow> (r\<lparr>tr_state := Some \<lparr>ts_engine = eng, ts_stream = s\<rparr>\<rparr>, Inr ())))))"

definition trt_enqueue :: "('e, 's) trt_env \<Rightarrow> ('e, 's) trt_runner \<Rightarrow> ('e, 's) trt_runner \<times> unit inference_result" where
  "trt_enqueue env r = (case trt_ensure_state env r of
     (r', Inl e) \<Rightarrow> (r', Inl e)
   | (r', Inr _) \<Rightarrow> (r', Inl (Internal (case tr_state r' of
       None \<Rightarrow> ''tensorrt: state was cleared between ensure_state and lock '' @ em_dash @ '' retry the enqueue''
     | Some _ \<Rightarrow> ''tensorrt: enqueue requires the `tensorrt-link` feature (libnvinfer must be installed and the link probe must '' @
         ''succeed in atomr-accel-tensorrt'' @ [CHR 0x27] @ ''s build.rs)''))))"

definition trt_execute :: "('e, 's) trt_env \<Rightarrow> ('e, 's) trt_runner \<Rightarrow> ('e, 's) trt_runner \<times> unit inference_result" where
  "trt_execute env r = (case trt_ensure_state env r of
     (r', Inl e) \<Rightarrow> (r', Inl e)
   | (r', Inr _) \<Rightarrow> (r', Inl (Internal (''tensorrt runner: chat-style execute requires a tokeniser layer; '' @
       ''callers staging tensors directly should invoke `enqueue` with a prepared ExecutionBindings''))))"

definition trt_rebuild_session :: "('e, 's) trt_env \<Rightarrow> session_rebuild_cause \<Rightarrow> ('e, 's) trt_runner \<Rightarrow> ('e, 's) trt_runner \<times> unit inference_result" where
  "trt_rebuild_session env cause r =
     (if cause = CudaContextPoisonedCause \<or> cause = Manual
      then (case te_read env (plan_path (tr_config r)) of
        Inl e \<Rightarrow> (r, Inl (Internal (''tensorrt: failed to re-read plan from '' @ plan_path (tr_config r) @ '': '' @ e)))
      | Inr plan \<Rightarrow> (r\<lparr>tr_plan := plan, tr_state := None\<rparr>, Inr ()))
      else (r\<lparr>tr_state := None\<rparr>, Inr ()))"

section \<open>Candle and cudarc\<close>

definition candle_execute :: "bool \<Rightarrow> execute_batch \<Rightarrow> unit inference_result" where
  "candle_execute feature b = Inl (Internal (if feature
     then ''candle runner: forward pass pending '' @ em_dash @ '' wire via atomr_accel_cuda::dispatcher::GpuDispatcher (doc '' @ map char_of [194 :: nat, 167] @ ''13 Phase 2b)''
     else ''candle feature disabled at build time '' @ em_dash @ '' rebuild with --features candle''))"

definition cudarc_execute :: "bool \<Rightarrow> execute_batch \<Rightarrow> unit inference_result" where
  "cudarc_execute feature b = Inl (Internal (if feature
     then ''cudarc runner: kernel registry pending '' @ em_dash @ '' wire via atomr_accel_cuda::kernel::BlasActor (doc '' @ map char_of [194 :: nat, 167] @ ''13 Phase 2b)''
     else ''cudarc feature disabled at build time '' @ em_dash @ '' rebuild with --features cudarc''))"

section \<open>Facts: mistral.rs\<close>

fun mistral_emit :: "string \<Rightarrow> mistral_response \<Rightarrow> (inference_error + 'j token_chunk) list" where
  "mistral_emit rid (MrChunk choices) = [Inr (mistral_chunk rid choices)]"
| "mistral_emit rid (MrDone p c fins) = [Inr (mistral_done rid p c fins)]"
| "mistral_emit rid (ModelError m) = [Inl (Internal (''mistralrs model error: '' @ m))]"
| "mistral_emit rid (EngineInternalError e) = [Inl (Internal (''mistralrs error: '' @ e))]"
| "mistral_emit rid (ValidationError e) = [Inl (Internal (''mistralrs error: '' @ e))]"
| "mistral_emit rid OtherResponse = [Inl (Internal ''mistralrs: unexpected response variant'')]"

fun mistral_ends :: "mistral_response \<Rightarrow> bool" where
  "mistral_ends (MrChunk _) = False"
| "mistral_ends _ = True"

lemma mistral_loop_step:
  "mistral_loop (\<lambda>_. True) rid out (r # rs) = (if mistral_ends r then out @ mistral_emit rid r else mistral_loop (\<lambda>_. True) rid (out @ mistral_emit rid r) rs)"
  by (cases r) simp_all

lemma mistral_loop_out: "mistral_loop (\<lambda>_. True) rid out rs = out @ mistral_loop (\<lambda>_. True) rid [] rs"
proof (induction rs arbitrary: out)
  case (Cons r rs)
  show ?case using Cons [of "out @ mistral_emit rid r"] Cons [of "mistral_emit rid r"]
    by (simp add: mistral_loop_step del: mistral_loop.simps)
qed simp

interpretation mistral: event_loop "mistral_loop (\<lambda>_. True) rid [] :: mistral_response list \<Rightarrow> (inference_error + 'j token_chunk) list" "mistral_emit rid" mistral_ends
proof
  fix e es
  show "(mistral_loop (\<lambda>_. True) rid [] (e # es) :: (inference_error + 'j token_chunk) list) =
      mistral_emit rid e @ (if mistral_ends e then [] else mistral_loop (\<lambda>_. True) rid [] es)"
    using mistral_loop_out [of rid "mistral_emit rid e :: (inference_error + 'j token_chunk) list" es] by (simp add: mistral_loop_step del: mistral_loop.simps)
qed simp

definition choice_finish :: "mistral_choice list \<Rightarrow> string option" where
  "choice_finish choices = Option.bind (first_choice choices) mch_finish"

definition mistral_choice_text :: "mistral_choice list \<Rightarrow> string" where
  "mistral_choice_text choices = (case Option.bind (first_choice choices) mch_content of Some s \<Rightarrow> s | None \<Rightarrow> [])"

lemma mistral_chunk_fields [simp]:
  "text_delta (mistral_chunk rid c) = mistral_choice_text c" "tc_usage (mistral_chunk rid c) = None"
  "tc_finish_reason (mistral_chunk rid c) = map_option mistral_finish_reason (choice_finish c)"
  by (simp_all add: mistral_chunk_def mistral_choice_text_def choice_finish_def)

lemma mistral_chunks_then:
  assumes "mistral_ends e"
  shows "mistral_task (\<lambda>_. True) rid (Inr (map MrChunk css @ e # rest)) = map (\<lambda>c. Inr (mistral_chunk rid c)) css @ mistral_emit rid e"
proof -
  have "\<not> list_ex mistral_ends (map MrChunk css)" by (induction css) simp_all
  from mistral.run_until [OF this assms, of rid rest] show ?thesis
    by (simp add: mistral_task_def comp_def)
qed

text \<open>What the request actor makes of chunks of which only the last ends the answer, whatever comes after.\<close>

lemma chunks_aggregated:
  fixes t :: "'j token_chunk"
  assumes "\<forall>c \<in> set cs. tc_finish_reason c = None \<and> tc_usage c = None" "tc_finish_reason t = Some r"
  shows "\<exists>T mirrored. snd (request_run Routed new_request_actor (ReqDispatch d b # map ReqChunk (map Inr cs @ Inr t # map Inr rest))) =
      BridgeSpawned # map (\<lambda>c. Mirror (Inr c)) mirrored @ [DoneTokens T, StopActor] \<and>
    tk_text T = concat (map text_delta cs) @ text_delta t \<and>
    tk_usage T = (case tc_usage t of None \<Rightarrow> default_token_usage | Some u \<Rightarrow> usage_add default_token_usage u) \<and> tk_finish_reason T = Some r"
proof -
  have none: "\<forall>c \<in> set cs. tc_finish_reason c = None" using assms(1) by blast
  have "usages (cs @ [t]) = (case tc_usage t of None \<Rightarrow> [] | Some u \<Rightarrow> [u])" using assms(1) by (induction cs) (auto split: option.splits)
  then have u: "foldl usage_add default_token_usage (usages (cs @ [t])) = (case tc_usage t of None \<Rightarrow> default_token_usage | Some u \<Rightarrow> usage_add default_token_usage u)"
    by (simp split: option.splits)
  obtain T where "snd (request_run Routed new_request_actor (ReqDispatch d b # map (\<lambda>c. ReqChunk (Inr c)) (cs @ [t]) @ map (\<lambda>c. ReqChunk (Inr c)) rest)) =
      BridgeSpawned # map (\<lambda>c. Mirror (Inr c)) (cs @ [t]) @ [DoneTokens T, StopActor]"
    "tk_text T = concat (map text_delta (cs @ [t]))" "tk_usage T = foldl usage_add default_token_usage (usages (cs @ [t]))" "tk_finish_reason T = Some r"
    using request_run_aggregate [OF none assms(2), of d b "map (\<lambda>c. ReqChunk (Inr c)) rest"] by blast
  then show ?thesis unfolding u by (intro exI [of _ T] exI [of _ "cs @ [t]"]) (simp add: comp_def)
qed

lemma mistral_chunks_plain:
  assumes "list_all (\<lambda>c. choice_finish c = None) css"
  shows "\<forall>c \<in> set (map (mistral_chunk rid) css :: 'j token_chunk list). tc_finish_reason c = None \<and> tc_usage c = None"
  using assms by (simp add: list_all_iff)

section \<open>Facts: TensorRT\<close>

text \<open>A stream given to a runner that has not run yet is forgotten: the first use takes the default stream.\<close>

lemma trt_with_stream_ignored: "trt_new env c = Inr r \<Longrightarrow> trt_with_stream s r = r"
  by (auto simp: trt_new_def trt_with_stream_def split: sum.splits)

lemma trt_ensure_idle: "tr_state r = Some st \<Longrightarrow> trt_ensure_state env r = (r, Inr ())"
  by (simp add: trt_ensure_state_def)

lemma trt_never_answers: "isl (snd (trt_execute env r)) \<and> isl (snd (trt_enqueue env r))"
  by (auto simp: trt_execute_def trt_enqueue_def split: prod.splits sum.splits)

section \<open>Properties\<close>


definition demo_choice :: "string \<Rightarrow> string option \<Rightarrow> mistral_choice list" where
  "demo_choice s f = [\<lparr>mch_content = Some s, mch_finish = f\<rparr>]"


text \<open>A failed reload keeps the broken engine.  When a TensorRT runner is told to rebuild because its CUDA context is poisoned
  and the plan file cannot be read, it reports an error and is exactly what it was: the old engine and stream stay,
  and the next call uses them again without building anything, whatever has become readable since.  Any other
  rebuild drops the engine, and after a successful one the next call builds from the plan as it was just read.\<close>

theorem tensorrt_failed_reload_keeps_engine:
  assumes "tr_state r = Some st" and "te_read env (plan_path (tr_config r)) = Inl e"
    and "te_read env2 (plan_path (tr_config r)) = Inr plan" and "te_default_stream env2 (device_id (tr_config r)) = Inr s"
    and "te_runtime env2 = Inr ()" and "te_deserialize env2 plan = Inr eng"
  shows "fst (trt_rebuild_session env CudaContextPoisonedCause r) = r \<and> isl (snd (trt_rebuild_session env CudaContextPoisonedCause r)) \<and>
    trt_ensure_state env2 (fst (trt_rebuild_session env CudaContextPoisonedCause r)) = (r, Inr ()) \<and>
    tr_state (fst (trt_ensure_state env2 (fst (trt_rebuild_session env2 CudaContextPoisonedCause r)))) = Some \<lparr>ts_engine = eng, ts_stream = s\<rparr> \<and>
    tr_state (fst (trt_rebuild_session env RemoteAuthFailure r)) = None"
  using assms by (simp add: trt_rebuild_session_def trt_ensure_idle) (simp add: trt_ensure_state_def)

definition demo_trt :: "(nat, nat) trt_runner" where
  "demo_trt = \<lparr>tr_config = \<lparr>plan_path = ''p'', max_batch_size = 1, precision = Fp32, device_id = 0\<rparr>, tr_plan = [1], tr_state = Some \<lparr>ts_engine = 11, ts_stream = 7\<rparr>\<rparr>"

definition demo_trt_env :: "bool \<Rightarrow> (nat, nat) trt_env" where
  "demo_trt_env ok = \<lparr>te_read = (\<lambda>_. if ok then Inr [2] else Inl ''gone''), te_default_stream = (\<lambda>_. Inr 0), te_runtime = Inr (), te_deserialize = (\<lambda>_. Inr 22)\<rparr>"

theorem tensorrt_failed_reload_keeps_engine_witness:
  "tr_state (fst (trt_ensure_state (demo_trt_env True) (fst (trt_rebuild_session (demo_trt_env False) CudaContextPoisonedCause demo_trt)))) = Some \<lparr>ts_engine = 11, ts_stream = 7\<rparr>"
proof -
  have "tr_state demo_trt = Some \<lparr>ts_engine = 11, ts_stream = 7\<rparr>" "te_read (demo_trt_env False) p = Inl ''gone''" "te_read (demo_trt_env True) p = Inr [2]"
    "te_default_stream (demo_trt_env True) n = Inr 0" "te_runtime (demo_trt_env True) = Inr ()" "te_deserialize (demo_trt_env True) [2] = Inr 22" for p n
    by (simp_all add: demo_trt_def demo_trt_env_def)
  note h = this
  from tensorrt_failed_reload_keeps_engine [OF h] have "trt_ensure_state (demo_trt_env True) (fst (trt_rebuild_session (demo_trt_env False) CudaContextPoisonedCause demo_trt)) = (demo_trt, Inr ())"
    by blast
  then show ?thesis using h(1) by simp
qed

end
