(* ===== verification/Vllm_Engine.thy ===== *)
theory Vllm_Engine
  imports Ort_Model Event_Loop Session
begin

text \<open>
  The vLLM backend, \<^verbatim>\<open>inference-runtime-vllm/src/engine.rs\<close> and \<^verbatim>\<open>lib.rs\<close>: the arguments of the Python engine, the prompt,
  the registration of a request, and the task that polls the engine and forwards the text of one request.
  Python is outside: what a call to \<^verbatim>\<open>step\<close> or \<^verbatim>\<open>has_unfinished_requests\<close> returns is given, poll by poll.
  All requests of a deployment share one engine, and every call to \<^verbatim>\<open>step\<close> returns the outputs of all of them;
  a turn records which request's task made the call, so that a list of turns is an interleaving of the tasks.
\<close>

section \<open>Configuration\<close>

record vllm_config =
  vc_model :: string
  tensor_parallel_size :: u32
  dtype :: string
  gpu_memory_utilization :: "f32 option"
  max_model_len :: "u32 option"
  hf_cache_dir :: "string option"
  enforce_eager :: "bool option"
  enable_prefix_caching :: "bool option"
  enable_chunked_prefill :: "bool option"
  max_num_seqs :: "u32 option"
  block_size :: "u32 option"
  quantization :: "string option"
  limit_mm_per_prompt :: "(string \<times> u32) list option"
  cpu_offload_gb :: "u32 option"

definition default_tp :: u32 where
  "default_tp = 1"

definition default_dtype :: string where
  "default_dtype = ''auto''"

datatype py_value = PyStr string | PyInt u32 | PyFloat f32 | PyBool bool | PyDict "(string \<times> u32) list" | PyStrs "string list"

definition opt_kwarg :: "string \<Rightarrow> ('v \<Rightarrow> py_value) \<Rightarrow> 'v option \<Rightarrow> (string \<times> py_value) list" where
  "opt_kwarg name py v = (case v of Some x \<Rightarrow> [(name, py x)] | None \<Rightarrow> [])"

definition engine_kwargs :: "vllm_config \<Rightarrow> (string \<times> py_value) list" where
  "engine_kwargs c =
     [(''model'', PyStr (vc_model c)), (''dtype'', PyStr (dtype c)), (''tensor_parallel_size'', PyInt (tensor_parallel_size c))] @
     opt_kwarg ''gpu_memory_utilization'' PyFloat (gpu_memory_utilization c) @
     opt_kwarg ''max_model_len'' PyInt (max_model_len c) @
     opt_kwarg ''enforce_eager'' PyBool (enforce_eager c) @
     opt_kwarg ''enable_prefix_caching'' PyBool (enable_prefix_caching c) @
     opt_kwarg ''enable_chunked_prefill'' PyBool (enable_chunked_prefill c) @
     opt_kwarg ''max_num_seqs'' PyInt (max_num_seqs c) @
     opt_kwarg ''block_size'' PyInt (block_size c) @
     opt_kwarg ''quantization'' PyStr (quantization c) @
     opt_kwarg ''limit_mm_per_prompt'' PyDict (limit_mm_per_prompt c) @
     opt_kwarg ''cpu_offload_gb'' PyInt (cpu_offload_gb c)"

text \<open>\<^verbatim>\<open>Path::join\<close>.\<close>

definition join_path :: "string \<Rightarrow> string \<Rightarrow> string" where
  "join_path a b = (if starts_with b ''/'' then b else if a = [] \<or> ends_with a ''/'' then a @ b else a @ ''/'' @ b)"

definition launch_vars :: "vllm_config \<Rightarrow> (string \<times> string) list" where
  "launch_vars c = (case hf_cache_dir c of
     Some d \<Rightarrow> [(''HF_HOME'', d), (''HF_HUB_CACHE'', join_path d ''hub'')] | None \<Rightarrow> [])"

text \<open>An engine: the Python object and the counter of its requests.  \<open>boot\<close> builds the object from the variables
  and arguments; Python errors arrive as \<^verbatim>\<open>python: ...\<close>.\<close>

record 'h vllm_engine =
  ve_handle :: 'h
  request_seq :: u64

definition with_python :: "string + 'a \<Rightarrow> 'a inference_result" where
  "with_python r = (case r of Inl e \<Rightarrow> Inl (Internal (''python: '' @ e)) | Inr x \<Rightarrow> Inr x)"

definition vllm_launch :: "((string \<times> string) list \<Rightarrow> (string \<times> py_value) list \<Rightarrow> string + 'h) \<Rightarrow> vllm_config \<Rightarrow> 'h vllm_engine inference_result" where
  "vllm_launch boot c = (case with_python (boot (launch_vars c) (engine_kwargs c)) of
     Inl e \<Rightarrow> Inl e | Inr h \<Rightarrow> Inr \<lparr>ve_handle = h, request_seq = 1\<rparr>)"

text \<open>The runner builds the engine on the first call and drops it when asked to rebuild.\<close>

definition ensure_engine :: "((string \<times> string) list \<Rightarrow> (string \<times> py_value) list \<Rightarrow> string + 'h) \<Rightarrow> vllm_config \<Rightarrow> 'h vllm_engine option \<Rightarrow>
    'h vllm_engine option \<times> 'h vllm_engine inference_result" where
  "ensure_engine boot c cell = (case cell of
     Some v \<Rightarrow> (cell, Inr v)
   | None \<Rightarrow> (case vllm_launch boot c of Inl e \<Rightarrow> (None, Inl e) | Inr v \<Rightarrow> (Some v, Inr v)))"

definition vllm_rebuild_session :: "session_rebuild_cause \<Rightarrow> 'h vllm_engine option \<Rightarrow> 'h vllm_engine option" where
  "vllm_rebuild_session cause cell = (if cause = CudaContextPoisonedCause \<or> cause = Manual then None else cell)"

section \<open>Prompt and request\<close>

definition simple_render :: "Core_Types.message list \<Rightarrow> string" where
  "simple_render ms = foldl (\<lambda>out m. out @ render_turn m) [] ms @ ''<|assistant|>'' @ [newline]"

text \<open>\<open>template\<close> is the tokenizer's \<^verbatim>\<open>apply_chat_template\<close>, when the engine has a tokenizer, the tokenizer has the method,
  and its result is a string.\<close>

definition vllm_render_chat :: "((string \<times> string) list \<Rightarrow> string option) option \<Rightarrow> Core_Types.message list \<Rightarrow> string" where
  "vllm_render_chat template ms = (case template of
     None \<Rightarrow> simple_render ms
   | Some f \<Rightarrow> (case f (map (\<lambda>m. (role_name (role m), message_text m)) ms) of Some s \<Rightarrow> s | None \<Rightarrow> simple_render ms))"

definition sampling_kwargs :: "sampling_params \<Rightarrow> (string \<times> py_value) list" where
  "sampling_kwargs p =
     [(''max_tokens'', PyInt (case max_tokens p of Some n \<Rightarrow> n | None \<Rightarrow> 512)),
      (''temperature'', PyFloat (case temperature p of Some t \<Rightarrow> t | None \<Rightarrow> Fin 1)),
      (''top_p'', PyFloat (case top_p p of Some t \<Rightarrow> t | None \<Rightarrow> Fin 1))] @
     (if stop p = [] then [] else [(''stop'', PyStrs (stop p))])"

definition add_vllm_request :: "('h \<Rightarrow> string \<Rightarrow> string \<Rightarrow> (string \<times> py_value) list \<Rightarrow> string + unit) \<Rightarrow> ((string \<times> string) list \<Rightarrow> string option) option \<Rightarrow>
    'h vllm_engine \<Rightarrow> execute_batch \<Rightarrow> 'h vllm_engine \<times> string inference_result" where
  "add_vllm_request add_request template v b =
     (let rid = request_id b @ ''-'' @ show_word (request_seq v)
      in (v\<lparr>request_seq := request_seq v + 1\<rparr>,
          case with_python (add_request (ve_handle v) rid (vllm_render_chat template (messages b)) (sampling_kwargs (sampling b))) of
            Inl e \<Rightarrow> Inl e | Inr _ \<Rightarrow> Inr rid))"

text \<open>The runner's \<^verbatim>\<open>execute\<close>: build the engine if there is none, then register the request; the result names what the
  spawned task polls for.\<close>

definition vllm_execute :: "((string \<times> string) list \<Rightarrow> (string \<times> py_value) list \<Rightarrow> string + 'h) \<Rightarrow> ('h \<Rightarrow> string \<Rightarrow> string \<Rightarrow> (string \<times> py_value) list \<Rightarrow> string + unit) \<Rightarrow>
    ((string \<times> string) list \<Rightarrow> string option) option \<Rightarrow> vllm_config \<Rightarrow> 'h vllm_engine option \<Rightarrow> execute_batch \<Rightarrow> 'h vllm_engine option \<times> string inference_result" where
  "vllm_execute boot add_request template c cell b = (case ensure_engine boot c cell of
     (cell', Inl e) \<Rightarrow> (cell', Inl e)
   | (cell', Inr v) \<Rightarrow> (case add_vllm_request add_request template v b of (v', r) \<Rightarrow> (Some v', r)))"

section \<open>Polling\<close>

record completion_output =
  co_text :: string
  co_finish_reason :: "string option"
  co_tokens :: u32

record request_output =
  ro_request_id :: string
  ro_outputs :: "completion_output list"
  ro_finished :: bool
  ro_prompt_tokens :: u32

fun pick_output :: "string \<Rightarrow> request_output list \<Rightarrow> (completion_output \<times> request_output) option" where
  "pick_output rid [] = None"
| "pick_output rid (x # xs) = (if ro_request_id x \<noteq> rid then pick_output rid xs
     else (case ro_outputs x of [] \<Rightarrow> None | c # _ \<Rightarrow> Some (c, x)))"

definition vllm_finish_reason :: "string option \<Rightarrow> finish_reason" where
  "vllm_finish_reason s = (if s = Some ''length'' then finish_reason.Length else finish_reason.Stop)"

text \<open>Slicing a string at a byte offset that is inside a character panics.\<close>

definition is_char_boundary :: "string \<Rightarrow> nat \<Rightarrow> bool" where
  "is_char_boundary s i \<longleftrightarrow> i = 0 \<or> i = length s \<or> i < length s \<and> \<not> (128 \<le> byte_of (s ! i) \<and> byte_of (s ! i) < 192)"

definition vllm_chunk :: "string \<Rightarrow> nat \<Rightarrow> completion_output \<times> request_output \<Rightarrow> 'j token_chunk" where
  "vllm_chunk cid last_text_len = (\<lambda>(c, x).
     \<lparr>tc_request_id = cid, text_delta = (if last_text_len < length (co_text c) then drop last_text_len (co_text c) else []),
      tool_call_delta = None,
      tc_usage = (if ro_finished x then Some (default_token_usage\<lparr>input_tokens := ro_prompt_tokens x, output_tokens := co_tokens c\<rparr>) else None),
      tc_finish_reason = (if ro_finished x then Some (vllm_finish_reason (co_finish_reason c)) else None)\<rparr>)"

text \<open>One poll: what \<^verbatim>\<open>step\<close> returned, and what \<^verbatim>\<open>has_unfinished_requests\<close> returned if it was asked.\<close>

record vllm_poll =
  vp_step :: "string + request_output list"
  vp_unfinished :: "string + bool"

datatype drive_end = Polling | Returned | DriveFailed inference_error | Aborted | Panicked

fun drive_generation :: "string \<Rightarrow> string \<Rightarrow> (nat \<Rightarrow> bool) \<Rightarrow> nat \<Rightarrow> 'j token_chunk list \<Rightarrow> vllm_poll list \<Rightarrow> 'j token_chunk list \<times> drive_end" where
  "drive_generation rid cid alive last_text_len out [] = (out, Polling)"
| "drive_generation rid cid alive last_text_len out (p # ps) = (case vp_step p of
     Inl e \<Rightarrow> (out, DriveFailed (Internal (''vllm step: internal: python: '' @ e)))
   | Inr outs \<Rightarrow> (case pick_output rid outs of
       None \<Rightarrow> (case with_python (vp_unfinished p) of
           Inl e \<Rightarrow> (out, DriveFailed e)
         | Inr unfinished \<Rightarrow> if \<not> unfinished then (out, Returned) else drive_generation rid cid alive last_text_len out ps)
     | Some (c, x) \<Rightarrow>
         if last_text_len < length (co_text c) \<and> \<not> is_char_boundary (co_text c) last_text_len then (out, Panicked)
         else (case rt_send alive (vllm_chunk cid last_text_len (c, x)) out of
           (False, out') \<Rightarrow> (out', Aborted)
         | (True, out') \<Rightarrow> if ro_finished x then (out', Returned)
             else drive_generation rid cid alive (length (co_text c)) out' ps)))"

text \<open>The spawned task: an error of the loop is the last item of the stream.\<close>

definition generation_stream :: "string \<Rightarrow> string \<Rightarrow> (nat \<Rightarrow> bool) \<Rightarrow> vllm_poll list \<Rightarrow> (inference_error + 'j token_chunk) list" where
  "generation_stream rid cid alive polls = (case drive_generation rid cid alive 0 [] polls of
     (out, DriveFailed e) \<Rightarrow> snd (rt_send alive (Inl e) (map Inr out))
   | (out, _) \<Rightarrow> map Inr out)"

text \<open>A turn: the request whose task polls, and the poll; a task sees its own turns only.\<close>

type_synonym vllm_turn = "string \<times> vllm_poll"

definition view :: "string \<Rightarrow> vllm_turn list \<Rightarrow> vllm_poll list" where
  "view rid turns = map snd (filter (\<lambda>t. fst t = rid) turns)"

section \<open>Facts\<close>

text \<open>
  \<open>answers rid t polls r\<close>: after the text \<open>t\<close> the polls report longer and longer texts of the request, each a
  continuation at a character boundary, interleaved with polls without news, until the final report \<open>r\<close>.
\<close>

definition idle_poll :: "string \<Rightarrow> vllm_poll \<Rightarrow> bool" where
  "idle_poll rid p \<longleftrightarrow> (\<exists>outs. vp_step p = Inr outs \<and> pick_output rid outs = None)"

definition continues :: "string \<Rightarrow> string \<Rightarrow> bool" where
  "continues t u \<longleftrightarrow> take (length t) u = t \<and> length t \<le> length u \<and> is_char_boundary u (length t)"

inductive answers :: "string \<Rightarrow> string \<Rightarrow> vllm_poll list \<Rightarrow> completion_output \<times> request_output \<Rightarrow> bool" for rid where
  idle: "idle_poll rid p \<Longrightarrow> vp_unfinished p = Inr True \<Longrightarrow> answers rid t ps r \<Longrightarrow> answers rid t (p # ps) r"
| part: "vp_step p = Inr outs \<Longrightarrow> pick_output rid outs = Some (c, x) \<Longrightarrow> \<not> ro_finished x \<Longrightarrow> continues t (co_text c) \<Longrightarrow>
    answers rid (co_text c) ps r \<Longrightarrow> answers rid t (p # ps) r"
| final: "vp_step p = Inr outs \<Longrightarrow> pick_output rid outs = Some (c, x) \<Longrightarrow> ro_finished x \<Longrightarrow> continues t (co_text c) \<Longrightarrow>
    answers rid t (p # ps) (c, x)"

lemma continues_delta:
  "continues t (co_text c) \<Longrightarrow> t @ text_delta (vllm_chunk cid (length t) (c, x)) = co_text c"
  by (auto simp: continues_def vllm_chunk_def) (metis append_take_drop_id)+

lemma drive_part:
  assumes "vp_step p = Inr outs" "pick_output rid outs = Some (c, x)" "continues t (co_text c)"
  shows "drive_generation rid cid (\<lambda>_. True) (length t) out (p # ps) =
    (if ro_finished x then (out @ [vllm_chunk cid (length t) (c, x)], Returned)
     else drive_generation rid cid (\<lambda>_. True) (length (co_text c)) (out @ [vllm_chunk cid (length t) (c, x)]) ps)"
  using assms by (auto simp: continues_def)

lemma drive_answers:
  assumes "answers rid t polls (c, x)"
  shows "\<exists>cs l. drive_generation rid cid (\<lambda>_. True) (length t) out polls = (out @ cs @ [l :: 'j token_chunk], Returned) \<and>
    t @ concat (map text_delta (cs @ [l])) = co_text c \<and> (\<exists>n. l = vllm_chunk cid n (c, x)) \<and> ro_finished x \<and>
    list_all (\<lambda>c. tc_finish_reason c = None \<and> tc_usage c = None) cs"
  using assms
proof (induction t polls "(c, x)" arbitrary: out rule: answers.induct)
  case (idle p t ps)
  then show ?case by (auto simp: idle_poll_def with_python_def)
next
  case (part p outs c' x' t ps)
  let ?k = "vllm_chunk cid (length t) (c', x') :: 'j token_chunk"
  from part(6) [of "out @ [?k]"] obtain cs l where
    d: "drive_generation rid cid (\<lambda>_. True) (length (co_text c')) (out @ [?k]) ps = ((out @ [?k]) @ cs @ [l], Returned)"
    "co_text c' @ concat (map text_delta (cs @ [l])) = co_text c" "\<exists>n. l = vllm_chunk cid n (c, x)" "ro_finished x"
    "list_all (\<lambda>c. tc_finish_reason c = None \<and> tc_usage c = None) cs" by blast
  have k: "tc_finish_reason ?k = None" "tc_usage ?k = None" using part(3) by (simp_all add: vllm_chunk_def)
  have "t @ concat (map text_delta (?k # cs @ [l])) = co_text c"
    using continues_delta [OF part(4), of cid x'] d(2) by (metis append.assoc concat.simps(2) list.simps(9))
  then show ?case
    using d(1,3-5) k part(3) by (intro exI [of _ "?k # cs"] exI [of _ l]) (simp add: drive_part [OF part(1,2,4)] del: drive_generation.simps)
next
  case (final p outs t ps)
  then show ?case
    using continues_delta [OF final(4), of cid x] by (intro exI [of _ "[]"] exI [of _ "vllm_chunk cid (length t) (c, x)"])
      (auto simp: drive_part [OF final(1,2,4)] final(3) simp del: drive_generation.simps)
qed

lemma drive_idle:
  "list_all (\<lambda>p. idle_poll rid p \<and> vp_unfinished p = Inr True) ps \<Longrightarrow>
     drive_generation rid cid alive n out (ps @ qs) = drive_generation rid cid alive n out qs"
  by (induction ps) (auto simp: idle_poll_def with_python_def)

section \<open>Properties\<close>

text \<open>C7: a request that has the engine to itself is answered completely.  When the polls of its task report growing texts
  (with any number of polls without news in between) up to a finished one, the stream is closed after
  chunks whose texts are together exactly the final text, and the last one, and only it, carries the finish
  reason and the token counts of the final report.\<close>

theorem vllm_answer_complete:
  assumes "answers rid [] polls (c, x)"
  shows "\<exists>cs l. generation_stream rid cid (\<lambda>_. True) polls = map Inr (cs @ [l :: 'j token_chunk]) \<and>
    concat (map text_delta (cs @ [l])) = co_text c \<and> tc_finish_reason l = Some (vllm_finish_reason (co_finish_reason c)) \<and>
    tc_usage l = Some (default_token_usage\<lparr>input_tokens := ro_prompt_tokens x, output_tokens := co_tokens c\<rparr>) \<and>
    list_all (\<lambda>c. tc_finish_reason c = None \<and> tc_usage c = None) cs"
proof -
  obtain cs l n where "drive_generation rid cid (\<lambda>_. True) 0 [] polls = (cs @ [l :: 'j token_chunk], Returned)"
    "concat (map text_delta (cs @ [l])) = co_text c" "l = vllm_chunk cid n (c, x)" "ro_finished x"
    "list_all (\<lambda>c. tc_finish_reason c = None \<and> tc_usage c = None) cs"
    using drive_answers [OF assms, of cid "[]"] by auto
  then show ?thesis
    by (intro exI [of _ cs] exI [of _ l]) (simp add: generation_stream_def vllm_chunk_def)
qed

definition demo_output :: "string \<Rightarrow> string \<Rightarrow> bool \<Rightarrow> request_output" where
  "demo_output rid t fin = \<lparr>ro_request_id = rid, ro_outputs = [\<lparr>co_text = t, co_finish_reason = (if fin then Some ''length'' else None), co_tokens = 2\<rparr>],
     ro_finished = fin, ro_prompt_tokens = 3\<rparr>"

definition demo_poll :: "request_output list \<Rightarrow> bool \<Rightarrow> vllm_poll" where
  "demo_poll outs busy = \<lparr>vp_step = Inr outs, vp_unfinished = Inr busy\<rparr>"

lemma demo_answers:
  "answers ''a-1'' [] [demo_poll [demo_output ''a-1'' ''he'' False] True, demo_poll [] True, demo_poll [demo_output ''b-2'' ''x'' False, demo_output ''a-1'' ''hello'' True] True]
     (\<lparr>co_text = ''hello'', co_finish_reason = Some ''length'', co_tokens = 2\<rparr>, demo_output ''a-1'' ''hello'' True)"
proof (rule answers.part [where outs = "[demo_output ''a-1'' ''he'' False]" and c = "\<lparr>co_text = ''he'', co_finish_reason = None, co_tokens = 2\<rparr>" and x = "demo_output ''a-1'' ''he'' False"])
  show "answers ''a-1'' (co_text \<lparr>co_text = ''he'', co_finish_reason = None, co_tokens = 2\<rparr>)
      [demo_poll [] True, demo_poll [demo_output ''b-2'' ''x'' False, demo_output ''a-1'' ''hello'' True] True]
      (\<lparr>co_text = ''hello'', co_finish_reason = Some ''length'', co_tokens = 2\<rparr>, demo_output ''a-1'' ''hello'' True)"
    by (rule answers.idle, simp add: idle_poll_def demo_poll_def, simp add: demo_poll_def,
        rule answers.final [where outs = "[demo_output ''b-2'' ''x'' False, demo_output ''a-1'' ''hello'' True]"])
      (simp_all add: demo_poll_def demo_output_def continues_def is_char_boundary_def byte_of_def)
qed (simp_all add: demo_poll_def demo_output_def continues_def is_char_boundary_def)

theorem vllm_answer_complete_witness:
  "\<exists>cs l. generation_stream ''a-1'' ''a'' (\<lambda>_. True) [demo_poll [demo_output ''a-1'' ''he'' False] True, demo_poll [] True,
      demo_poll [demo_output ''b-2'' ''x'' False, demo_output ''a-1'' ''hello'' True] True] = map Inr (cs @ [l :: unit token_chunk]) \<and>
    concat (map text_delta (cs @ [l])) = ''hello'' \<and> tc_finish_reason l = Some finish_reason.Length"
  using vllm_answer_complete [OF demo_answers, of "''a''"] by (fastforce simp: vllm_finish_reason_def)



end
