(* ===== verification/Avatar_Speech.thy ===== *)
theory Avatar_Speech
  imports Local_Speech Vllm_Engine
begin

text \<open>
  The runners around avatars.  XTTS, Kokoro and MOSS (\<^verbatim>\<open>inference-runtime-xtts\<close>, \<^verbatim>\<open>inference-runtime-kokoro\<close>,
  \<^verbatim>\<open>inference-runtime-moss\<close>) check a request and answer with one empty chunk; the locale \<open>silent_speech\<close> is what
  they have in common.  Audio2Face (\<^verbatim>\<open>inference-runtime-audio2face\<close>) derives a number of frames from the input and
  generates them.  The cargo feature and the platform are arguments, the existence of a file a predicate, and
  \<^verbatim>\<open>f32::sin\<close>, whose precision Rust leaves open, a function of which \<open>sine_law\<close> is assumed.
\<close>

section \<open>Speech placeholders\<close>

fun format_debug :: "audio_format \<Rightarrow> string" where
  "format_debug Pcm16Le = ''Pcm16Le''"
| "format_debug Pcm24Le = ''Pcm24Le''"
| "format_debug PcmF32Le = ''PcmF32Le''"
| "format_debug OggOpus = ''OggOpus''"
| "format_debug Mp3 = ''Mp3''"
| "format_debug Flac = ''Flac''"
| "format_debug Wav = ''Wav''"

record xtts_config =
  xc_model_path :: string
  xc_default_language :: string
  xc_chunk_samples :: usize
  xc_intra_threads :: "u32 option"

datatype xtts_error =
    XttsModelNotFound string | ReferenceAudioError string | UnsupportedLanguage string | XttsUnsupportedFormat string
  | XttsIo string | XttsOrt string | XttsFeatureDisabled

fun xtts_error_into :: "xtts_error \<Rightarrow> inference_error" where
  "xtts_error_into (XttsModelNotFound p) = BadRequest (''xtts model not found: '' @ p)"
| "xtts_error_into (ReferenceAudioError r) = BadRequest (''xtts reference audio could not be materialized: '' @ r)"
| "xtts_error_into (UnsupportedLanguage l) = BadRequest (''xtts unsupported language: '' @ l)"
| "xtts_error_into (XttsUnsupportedFormat m) = UnsupportedAudioFormat m"
| "xtts_error_into (XttsIo e) = Internal (''xtts io: '' @ e)"
| "xtts_error_into (XttsOrt e) = Internal (''xtts ort error: '' @ e)"
| "xtts_error_into XttsFeatureDisabled = Internal (''xtts feature disabled at build time '' @ em_dash @ '' rebuild with --features tts-xtts'')"

definition xtts_validate_batch :: "speech_batch \<Rightarrow> unit inference_result" where
  "xtts_validate_batch b = (case so_format (sb_options b) of
     Some fmt \<Rightarrow> if \<not> is_pcm fmt
       then Inl (xtts_error_into (XttsUnsupportedFormat (''XTTS only emits PCM; requested '' @ format_debug fmt @ '' is not supported'')))
       else Inr ()
   | None \<Rightarrow> Inr ())"

fun handle_voice_ref :: "voice_ref \<Rightarrow> unit inference_result" where
  "handle_voice_ref (Named _) = Inr ()"
| "handle_voice_ref (Id _) = Inr ()"
| "handle_voice_ref (ClonedFrom payload) = (if \<not> params_valid (payload_params payload)
     then Inl (xtts_error_into (ReferenceAudioError ''reference audio params out of valid range'')) else Inr ())"

definition xtts_sample_rate_hz :: u32 where
  "xtts_sample_rate_hz = 24000"

definition xtts_speak :: "bool \<Rightarrow> (string \<Rightarrow> bool) \<Rightarrow> xtts_config \<Rightarrow> speech_batch \<Rightarrow> speech_chunk list inference_result" where
  "xtts_speak feature exists_path c b =
     (if \<not> feature then Inl (Internal (''tts-xtts feature disabled at build time '' @ em_dash @ '' rebuild with --features tts-xtts''))
      else (case xtts_validate_batch b of
        Inl e \<Rightarrow> Inl e
      | Inr _ \<Rightarrow> (case handle_voice_ref (sb_voice b) of
          Inl e \<Rightarrow> Inl e
        | Inr _ \<Rightarrow> let model_path = join_path (xc_model_path c) ''model.onnx''
            in if \<not> exists_path model_path then Inl (xtts_error_into (XttsModelNotFound model_path))
               else Inr [\<lparr>sp_request_id = sb_request_id b, sp_is_final = True, audio_pcm_chunk = [],
                 sp_params = new_audio_params xtts_sample_rate_hz 1 Pcm16Le, alignment = None, sp_usage = None\<rparr>])))"

definition xtts_per_million_chars_usd :: "string \<Rightarrow> f64" where
  "xtts_per_million_chars_usd m = Fin 0"

definition xtts_estimate_usd :: "string \<Rightarrow> u64 \<Rightarrow> f64" where
  "xtts_estimate_usd m chars = f64_div (f64_mul (xtts_per_million_chars_usd m) (f64_of_nat (unat chars))) (Fin 1000000)"

record kokoro_config =
  voice_pack_dir :: string
  kc_default_voice :: string
  kc_chunk_samples :: usize
  kc_intra_threads :: "u32 option"

definition voice_onnx_path :: "kokoro_config \<Rightarrow> string" where
  "voice_onnx_path c = join_path (voice_pack_dir c) (kc_default_voice c @ ''.onnx'')"

datatype kokoro_error = VoiceNotFound string | EmptyVoiceName | KokoroIo string | KokoroOrt string | KokoroUnsupportedFormat string | KokoroFeatureDisabled

fun kokoro_error_into :: "kokoro_error \<Rightarrow> inference_error" where
  "kokoro_error_into (VoiceNotFound p) = BadRequest (''kokoro voice file not found: '' @ p)"
| "kokoro_error_into EmptyVoiceName = BadRequest ''kokoro voice name is empty''"
| "kokoro_error_into (KokoroUnsupportedFormat m) = UnsupportedAudioFormat m"
| "kokoro_error_into (KokoroIo e) = Internal (''kokoro io: '' @ e)"
| "kokoro_error_into (KokoroOrt e) = Internal (''kokoro ort error: '' @ e)"
| "kokoro_error_into KokoroFeatureDisabled = Internal (''kokoro feature disabled at build time '' @ em_dash @ '' rebuild with --features tts-kokoro'')"

definition kokoro_validate_batch :: "kokoro_config \<Rightarrow> speech_batch \<Rightarrow> unit inference_result" where
  "kokoro_validate_batch c b =
     (if kc_default_voice c = [] then Inl (kokoro_error_into EmptyVoiceName)
      else (case so_format (sb_options b) of
        Some fmt \<Rightarrow> if \<not> is_pcm fmt
          then Inl (kokoro_error_into (KokoroUnsupportedFormat (''Kokoro only emits PCM; requested '' @ format_debug fmt @ '' is not supported'')))
          else Inr ()
      | None \<Rightarrow> Inr ()))"

definition kokoro_sample_rate_hz :: u32 where
  "kokoro_sample_rate_hz = 24000"

definition kokoro_speak :: "bool \<Rightarrow> (string \<Rightarrow> bool) \<Rightarrow> kokoro_config \<Rightarrow> speech_batch \<Rightarrow> speech_chunk list inference_result" where
  "kokoro_speak feature exists_path c b =
     (if \<not> feature then Inl (Internal (''tts-kokoro feature disabled at build time '' @ em_dash @ '' rebuild with --features tts-kokoro''))
      else (case kokoro_validate_batch c b of
        Inl e \<Rightarrow> Inl e
      | Inr _ \<Rightarrow> if \<not> exists_path (voice_onnx_path c) then Inl (kokoro_error_into (VoiceNotFound (voice_onnx_path c)))
          else Inr [\<lparr>sp_request_id = sb_request_id b, sp_is_final = True, audio_pcm_chunk = [],
            sp_params = new_audio_params kokoro_sample_rate_hz 1 Pcm16Le, alignment = None, sp_usage = None\<rparr>]))"

definition kokoro_per_million_chars_usd :: "string \<Rightarrow> f64" where
  "kokoro_per_million_chars_usd m = Fin 0"

definition kokoro_estimate_usd :: "string \<Rightarrow> u64 \<Rightarrow> f64" where
  "kokoro_estimate_usd m chars = f64_div (f64_mul (kokoro_per_million_chars_usd m) (f64_of_nat (unat chars))) (Fin 1000000)"

record moss_config =
  moc_model_dir :: string
  moc_default_voice :: string
  moc_chunk_samples :: usize

datatype moss_error = MossModelNotFound string | MossUnsupportedFormat string | RequiresLinux | MossIo string | MossInternal string | MossFeatureDisabled

fun moss_error_into :: "moss_error \<Rightarrow> inference_error" where
  "moss_error_into (MossModelNotFound p) = BadRequest (''moss model directory not found: '' @ p)"
| "moss_error_into (MossUnsupportedFormat m) = UnsupportedAudioFormat m"
| "moss_error_into RequiresLinux = Internal (''moss requires Linux '' @ em_dash @ '' this binary was built for a different target OS'')"
| "moss_error_into (MossIo e) = Internal (''moss io: '' @ e)"
| "moss_error_into (MossInternal e) = Internal (''moss internal: '' @ e)"
| "moss_error_into MossFeatureDisabled = Internal (''moss feature disabled at build time '' @ em_dash @ '' rebuild with --features tts-moss'')"

definition moss_sample_rate_hz :: u32 where
  "moss_sample_rate_hz = 24000"

definition moss_speak :: "bool \<Rightarrow> bool \<Rightarrow> (string \<Rightarrow> bool) \<Rightarrow> moss_config \<Rightarrow> speech_batch \<Rightarrow> speech_chunk list inference_result" where
  "moss_speak feature linux exists_path c b =
     (if \<not> feature then Inl (Internal (''tts-moss feature disabled at build time '' @ em_dash @ '' rebuild with --features tts-moss''))
      else if \<not> linux then Inl (moss_error_into RequiresLinux)
      else let present = (if \<not> exists_path (moc_model_dir c) then Inl (moss_error_into (MossModelNotFound (moc_model_dir c)))
             else Inr [\<lparr>sp_request_id = sb_request_id b, sp_is_final = True, audio_pcm_chunk = [],
               sp_params = new_audio_params moss_sample_rate_hz 1 Pcm16Le, alignment = None, sp_usage = None\<rparr>])
        in case so_format (sb_options b) of
             Some fmt \<Rightarrow> if \<not> is_pcm fmt
               then Inl (moss_error_into (MossUnsupportedFormat (''MOSS only emits PCM; requested '' @ format_debug fmt @ '' is not supported'')))
               else present
           | None \<Rightarrow> present)"

definition moss_per_million_chars_usd :: "string \<Rightarrow> f64" where
  "moss_per_million_chars_usd m = Fin 0"

definition moss_estimate_usd :: "string \<Rightarrow> u64 \<Rightarrow> f64" where
  "moss_estimate_usd m chars = f64_div (f64_mul (moss_per_million_chars_usd m) (f64_of_nat (unat chars))) (Fin 1000000)"

section \<open>Audio2Face\<close>

record audio2face_config =
  a2f_endpoint :: string
  default_emotion :: "string option"
  a2f_connect_timeout :: duration
  a2f_request_timeout :: duration
  a2f_max_retries :: u32
  a2f_tls :: bool

definition defaults_for_a2f :: audio2face_config where
  "defaults_for_a2f = \<lparr>a2f_endpoint = ''localhost:50051'', default_emotion = None, a2f_connect_timeout = from_secs 5,
     a2f_request_timeout = from_secs 60, a2f_max_retries = 3, a2f_tls = False\<rparr>"

datatype audio2face_error = A2fFeatureDisabled | UnsupportedArch | A2fUnsupported string | A2fBadRequest string | A2fUnsupportedFormat string

fun audio2face_error_into :: "audio2face_error \<Rightarrow> inference_error" where
  "audio2face_error_into A2fFeatureDisabled = Internal ''audio2face feature is disabled; rebuild with --features audio2face''"
| "audio2face_error_into UnsupportedArch = Internal ''audio2face requires Linux x86_64; current platform is unsupported''"
| "audio2face_error_into (A2fUnsupported m) = BadRequest m"
| "audio2face_error_into (A2fBadRequest m) = BadRequest m"
| "audio2face_error_into (A2fUnsupportedFormat m) = BadRequest (''audio format: '' @ m)"

definition arkit_blendshape_names :: "string list" where
  "arkit_blendshape_names =
     [''eyeBlinkLeft'', ''eyeLookDownLeft'', ''eyeLookInLeft'', ''eyeLookOutLeft'', ''eyeLookUpLeft'', ''eyeSquintLeft'', ''eyeWideLeft'',
      ''eyeBlinkRight'', ''eyeLookDownRight'', ''eyeLookInRight'', ''eyeLookOutRight'', ''eyeLookUpRight'', ''eyeSquintRight'', ''eyeWideRight'',
      ''jawForward'', ''jawLeft'', ''jawRight'', ''jawOpen'',
      ''mouthClose'', ''mouthFunnel'', ''mouthPucker'', ''mouthLeft'', ''mouthRight'', ''mouthSmileLeft'', ''mouthSmileRight'',
      ''mouthFrownLeft'', ''mouthFrownRight'', ''mouthDimpleLeft'', ''mouthDimpleRight'', ''mouthStretchLeft'', ''mouthStretchRight'',
      ''mouthRollLower'', ''mouthRollUpper'', ''mouthShrugLower'', ''mouthShrugUpper'', ''mouthPressLeft'', ''mouthPressRight'',
      ''mouthLowerDownLeft'', ''mouthLowerDownRight'', ''mouthUpperUpLeft'', ''mouthUpperUpRight'',
      ''browDownLeft'', ''browDownRight'', ''browInnerUp'', ''browOuterUpLeft'', ''browOuterUpRight'',
      ''cheekPuff'', ''cheekSquintLeft'', ''cheekSquintRight'', ''noseSneerLeft'', ''noseSneerRight'', ''tongueOut'']"

definition a2f_to_arkit :: "f32 list \<Rightarrow> f32 list" where
  "a2f_to_arkit a2f = a2f"

definition saturating_mul :: "'a::len word \<Rightarrow> 'a word \<Rightarrow> 'a word" where
  "saturating_mul a b = (if unat a * unat b < 2 ^ LENGTH('a) then a * b else - 1)"

fun fp_abs :: "fp \<Rightarrow> fp" where
  "fp_abs (Fin x) = Fin \<bar>x\<bar>"
| "fp_abs NInf = PInf"
| "fp_abs v = v"

text \<open>\<^verbatim>\<open>f32::fract\<close> is \<^verbatim>\<open>self - self.trunc()\<close>.\<close>

fun fp_trunc :: "fp \<Rightarrow> fp" where
  "fp_trunc (Fin x) = Fin (of_int (if x < 0 then - \<lfloor>- x\<rfloor> else \<lfloor>x\<rfloor>))"
| "fp_trunc v = v"

definition f32_fract :: "f32 \<Rightarrow> f32" where
  "f32_fract v = f32_sub v (fp_trunc v)"

text \<open>\<^verbatim>\<open>std::f32::consts::TAU\<close> is the number nearest to the decimal.\<close>

definition tau_f32 :: f32 where
  "tau_f32 = f32_of_rat (628318530717958647692528676655900577 / 10 ^ 35)"

definition wave :: "(f32 \<Rightarrow> f32) \<Rightarrow> f32 \<Rightarrow> rat \<Rightarrow> rat \<Rightarrow> f32" where
  "wave sine t k amp = f32_mul (fp_abs (sine (f32_mul (f32_mul t tau_f32) (f32_of_rat k)))) (f32_of_rat amp)"

definition frame_weights :: "(f32 \<Rightarrow> f32) \<Rightarrow> f32 \<Rightarrow> f32 list" where
  "frame_weights sine t =
     (let raw = (replicate 52 (Fin 0))[17 := wave sine t 2 (6 / 10)];
          raw = raw[23 := wave sine t (3 / 2) (4 / 10)];
          raw = raw[24 := raw ! 23];
          blink = (if fp_lt (f32_of_rat (9 / 10)) (f32_fract (f32_mul t (Fin 4))) then f32_of_rat (8 / 10) else Fin 0)
      in raw[0 := blink, 7 := blink])"

definition generator_frame :: "(f32 \<Rightarrow> f32) \<Rightarrow> string \<Rightarrow> nat \<Rightarrow> u32 \<Rightarrow> nat \<Rightarrow> blendshape_chunk" where
  "generator_frame sine rid frame_count frame_duration_ms i =
     (let t = f32_div (f32_of_rat (of_nat i)) (f32_of_rat (of_nat (max frame_count 1)))
      in \<lparr>bs_request_id = rid, bs_is_final = (i = frame_count - 1), timestamp_ms = saturating_mul (word_of_nat i) frame_duration_ms,
          weights = a2f_to_arkit (frame_weights sine t)\<rparr>)"

definition build_generator_stream :: "(f32 \<Rightarrow> f32) \<Rightarrow> string \<Rightarrow> nat \<Rightarrow> u32 \<Rightarrow> blendshape_chunk list" where
  "build_generator_stream sine rid frame_count frame_duration_ms = map (generator_frame sine rid frame_count frame_duration_ms) [0..<frame_count]"

definition a2f_fps :: "a2f_options \<Rightarrow> u32" where
  "a2f_fps o1 = max (case fps o1 of Some n \<Rightarrow> n | None \<Rightarrow> 30) 1"

definition a2f_frame_count :: "u32 \<Rightarrow> 'rx audio_batch \<Rightarrow> nat" where
  "a2f_frame_count rate b = (case ab_input b of
     Static payload \<Rightarrow>
       if 0 < estimated_units b then unat (estimated_units b)
       else (case payload of
         Bytes data params \<Rightarrow>
           let samples_per_frame = sample_rate_hz params div max rate 1;
               total_samples = (word_of_nat (length data) :: u32) div max (2 * ucast (channels params)) 1
           in unat (max (total_samples div max samples_per_frame 1) 1)
       | _ \<Rightarrow> unat rate)
   | Stream _ _ \<Rightarrow> unat rate)"

definition audio2face_execute :: "bool \<Rightarrow> bool \<Rightarrow> (f32 \<Rightarrow> f32) \<Rightarrow> audio2face_config \<Rightarrow> 'rx audio_batch \<Rightarrow> blendshape_chunk list inference_result" where
  "audio2face_execute feature linux_x86_64 sine c b =
     (if \<not> feature then Inl (audio2face_error_into A2fFeatureDisabled)
      else if \<not> linux_x86_64 then Inl (audio2face_error_into UnsupportedArch)
      else (case ab_options b of
        Transcribe _ \<Rightarrow> Inl (audio2face_error_into (A2fBadRequest ''expected AudioOptions::Audio2Face; got Transcribe variant''))
      | Audio2Face o1 \<Rightarrow>
          let rate = a2f_fps o1; frame_duration_ms = 1000 div max rate 1; frame_count = max (a2f_frame_count rate b) 1
          in Inr (build_generator_stream sine (ab_request_id b) frame_count frame_duration_ms)))"

definition audio2face_rebuild_session :: "bool \<Rightarrow> session_rebuild_cause \<Rightarrow> unit inference_result" where
  "audio2face_rebuild_session feature cause = (if \<not> feature then Inl (audio2face_error_into A2fFeatureDisabled) else Inr ())"

definition a2f_per_minute_usd :: "string \<Rightarrow> f64" where
  "a2f_per_minute_usd m = Fin 0"

section \<open>Facts: speech placeholders\<close>

text \<open>What XTTS, Kokoro and MOSS promise: a request they do not refuse is answered by one final chunk without audio, and a refusal
  is an error no caller retries.\<close>

locale silent_speech =
  fixes speak :: "speech_batch \<Rightarrow> speech_chunk list inference_result"
    and refusal :: "speech_batch \<Rightarrow> inference_error option"
  assumes speak_law: "speak b = (case refusal b of Some e \<Rightarrow> Inl e | None \<Rightarrow> Inr [pcm_chunk (sb_request_id b) 24000 True []])"
    and refusal_final: "refusal b = Some e \<Longrightarrow> \<not> is_retryable e"
begin

lemma silent:
  assumes "speak b = Inr cs"
  shows "concat (map audio_pcm_chunk cs) = [] \<and> map sp_is_final cs = [True] \<and> list_all (\<lambda>c. params_valid (sp_params c) \<and> sp_request_id c = sb_request_id b) cs"
  using assms by (auto simp: speak_law pcm_chunk_def new_audio_params_def params_valid_def split: option.splits)

lemma not_retried: "speak b = Inl e \<Longrightarrow> \<not> is_retryable e"
  by (auto simp: speak_law refusal_final split: option.splits)

lemma answers_iff: "isl (speak b) \<longleftrightarrow> refusal b \<noteq> None"
  by (auto simp: speak_law split: option.splits)

end

definition first_refusal :: "(bool \<times> inference_error) list \<Rightarrow> inference_error option" where
  "first_refusal tests = map_option snd (List.find fst tests)"

lemma first_refusal_simps [simp]:
  "first_refusal [] = None" "first_refusal ((p, e) # ts) = (if p then Some e else first_refusal ts)"
  by (simp_all add: first_refusal_def)

definition not_pcm :: "speech_batch \<Rightarrow> bool" where
  "not_pcm b \<longleftrightarrow> (case so_format (sb_options b) of Some f \<Rightarrow> \<not> is_pcm f | None \<Rightarrow> False)"

definition bad_clone :: "voice_ref \<Rightarrow> bool" where
  "bad_clone v \<longleftrightarrow> (case v of ClonedFrom p \<Rightarrow> \<not> params_valid (payload_params p) | _ \<Rightarrow> False)"

definition only_pcm :: "string \<Rightarrow> speech_batch \<Rightarrow> inference_error" where
  "only_pcm name b = UnsupportedAudioFormat (name @ '' only emits PCM; requested '' @ format_debug (the (so_format (sb_options b))) @ '' is not supported'')"

lemmas refusal_defs = not_pcm_def bad_clone_def only_pcm_def pcm_chunk_def

text \<open>The tests in the order the code makes them.\<close>

definition xtts_refusal :: "(string \<Rightarrow> bool) \<Rightarrow> xtts_config \<Rightarrow> speech_batch \<Rightarrow> inference_error option" where
  "xtts_refusal exists_path c b = first_refusal [(not_pcm b, only_pcm ''XTTS'' b),
     (bad_clone (sb_voice b), xtts_error_into (ReferenceAudioError ''reference audio params out of valid range'')),
     (\<not> exists_path (join_path (xc_model_path c) ''model.onnx''), xtts_error_into (XttsModelNotFound (join_path (xc_model_path c) ''model.onnx'')))]"

definition kokoro_refusal :: "(string \<Rightarrow> bool) \<Rightarrow> kokoro_config \<Rightarrow> speech_batch \<Rightarrow> inference_error option" where
  "kokoro_refusal exists_path c b = first_refusal [(kc_default_voice c = [], kokoro_error_into EmptyVoiceName), (not_pcm b, only_pcm ''Kokoro'' b),
     (\<not> exists_path (voice_onnx_path c), kokoro_error_into (VoiceNotFound (voice_onnx_path c)))]"

definition moss_refusal :: "bool \<Rightarrow> (string \<Rightarrow> bool) \<Rightarrow> moss_config \<Rightarrow> speech_batch \<Rightarrow> inference_error option" where
  "moss_refusal linux exists_path c b = first_refusal [(\<not> linux, moss_error_into RequiresLinux), (not_pcm b, only_pcm ''MOSS'' b),
     (\<not> exists_path (moc_model_dir c), moss_error_into (MossModelNotFound (moc_model_dir c)))]"

interpretation xtts: silent_speech "xtts_speak True exists_path c" "xtts_refusal exists_path c"
proof
  show "xtts_speak True exists_path c b = (case xtts_refusal exists_path c b of Some e \<Rightarrow> Inl e | None \<Rightarrow> Inr [pcm_chunk (sb_request_id b) 24000 True []])" for b
    by (cases "sb_voice b") (simp_all add: xtts_speak_def xtts_validate_batch_def xtts_refusal_def xtts_sample_rate_hz_def refusal_defs Let_def split: option.splits)
qed (auto simp: xtts_refusal_def only_pcm_def split: if_splits)

interpretation kokoro: silent_speech "kokoro_speak True exists_path c" "kokoro_refusal exists_path c"
proof
  show "kokoro_speak True exists_path c b = (case kokoro_refusal exists_path c b of Some e \<Rightarrow> Inl e | None \<Rightarrow> Inr [pcm_chunk (sb_request_id b) 24000 True []])" for b
    by (simp add: kokoro_speak_def kokoro_validate_batch_def kokoro_refusal_def kokoro_sample_rate_hz_def refusal_defs split: option.splits)
qed (auto simp: kokoro_refusal_def only_pcm_def split: if_splits)

interpretation moss: silent_speech "moss_speak True linux exists_path c" "moss_refusal linux exists_path c"
proof
  show "moss_speak True linux exists_path c b = (case moss_refusal linux exists_path c b of Some e \<Rightarrow> Inl e | None \<Rightarrow> Inr [pcm_chunk (sb_request_id b) 24000 True []])" for b
    by (simp add: moss_speak_def moss_refusal_def moss_sample_rate_hz_def refusal_defs Let_def split: option.splits)
qed (auto simp: moss_refusal_def only_pcm_def split: if_splits)

lemma f64_of_count: "m < 2 ^ 64 \<Longrightarrow> \<exists>x. f64_of_nat m = Fin x"
proof -
  assume "m < 2 ^ 64"
  then have "(of_nat m :: rat) < of_nat (2 ^ 64)" unfolding of_nat_less_iff .
  then have "round64 (of_nat m) \<le> round64 (2 ^ 64)" by (intro r64.rnd_mono) simp
  also have "round64 (2 ^ 64) = 2 ^ 64" using round_pos_exact [of 53 1 "- 1074" 64 "2 ^ 64"] by (simp add: round64_def round_fp_def)
  finally show ?thesis using r64.rnd_nonneg [of "of_nat m"] by (auto simp: f64_of_nat_def f64_of_rat_def Let_def)
qed

text \<open>None of the three charges anything.\<close>

lemma local_speech_is_free: "xtts_estimate_usd m n = Fin 0" "kokoro_estimate_usd m n = Fin 0" "moss_estimate_usd m n = Fin 0"
proof -
  have "\<exists>x. f64_of_nat (unat n) = Fin x" by (rule f64_of_count) (use unsigned_less [of n] in simp)
  then obtain x where "f64_of_nat (unat n) = Fin x" by blast
  moreover have "f64_of_rat 0 = Fin 0" using f64_of_nat_exact [of 0] by (simp add: f64_of_nat_def)
  ultimately show "xtts_estimate_usd m n = Fin 0" "kokoro_estimate_usd m n = Fin 0" "moss_estimate_usd m n = Fin 0"
    by (simp_all add: xtts_estimate_usd_def kokoro_estimate_usd_def moss_estimate_usd_def xtts_per_million_chars_usd_def
      kokoro_per_million_chars_usd_def moss_per_million_chars_usd_def)
qed

section \<open>Facts: Audio2Face\<close>

lemma arkit_names: "length arkit_blendshape_names = 52 \<and> distinct arkit_blendshape_names \<and> arkit_blendshape_names ! 17 = ''jawOpen''"
  by (simp add: arkit_blendshape_names_def)

lemma unat_saturating_mul: "unat (saturating_mul (a :: 'a::len word) b) = min (unat a * unat b) (2 ^ LENGTH('a) - 1)"
proof (cases "unat a * unat b < 2 ^ LENGTH('a)")
  case True
  then show ?thesis by (simp add: saturating_mul_def unat_word_ariths)
next
  case False
  then show ?thesis by (simp add: saturating_mul_def unsigned_minus_1_eq_mask mask_eq_exp_minus_1)
qed

definition in_range :: "int \<Rightarrow> fp \<Rightarrow> bool" where
  "in_range n v \<longleftrightarrow> (case v of Fin x \<Rightarrow> 0 \<le> x \<and> x \<le> of_int n | _ \<Rightarrow> False)"

lemma in_rangeE: "in_range n v \<Longrightarrow> (\<And>x. v = Fin x \<Longrightarrow> 0 \<le> x \<Longrightarrow> x \<le> of_int n \<Longrightarrow> P) \<Longrightarrow> P"
  by (auto simp: in_range_def split: fp.splits)

lemma f32_of_rat_range:
  assumes "0 \<le> x" "x \<le> of_int n" "n < 1048576"
  shows "in_range n (f32_of_rat x)"
proof -
  have "of_int n < (of_int 1048576 :: rat)" unfolding of_int_less_iff by (rule assms(3))
  then have "\<bar>x\<bar> < 2 ^ 20" using assms(1,2) by simp
  moreover have "round_fp 24 (- 149) 0 \<le> round_fp 24 (- 149) x" "round_fp 24 (- 149) x \<le> round_fp 24 (- 149) (of_int n)"
    using assms(1,2) by (auto intro: round_fp_mono)
  moreover have "0 \<le> n" using order_trans [OF assms(1,2)] by simp
  ultimately show ?thesis using round32_int [of 0] round32_int [of n] assms(3) by (simp add: f32_of_rat_small in_range_def)
qed

lemma f32_mul_range:
  assumes "in_range m a" "in_range n b" "m * n < 1048576"
  shows "in_range (m * n) (f32_mul a b)"
proof -
  obtain x y where "a = Fin x" "0 \<le> x" "x \<le> of_int m" "b = Fin y" "0 \<le> y" "y \<le> of_int n" using assms(1,2) by (auto elim!: in_rangeE)
  moreover from this have "x * y \<le> of_int (m * n)" by (simp add: mult_mono)
  ultimately show ?thesis using f32_of_rat_range [of "x * y" "m * n"] assms(3) by simp
qed

lemma f32_of_count:
  assumes "i \<le> j" "j < 2 ^ 64"
  shows "\<exists>x y. f32_of_rat (of_nat i) = Fin x \<and> f32_of_rat (of_nat j) = Fin y \<and> 0 \<le> x \<and> x \<le> y \<and> (0 < j \<longrightarrow> 1 \<le> y)"
proof -
  let ?r = "round_fp 24 (- 149)"
  have "of_nat j < (of_nat (2 ^ 64) :: rat)" unfolding of_nat_less_iff by (rule assms(2))
  then have "?r (of_nat j) \<le> ?r (2 ^ 64)" by (auto intro: round_fp_mono)
  moreover have "?r (2 ^ 64) = 2 ^ 64" using round_pos_exact [of 24 1 "- 149" 64 "2 ^ 64"] by (simp add: round_fp_def)
  moreover have "?r 0 \<le> ?r (of_nat i)" "?r (of_nat i) \<le> ?r (of_nat j)" using assms(1) by (auto intro: round_fp_mono)
  moreover have "?r 1 \<le> ?r (of_nat j)" if "0 < j" using that by (auto intro: round_fp_mono)
  ultimately show ?thesis using round32_int [of 0] round32_int [of 1]
    by (intro exI [of _ "?r (of_nat i)"] exI [of _ "?r (of_nat j)"]) (auto simp: f32_of_rat_def Let_def)
qed

lemma frame_time_range:
  assumes "i < n" "n < 2 ^ 64"
  shows "in_range 1 (f32_div (f32_of_rat (of_nat i)) (f32_of_rat (of_nat (max n 1))))"
proof -
  obtain x y where "f32_of_rat (of_nat i) = Fin x" "f32_of_rat (of_nat n) = Fin y" "0 \<le> x" "x \<le> y" "1 \<le> y"
    using f32_of_count [of i n] assms by auto
  moreover have "max n 1 = n" using assms(1) by simp
  ultimately show ?thesis using f32_of_rat_range [of "x / y" 1] by simp
qed

definition sine_law :: "(f32 \<Rightarrow> f32) \<Rightarrow> bool" where
  "sine_law sine \<longleftrightarrow> (\<forall>x. \<exists>y. sine (Fin x) = Fin y \<and> - 1 \<le> y \<and> y \<le> 1)"

lemma wave_range:
  assumes "sine_law sine" "in_range 1 t" "0 \<le> k" "k \<le> 2" "0 \<le> amp" "amp \<le> 1"
  shows "in_range 1 (wave sine t k amp)"
proof -
  have "in_range 7 tau_f32" unfolding tau_f32_def by (rule f32_of_rat_range) simp_all
  from f32_mul_range [OF assms(2) this] have "in_range 7 (f32_mul t tau_f32)" by simp
  moreover have "in_range 2 (f32_of_rat k)" using assms(3,4) by (intro f32_of_rat_range) simp_all
  ultimately have "in_range (7 * 2) (f32_mul (f32_mul t tau_f32) (f32_of_rat k))" by (rule f32_mul_range) simp
  then obtain x where "f32_mul (f32_mul t tau_f32) (f32_of_rat k) = Fin x" by (rule in_rangeE)
  moreover obtain y where "sine (Fin x) = Fin y" "- 1 \<le> y" "y \<le> 1" using assms(1) by (auto simp: sine_law_def)
  ultimately have s: "in_range 1 (fp_abs (sine (f32_mul (f32_mul t tau_f32) (f32_of_rat k))))" by (simp add: in_range_def)
  have "in_range 1 (f32_of_rat amp)" using assms(5,6) by (intro f32_of_rat_range) simp_all
  from f32_mul_range [OF s this] show ?thesis by (simp add: wave_def)
qed

lemma frame_weights_range:
  assumes "sine_law sine" "in_range 1 t"
  shows "length (frame_weights sine t) = 52 \<and> list_all (in_range 1) (frame_weights sine t)"
proof -
  have "in_range 1 (wave sine t 2 (6 / 10))" "in_range 1 (wave sine t (3 / 2) (4 / 10))" using assms by (intro wave_range; simp)+
  moreover have "in_range 1 (f32_of_rat (8 / 10))" by (rule f32_of_rat_range) simp_all
  moreover have "in_range 1 (Fin 0)" by (simp add: in_range_def)
  ultimately show ?thesis by (simp add: frame_weights_def Let_def list_all_length nth_list_update)
qed

lemma a2f_frame_count_small: "a2f_frame_count rate b < 2 ^ 32"
  using unsigned_less [of rate] unsigned_less [of "estimated_units b"]
  by (auto simp: a2f_frame_count_def Let_def split: audio_input.splits audio_payload.splits intro: order_less_le_trans [OF unsigned_less])

text \<open>The duration of a frame is cut to whole milliseconds, so timestamps fall behind the audio.\<close>

lemma frame_duration_lags: "unat ((1000 :: u32) div max (a2f_fps o1) 1) * unat (a2f_fps o1) \<le> 1000"
  by (simp add: a2f_fps_def unat_div)

lemma frame_fields [simp]:
  "bs_request_id (generator_frame sine rid n d i) = rid" "bs_is_final (generator_frame sine rid n d i) \<longleftrightarrow> i = n - 1"
  "timestamp_ms (generator_frame sine rid n d i) = saturating_mul (word_of_nat i) d"
  by (simp_all add: generator_frame_def Let_def)

lemma frame_timestamp: "i < 2 ^ 32 \<Longrightarrow> unat (timestamp_ms (generator_frame sine rid n d i)) = min (i * unat d) (2 ^ 32 - 1)"
  by (simp add: unat_saturating_mul unat_of_nat)

lemma generated_weights:
  assumes "sine_law sine" "i < n" "n < 2 ^ 64"
  shows "length (weights (generator_frame sine rid n d i)) = 52 \<and> list_all (in_range 1) (weights (generator_frame sine rid n d i))"
  using frame_weights_range [OF assms(1) frame_time_range [OF assms(2,3)]] by (simp add: generator_frame_def Let_def a2f_to_arkit_def)

section \<open>Properties\<close>


definition demo_face :: "unit audio_batch" where
  "demo_face = \<lparr>ab_request_id = ''r'', ab_model = ''a'', ab_input = Static (Path ''p'' (new_audio_params 16000 1 Pcm16Le)), ab_stream = False,
     ab_options = Audio2Face \<lparr>fps = None, ao_emotion = None, smoothing_ms = None, strength = None\<rparr>, estimated_units = 3001\<rparr>"


end
