(* ===== verification/Vllm_Provision.thy ===== *)
theory Vllm_Provision
  imports Vllm_Engine Classify Control_Plane
begin

text \<open>
  The automatic Gemma deployment of \<^verbatim>\<open>inference-runtime-vllm\<close>: settings from the environment (\<^verbatim>\<open>defaults.rs\<close>), the Hugging
  Face cache and token (\<^verbatim>\<open>hf_cache.rs\<close>), the probe of the host (\<^verbatim>\<open>probe.rs\<close>), and the registration with the
  deployment manager.  Environment variables, file system, subprocesses and the library's number parsing and
  printing are fields of \<open>host\<close>.
\<close>

record command_output =
  cm_success :: bool
  cm_stdout :: string
  cm_stderr :: string

record host =
  env_var :: "string \<rightharpoonup> string"
  home_dir :: "string option"
  path_exists :: "string \<Rightarrow> bool"
  path_ancestors :: "string \<Rightarrow> string list"
  read_text :: "string \<Rightarrow> string + string"
  run_command :: "string list \<Rightarrow> string + command_output"
  parse_f32 :: "string \<Rightarrow> string + f32"
  int_error :: "string \<Rightarrow> string"
  show_1 :: "f32 \<Rightarrow> string"

section \<open>Strings\<close>

fun split_at :: "(char \<Rightarrow> bool) \<Rightarrow> string \<Rightarrow> string list" where
  "split_at q [] = [[]]"
| "split_at q (c # s) = (if q c then [] # split_at q s else (case split_at q s of p # ps \<Rightarrow> (c # p) # ps | [] \<Rightarrow> [[c]]))"

definition split_whitespace :: "string \<Rightarrow> string list" where
  "split_whitespace s = filter (\<lambda>w. w \<noteq> []) (split_at is_ws s)"

text \<open>\<^verbatim>\<open>str::lines\<close>: a line ends at a newline, with a carriage return before it or not; a final newline does not start a line.\<close>

definition strip_cr :: "string \<Rightarrow> string" where
  "strip_cr l = (if ends_with l [CHR 0x0D] then butlast l else l)"

definition str_lines :: "string \<Rightarrow> string list" where
  "str_lines s = (let ls = split_at (\<lambda>c. c = newline) s in map strip_cr (butlast ls) @ (if last ls = [] then [] else [last ls]))"

definition nth_opt :: "nat \<Rightarrow> 'x list \<Rightarrow> 'x option" where
  "nth_opt n xs = (if n < length xs then Some (xs ! n) else None)"

section \<open>Hugging Face cache\<close>

definition env_string :: "host \<Rightarrow> string \<Rightarrow> string option" where
  "env_string h var = (case env_var h var of
     Some s \<Rightarrow> if trim s = [] then None else Some (trim s) | None \<Rightarrow> None)"

record hf_cache =
  hc_home :: string
  hub_cache :: string
  token_path :: string

definition hf_resolve :: "host \<Rightarrow> hf_cache inference_result" where
  "hf_resolve h =
     (let home = (case env_string h ''HF_HOME'' of Some p \<Rightarrow> Some p
        | None \<Rightarrow> (case env_string h ''XDG_CACHE_HOME'' of Some x \<Rightarrow> Some (join_path x ''huggingface'')
          | None \<Rightarrow> map_option (\<lambda>d. join_path (join_path d ''.cache'') ''huggingface'') (home_dir h)))
      in case home of
        None \<Rightarrow> Inl (Internal (''hf-cache: no HF_HOME / XDG_CACHE_HOME / $HOME '' @ em_dash @ '' cannot resolve cache''))
      | Some d \<Rightarrow> Inr \<lparr>hc_home = d,
          hub_cache = (case env_string h ''HF_HUB_CACHE'' of Some p \<Rightarrow> p | None \<Rightarrow> join_path d ''hub''),
          token_path = join_path d ''token''\<rparr>)"

definition discover_token :: "host \<Rightarrow> hf_cache \<Rightarrow> string option inference_result" where
  "discover_token h c = (case env_string h ''HF_TOKEN'' of
     Some t \<Rightarrow> Inr (Some t)
   | None \<Rightarrow> (case env_string h ''HUGGING_FACE_HUB_TOKEN'' of
       Some t \<Rightarrow> Inr (Some t)
     | None \<Rightarrow> if path_exists h (token_path c)
         then (case read_text h (token_path c) of
           Inl e \<Rightarrow> Inl (Internal (''hf-cache: failed to read '' @ token_path c @ '': '' @ e))
         | Inr raw \<Rightarrow> Inr (if trim raw = [] then None else Some (trim raw)))
         else Inr None))"

definition free_bytes_at :: "host \<Rightarrow> string \<Rightarrow> u64 option" where
  "free_bytes_at h path = (case find (path_exists h) (path_ancestors h path) of
     None \<Rightarrow> None
   | Some p \<Rightarrow> (case run_command h [''df'', ''--output=avail'', ''-B1'', p] of
       Inl _ \<Rightarrow> None
     | Inr out \<Rightarrow> if \<not> cm_success out then None
         else (case nth_opt 1 (str_lines (cm_stdout out)) of None \<Rightarrow> None | Some l \<Rightarrow> parse_u64 (trim l))))"

definition free_bytes :: "host \<Rightarrow> hf_cache \<Rightarrow> u64 option" where
  "free_bytes h c = (case free_bytes_at h (hub_cache c) of
     Some n \<Rightarrow> Some n
   | None \<Rightarrow> (case free_bytes_at h (hc_home c) of
       Some n \<Rightarrow> Some n
     | None \<Rightarrow> free_bytes_at h (case nth_opt 1 (path_ancestors h (hc_home c)) of Some p \<Rightarrow> p | None \<Rightarrow> ''/'')))"

section \<open>The probe\<close>

datatype probe_result = ProbeReady f32 hf_cache | ProbeSkipped string string | ProbeError inference_error

definition probe_gpu :: "host \<Rightarrow> string + f32" where
  "probe_gpu h = (case run_command h [''nvidia-smi'', ''--query-gpu=memory.free'', ''--format=csv,noheader,nounits'', ''--id=0''] of
     Inl e \<Rightarrow> Inl (''nvidia-smi not on PATH (no NVIDIA driver?): '' @ e)
   | Inr out \<Rightarrow> if \<not> cm_success out then Inl (''nvidia-smi exited non-zero: '' @ trim (cm_stderr out))
       else (case str_lines (trim (cm_stdout out)) of
         [] \<Rightarrow> Inl ''nvidia-smi returned empty output''
       | l # _ \<Rightarrow> (case parse_f32 h (trim l) of
           Inl e \<Rightarrow> Inl (''could not parse nvidia-smi output `'' @ trim (cm_stdout out) @ ''`: '' @ e)
         | Inr mib \<Rightarrow> Inr (f32_div mib (Fin 1024)))))"

definition parse_version_part :: "host \<Rightarrow> string \<Rightarrow> string option \<Rightarrow> string + u32" where
  "parse_version_part h what s = (case s of
     None \<Rightarrow> Inl (''missing '' @ what)
   | Some t \<Rightarrow> (case parse_u32 t of None \<Rightarrow> Inl (''bad '' @ what @ '': '' @ int_error h t) | Some n \<Rightarrow> Inr n))"

definition probe_python :: "host \<Rightarrow> string + unit" where
  "probe_python h = (case run_command h [''python3'', ''--version''] of
     Inl e \<Rightarrow> Inl (''python3 not on PATH: '' @ e)
   | Inr out \<Rightarrow> if \<not> cm_success out then Inl ''python3 --version returned non-zero exit''
       else (let combined = cm_stdout out @ cm_stderr out in
         case nth_opt 1 (split_whitespace combined) of
           None \<Rightarrow> Inl (''could not parse `'' @ trim combined @ ''`'')
         | Some version \<Rightarrow> (let parts = split_at (\<lambda>c. c = CHR ''.'') version in
             case parse_version_part h ''major'' (nth_opt 0 parts) of
               Inl e \<Rightarrow> Inl e
             | Inr major \<Rightarrow> (case parse_version_part h ''minor'' (nth_opt 1 parts) of
                 Inl e \<Rightarrow> Inl e
               | Inr minor \<Rightarrow> if major < 3 \<or> major = 3 \<and> minor < 10
                   then Inl (''Python '' @ show_word major @ ''.'' @ show_word minor @ '' on PATH; vLLM requires 3.10+'') else Inr ()))))"

definition probe_vllm :: "host \<Rightarrow> string + string" where
  "probe_vllm h = (case run_command h [''python3'', ''-c'', ''import vllm; print(vllm.__version__)''] of
     Inl e \<Rightarrow> Inl (''python3 spawn failed: '' @ e)
   | Inr out \<Rightarrow> if \<not> cm_success out
       then Inl (if contains (cm_stderr out) ''ModuleNotFoundError'' \<or> contains (cm_stderr out) (''No module named '' @ [CHR 0x27] @ ''vllm'' @ [CHR 0x27])
                 then ''vLLM not importable in active python3'' else ''vllm import probe failed: '' @ trim (cm_stderr out))
       else Inr (trim (cm_stdout out)))"

definition probe_host :: "host \<Rightarrow> string \<Rightarrow> f32 \<Rightarrow> f32 \<Rightarrow> string option \<Rightarrow> probe_result" where
  "probe_host h mid min_vram min_disk smaller = (case hf_resolve h of
     Inl e \<Rightarrow> ProbeError e
   | Inr cache \<Rightarrow> (case probe_gpu h of
       Inl reason \<Rightarrow> ProbeSkipped reason ''set ATOMR_INFER_GEMMA_AUTO=skip-quietly to suppress this message; set ATOMR_INFER_GEMMA_MODEL=<remote-provider> to use a remote backend''
     | Inr vram \<Rightarrow>
       if fp_lt vram min_vram
       then ProbeSkipped (''insufficient VRAM for '' @ mid)
         (''free VRAM '' @ show_1 h vram @ '' GB < '' @ show_1 h min_vram @ '' GB needed for '' @ mid @ ''; '' @
          (case smaller of Some s \<Rightarrow> ''try ATOMR_INFER_GEMMA_MODEL='' @ s
           | None \<Rightarrow> ''no smaller supported variant '' @ em_dash @ '' consider a remote backend''))
       else (case probe_python h of
         Inl reason \<Rightarrow> ProbeSkipped reason ''install Python 3.10+ and ensure `python3` is on PATH''
       | Inr _ \<Rightarrow> (case probe_vllm h of
           Inl reason \<Rightarrow> ProbeSkipped reason (''install vLLM in the active venv: `pip install '' @ [CHR 0x27] @ ''vllm>=0.6.4'' @ [CHR 0x27] @ ''`'')
         | Inr _ \<Rightarrow> (case discover_token h cache of
             Inl e \<Rightarrow> ProbeError e
           | Inr None \<Rightarrow> ProbeSkipped ''no HuggingFace token found''
               (''run `huggingface-cli login`, then accept the Gemma ToS at https://huggingface.co/'' @ mid)
           | Inr (Some _) \<Rightarrow> (case free_bytes h cache of
               None \<Rightarrow> ProbeReady vram cache
             | Some free \<Rightarrow>
                 let free_gb = f32_div (f32_of_rat (of_nat (unat free))) (Fin 1000000000)
                 in if fp_lt free_gb min_disk
                    then ProbeSkipped (''insufficient disk for '' @ mid @ '': '' @ show_1 h free_gb @ '' GB free at '' @ hub_cache cache @
                        '' (need ~'' @ show_1 h min_disk @ '' GB)'') ''free up space or set HF_HUB_CACHE to a different mountpoint''
                    else ProbeReady vram cache))))))"

section \<open>Settings\<close>

definition supported_variants :: "string list" where
  "supported_variants = [''google/gemma-4-E2B'', ''google/gemma-4-E2B-it'', ''google/gemma-4-E4B'', ''google/gemma-4-E4B-it'']"

definition min_vram_gb :: "string \<Rightarrow> f32 option" where
  "min_vram_gb m = (if m \<in> {''google/gemma-4-E2B'', ''google/gemma-4-E2B-it''} then Some (Fin (5 / 2))
     else if m \<in> {''google/gemma-4-E4B'', ''google/gemma-4-E4B-it''} then Some (Fin (9 / 2)) else None)"

definition min_disk_gb :: "string \<Rightarrow> f32 option" where
  "min_disk_gb m = (if m \<in> {''google/gemma-4-E2B'', ''google/gemma-4-E2B-it''} then Some (Fin 4)
     else if m \<in> {''google/gemma-4-E4B'', ''google/gemma-4-E4B-it''} then Some (Fin 7) else None)"

definition fallback_variant :: "string \<Rightarrow> string option" where
  "fallback_variant m = (if m = ''google/gemma-4-E4B-it'' then Some ''google/gemma-4-E2B-it''
     else if m = ''google/gemma-4-E4B'' then Some ''google/gemma-4-E2B'' else None)"

fun join_comma :: "string list \<Rightarrow> string" where
  "join_comma [] = []"
| "join_comma [x] = x"
| "join_comma (x # xs) = x @ '', '' @ join_comma xs"

definition validate_variant :: "string \<Rightarrow> unit inference_result" where
  "validate_variant m = (if m \<in> set supported_variants then Inr ()
     else Inl (BadRequest (''unsupported Gemma variant `'' @ m @ ''` '' @ em_dash @ '' supported: '' @ join_comma supported_variants)))"

record gemma_defaults =
  gd_model_id :: string
  gd_deployment_name :: string
  gd_cache_dir :: "string option"
  gd_gpu_memory_utilization :: f32
  gd_max_model_len :: "u32 option"
  auto_provision :: bool

definition default_gemma :: gemma_defaults where
  "default_gemma = \<lparr>gd_model_id = ''google/gemma-4-E4B-it'', gd_deployment_name = ''gemma-local'', gd_cache_dir = None,
     gd_gpu_memory_utilization = Fin (1 / 2), gd_max_model_len = None, auto_provision = True\<rparr>"

definition gemma_from_env :: "host \<Rightarrow> gemma_defaults" where
  "gemma_from_env h =
     (let c0 = default_gemma;
          c1 = (case env_string h ''ATOMR_INFER_GEMMA_AUTO'' of None \<Rightarrow> c0
            | Some v \<Rightarrow> c0\<lparr>auto_provision := to_ascii_lowercase v \<notin> {''0'', ''false'', ''no'', ''off'', ''skip'', ''skip-quietly''}\<rparr>);
          c2 = (case env_string h ''ATOMR_INFER_GEMMA_MODEL'' of None \<Rightarrow> c1 | Some v \<Rightarrow> c1\<lparr>gd_model_id := v\<rparr>);
          c3 = (case env_string h ''ATOMR_INFER_GEMMA_DEPLOYMENT'' of None \<Rightarrow> c2 | Some v \<Rightarrow> c2\<lparr>gd_deployment_name := v\<rparr>);
          c4 = (case env_string h ''ATOMR_INFER_GEMMA_GPU_UTIL'' of None \<Rightarrow> c3
            | Some v \<Rightarrow> (case parse_f32 h v of Inr f \<Rightarrow> c3\<lparr>gd_gpu_memory_utilization := f\<rparr> | Inl _ \<Rightarrow> c3))
      in case env_string h ''ATOMR_INFER_GEMMA_MAX_LEN'' of None \<Rightarrow> c4
           | Some v \<Rightarrow> (case parse_u32 v of Some u \<Rightarrow> c4\<lparr>gd_max_model_len := Some u\<rparr> | None \<Rightarrow> c4))"

section \<open>Provisioning\<close>

datatype provision_outcome = ProvisionReady string | ProvisionSkipped string string

definition gemma_vllm_config :: "gemma_defaults \<Rightarrow> vllm_config" where
  "gemma_vllm_config cfg = \<lparr>vc_model = gd_model_id cfg, tensor_parallel_size = 1, dtype = ''auto'',
     gpu_memory_utilization = Some (gd_gpu_memory_utilization cfg), max_model_len = gd_max_model_len cfg, hf_cache_dir = gd_cache_dir cfg,
     enforce_eager = Some True, enable_prefix_caching = None, enable_chunked_prefill = None, max_num_seqs = Some 16, block_size = None,
     quantization = None, limit_mm_per_prompt = None, cpu_offload_gb = Some 4\<rparr>"

definition gemma_deployment :: "gemma_defaults \<Rightarrow> 'j runtime_config \<Rightarrow> 'j deployment" where
  "gemma_deployment cfg rc = \<lparr>dep_name = gd_deployment_name cfg, dep_model = gd_model_id cfg, dep_runtime = Some runtime_kind.Vllm,
     dep_runtime_config = Some rc, dep_gpus = Some 1, dep_replicas = 1, dep_serving = default_serving, dep_budget = None, dep_idempotent = True\<rparr>"

text \<open>\<open>to_value\<close> serialises the configuration; \<open>ask_apply\<close> sends \<^verbatim>\<open>Apply\<close> to the manager, whose state it returns with the
  answer, absent when the manager drops the reply.\<close>

definition provision_if_ready :: "host \<Rightarrow> (vllm_config \<Rightarrow> string + 'j) \<Rightarrow> ('m \<Rightarrow> 'j deployment \<Rightarrow> 'm \<times> unit inference_result option) \<Rightarrow> gemma_defaults \<Rightarrow> 'm \<Rightarrow>
    'm \<times> provision_outcome inference_result" where
  "provision_if_ready h to_value ask_apply cfg m = (case validate_variant (gd_model_id cfg) of
     Inl e \<Rightarrow> (m, Inl e)
   | Inr _ \<Rightarrow> (case probe_host h (gd_model_id cfg) (case min_vram_gb (gd_model_id cfg) of Some g \<Rightarrow> g | None \<Rightarrow> Fin (9 / 2))
         (case min_disk_gb (gd_model_id cfg) of Some g \<Rightarrow> g | None \<Rightarrow> Fin 7) (fallback_variant (gd_model_id cfg)) of
       ProbeSkipped reason hint \<Rightarrow> (m, Inr (ProvisionSkipped reason hint))
     | ProbeError e \<Rightarrow> (m, Inl e)
     | ProbeReady _ _ \<Rightarrow> (case to_value (gemma_vllm_config cfg) of
         Inl e \<Rightarrow> (m, Inl (Internal (''gemma defaults: serialise VllmConfig: '' @ e)))
       | Inr v \<Rightarrow> (case ask_apply m (gemma_deployment cfg (runtime_config.Vllm v)) of
           (m', None) \<Rightarrow> (m', Inl (Internal ''gemma defaults: deployment manager dropped reply channel''))
         | (m', Some (Inl e)) \<Rightarrow> (m', Inl e)
         | (m', Some (Inr _)) \<Rightarrow> (m', Inr (ProvisionReady (gd_deployment_name cfg)))))))"

text \<open>The manager as the other side of \<^verbatim>\<open>Apply\<close>; it always answers.\<close>

definition ask_manager :: "'j catalog \<Rightarrow> 'j deployment \<Rightarrow> 'j catalog \<times> unit inference_result option" where
  "ask_manager rs d = (case manager_handle (Apply d) rs of (rs', Done r) \<Rightarrow> (rs', Some r) | (rs', _) \<Rightarrow> (rs', None))"

section \<open>Facts\<close>

text \<open>The environment has what the model asks for.\<close>

definition host_fits :: "host \<Rightarrow> string \<Rightarrow> bool" where
  "host_fits h m \<longleftrightarrow> (case (hf_resolve h, probe_gpu h, min_vram_gb m, min_disk_gb m) of
     (Inr cache, Inr vram, Some min_vram, Some min_disk) \<Rightarrow>
       \<not> fp_lt vram min_vram \<and> probe_python h = Inr () \<and> \<not> isl (probe_vllm h) \<and>
       (case discover_token h cache of Inr (Some _) \<Rightarrow> True | _ \<Rightarrow> False) \<and>
       (case free_bytes h cache of Some free \<Rightarrow> \<not> fp_lt (f32_div (f32_of_rat (of_nat (unat free))) (Fin 1000000000)) min_disk | None \<Rightarrow> True)
   | _ \<Rightarrow> False)"

lemma supported_has_limits:
  "m \<in> set supported_variants \<Longrightarrow> (\<exists>g. min_vram_gb m = Some g) \<and> (\<exists>g. min_disk_gb m = Some g)"
  by (auto simp: supported_variants_def min_vram_gb_def min_disk_gb_def)

lemma probe_ready_iff:
  assumes "min_vram_gb m = Some v" "min_disk_gb m = Some d"
  shows "(\<exists>f c. probe_host h m v d smaller = ProbeReady f c) \<longleftrightarrow> host_fits h m"
  using assms unfolding probe_host_def host_fits_def
  by (auto simp: Let_def split: sum.splits option.splits if_splits)

lemma apply_gemma:
  "m \<noteq> [] \<Longrightarrow> gd_model_id cfg = m \<Longrightarrow> ask_manager rs (gemma_deployment cfg rc) =
     (if gd_deployment_name cfg = [] then (rs, Some (Inl (Internal (show_validation_error EmptyName))))
      else (AList.update (gd_deployment_name cfg) \<lparr>dr_deployment = gemma_deployment cfg rc, dr_state = Pending\<rparr> rs, Some (Inr ())))"
  by (simp add: ask_manager_def validate_def gemma_deployment_def)

definition provisions :: "host \<Rightarrow> gemma_defaults \<Rightarrow> bool" where
  "provisions h cfg \<longleftrightarrow> gd_model_id cfg \<in> set supported_variants \<and> host_fits h (gd_model_id cfg) \<and> gd_deployment_name cfg \<noteq> []"

lemma supported_nonempty: "m \<in> set supported_variants \<Longrightarrow> m \<noteq> []"
  by (auto simp: supported_variants_def)

section \<open>Properties\<close>


end
