(* ===== verification/Gateway.thy ===== *)
theory Gateway
  imports Routing Whisper_Decode Event_Loop
begin

text \<open>
  The HTTP gateway, \<^verbatim>\<open>inference-runtime/src/gateway.rs\<close>: the actor that owns the listener, and the handlers of the routes.
  A handler asks the coordinator of \<open>Routing\<close> for an engine; \<open>answered\<close> says whether the answer came within the
  two seconds.  The web framework decodes bodies and upgrades sockets, so the handlers start from decoded
  requests and from what a socket yields.  JSON bodies are values.
\<close>

section \<open>The actor\<close>

record gateway_actor =
  ga_bind :: string
  shutdown_tx :: bool

datatype gateway_effect = SpawnListener string | SignalShutdown | StopSelf

definition default_gateway_bind :: string where
  "default_gateway_bind = ''127.0.0.1:8080''"

definition new_gateway :: "string \<Rightarrow> gateway_actor" where
  "new_gateway b = \<lparr>ga_bind = b, shutdown_tx = False\<rparr>"

definition gateway_pre_start :: "string + unit \<Rightarrow> gateway_actor \<Rightarrow> gateway_actor \<times> gateway_effect list" where
  "gateway_pre_start bound g = (case bound of
     Inl _ \<Rightarrow> (g, []) | Inr _ \<Rightarrow> (g\<lparr>shutdown_tx := True\<rparr>, [SpawnListener (ga_bind g)]))"

definition take_shutdown :: "gateway_actor \<Rightarrow> gateway_actor \<times> gateway_effect list" where
  "take_shutdown g = (g\<lparr>shutdown_tx := False\<rparr>, if shutdown_tx g then [SignalShutdown] else [])"

definition gateway_handle_stop :: "gateway_actor \<Rightarrow> gateway_actor \<times> gateway_effect list" where
  "gateway_handle_stop g = (case take_shutdown g of (g', fx) \<Rightarrow> (g', fx @ [StopSelf]))"

definition gateway_post_stop :: "gateway_actor \<Rightarrow> gateway_actor \<times> gateway_effect list" where
  "gateway_post_stop g = take_shutdown g"

section \<open>Answers\<close>

text \<open>The \<^verbatim>\<open>Display\<close> text of an error; the debug printers of the library are given.\<close>

record debug_fmt =
  dbg_duration :: "duration option \<Rightarrow> string"
  dbg_provider :: "provider_kind \<Rightarrow> string"
  dbg_runtime :: "runtime_kind \<Rightarrow> string"

fun display_error :: "debug_fmt \<Rightarrow> inference_error \<Rightarrow> string" where
  "display_error f (RateLimited _ d) = ''rate-limited (retry after '' @ dbg_duration f d @ '')''"
| "display_error f (CircuitOpen p opened retry) = ''circuit open for '' @ dbg_provider f p @ '' until '' @ show_word retry @ '' (opened at '' @ show_word opened @ '')''"
| "display_error f (ContentFiltered s) = ''content filtered: '' @ s"
| "display_error f (ContextLengthExceeded n m) = ''context length exceeded ('' @ show_word n @ '' > '' @ show_word m @ '')''"
| "display_error f (BadRequest s) = ''bad request: '' @ s"
| "display_error f (Unauthorized s) = ''unauthorized: '' @ s"
| "display_error f (Forbidden s) = ''forbidden: '' @ s"
| "display_error f (Backpressure s) = ''backpressure: '' @ s"
| "display_error f (BudgetExceeded s) = ''budget exceeded for `'' @ s @ ''`''"
| "display_error f (NetworkError s) = ''network error: '' @ s"
| "display_error f (ServerError n _) = ''server error: '' @ show_word n"
| "display_error f (Timeout n) = ''timeout after '' @ show_word n @ ''ms''"
| "display_error f (CudaContextPoisoned s) = ''CUDA context poisoned: '' @ s"
| "display_error f (Unsupported m r) = m @ '' is unsupported by runtime '' @ dbg_runtime f r"
| "display_error f (UnsupportedAudioFormat s) = ''unsupported audio format: '' @ s"
| "display_error f (RealtimeClosed s) = ''realtime session closed: '' @ s"
| "display_error f (Internal s) = ''internal: '' @ s"

record gateway_choice =
  cc_index :: nat
  cc_role :: string
  cc_content :: string
  cc_finish_reason :: string

datatype gateway_body =
    PlainText string
  | ChatEnvelope string string string "gateway_choice list"
  | ErrorEnvelope string string
  | TranscriptionBody string "string option" "u32 option"
  | AudioBody string "u8 list"
  | SseBody "string list"

record gateway_response =
  gr_status :: u16
  gr_body :: gateway_body

definition bad_request :: "string \<Rightarrow> string \<Rightarrow> gateway_response" where
  "bad_request msg kind = \<lparr>gr_status = 400, gr_body = ErrorEnvelope msg kind\<rparr>"

text \<open>\<^verbatim>\<open>ask_with(RouteTo)\<close>: an engine, the coordinator's error, or nothing in time.\<close>

definition ask_route :: "('e \<Rightarrow> 'p) \<Rightarrow> bool \<Rightarrow> string \<Rightarrow> 'e routes \<Rightarrow> 'e routes \<times> 'e route_target inference_result option" where
  "ask_route path answered d rs = (if \<not> answered then (rs, None)
     else (case coordinator_handle path (RouteTo d) rs of (rs', [r]) \<Rightarrow> (rs', Some r) | (rs', _) \<Rightarrow> (rs', None)))"

definition resolve_route :: "debug_fmt \<Rightarrow> ('e \<Rightarrow> 'p) \<Rightarrow> bool \<Rightarrow> string \<Rightarrow> 'e routes \<Rightarrow> 'e routes \<times> (gateway_response + unit)" where
  "resolve_route f path answered d rs = (case ask_route path answered d rs of
     (rs', Some (Inr _)) \<Rightarrow> (rs', Inr ())
   | (rs', Some (Inl e)) \<Rightarrow> (rs', Inl (bad_request (display_error f e) ''no_route''))
   | (rs', None) \<Rightarrow> (rs', Inl (bad_request ''coordinator timeout'' ''internal_error'')))"

section \<open>Chat\<close>

record gateway_message =
  cm_role :: string
  cm_content :: string

record gateway_chat =
  cr_model :: string
  cr_messages :: "gateway_message list"
  cr_stream :: bool
  cr_temperature :: "f32 option"
  cr_max_tokens :: "u32 option"

definition parse_role :: "string \<Rightarrow> role" where
  "parse_role s = (if s = ''system'' then System else if s = ''assistant'' then Assistant else if s = ''tool'' then Tool else User)"

definition chat_batch :: "int option \<Rightarrow> gateway_chat \<Rightarrow> execute_batch" where
  "chat_batch now_nanos req =
     \<lparr>request_id = ''req-'' @ show_int (case now_nanos of Some n \<Rightarrow> n | None \<Rightarrow> 0), model = cr_model req,
      messages = map (\<lambda>m. \<lparr>role = parse_role (cm_role m), content = message_content.Text (cm_content m)\<rparr>) (cr_messages req),
      sampling = default_sampling_params\<lparr>temperature := cr_temperature req, max_tokens := cr_max_tokens req\<rparr>,
      stream = cr_stream req, estimated_tokens_field = 256\<rparr>"

definition chat_completions :: "debug_fmt \<Rightarrow> ('e \<Rightarrow> 'p) \<Rightarrow> bool \<Rightarrow> int option \<Rightarrow> gateway_chat \<Rightarrow> 'e routes \<Rightarrow> 'e routes \<times> gateway_response" where
  "chat_completions f path answered now_nanos req rs =
     (let batch = chat_batch now_nanos req in
      case ask_route path answered (cr_model req) rs of
        (rs', Some (Inr _)) \<Rightarrow> (rs', \<lparr>gr_status = 200, gr_body = ChatEnvelope (request_id batch) (model batch) ''chat.completion''
          [\<lparr>cc_index = 0, cc_role = ''assistant'', cc_content = [], cc_finish_reason = ''stop''\<rparr>]\<rparr>)
      | (rs', Some (Inl e)) \<Rightarrow> (rs', bad_request (display_error f e) ''no_route'')
      | (rs', None) \<Rightarrow> (rs', bad_request ''coordinator timeout'' ''internal_error''))"

section \<open>Transcriptions\<close>

record mp_field =
  mp_name :: "string option"
  mp_text :: "string option"
  mp_bytes :: "u8 list option"

type_synonym mp_read = "string + mp_field option"

fun multipart_loop :: "string option \<Rightarrow> u8 list option \<Rightarrow> mp_read list \<Rightarrow> string option \<times> u8 list option" where
  "multipart_loop m a [] = (m, a)"
| "multipart_loop m a (Inl _ # _) = (m, a)"
| "multipart_loop m a (Inr None # _) = (m, a)"
| "multipart_loop m a (Inr (Some fd) # rs) =
     (if mp_name fd = Some ''model'' then multipart_loop (mp_text fd) a rs
      else if mp_name fd = Some ''file'' then multipart_loop m (mp_bytes fd) rs
      else multipart_loop m a rs)"

definition audio_transcriptions :: "debug_fmt \<Rightarrow> ('e \<Rightarrow> 'p) \<Rightarrow> bool \<Rightarrow> mp_read list \<Rightarrow> 'e routes \<Rightarrow> 'e routes \<times> gateway_response" where
  "audio_transcriptions f path answered reads rs = (case multipart_loop None None reads of
     (None, _) \<Rightarrow> (rs, bad_request (''missing '' @ [CHR 0x27] @ ''model'' @ [CHR 0x27] @ '' field'') ''invalid_request'')
   | (Some m, None) \<Rightarrow> (rs, bad_request (''missing '' @ [CHR 0x27] @ ''file'' @ [CHR 0x27] @ '' field'') ''invalid_request'')
   | (Some m, Some _) \<Rightarrow> (case resolve_route f path answered m rs of
       (rs', Inr _) \<Rightarrow> (rs', \<lparr>gr_status = 200, gr_body = TranscriptionBody [] None None\<rparr>)
     | (rs', Inl r) \<Rightarrow> (rs', r)))"

section \<open>Speech\<close>

record speech_request =
  sr_model :: string
  sr_input :: string
  sr_voice :: string
  sr_response_format :: string
  sr_speed :: "f32 option"
  sr_emotion :: "string option"

definition default_response_format :: string where
  "default_response_format = ''wav''"

definition wav_content_type :: "string \<Rightarrow> string" where
  "wav_content_type fmt = (if fmt = ''mp3'' then ''audio/mpeg'' else if fmt = ''flac'' then ''audio/flac''
     else if fmt = ''opus'' \<or> fmt = ''ogg'' then ''audio/ogg'' else ''audio/wav'')"

definition silent_wav_stub :: "u8 list" where
  "silent_wav_stub = bytes_of ''RIFF'' @ le_bytes32 36 @ bytes_of ''WAVE'' @ bytes_of ''fmt '' @ le_bytes32 16 @ le_bytes16 1 @ le_bytes16 1 @
     le_bytes32 16000 @ le_bytes32 32000 @ le_bytes16 2 @ le_bytes16 16 @ bytes_of ''data'' @ le_bytes32 0"

definition audio_speech :: "debug_fmt \<Rightarrow> ('e \<Rightarrow> 'p) \<Rightarrow> bool \<Rightarrow> speech_request \<Rightarrow> 'e routes \<Rightarrow> 'e routes \<times> gateway_response" where
  "audio_speech f path answered req rs = (case resolve_route f path answered (sr_model req) rs of
     (rs', Inr _) \<Rightarrow> (rs', \<lparr>gr_status = 200, gr_body = AudioBody (wav_content_type (sr_response_format req)) silent_wav_stub\<rparr>)
   | (rs', Inl r) \<Rightarrow> (rs', r))"

definition audio_speech_sse_stub :: "string list" where
  "audio_speech_sse_stub = [''[DONE]'']"

definition audio_speech_stream :: "debug_fmt \<Rightarrow> ('e \<Rightarrow> 'p) \<Rightarrow> bool \<Rightarrow> speech_request \<Rightarrow> 'e routes \<Rightarrow> 'e routes \<times> gateway_response" where
  "audio_speech_stream f path answered req rs = (case resolve_route f path answered (sr_model req) rs of
     (rs', Inr _) \<Rightarrow> (rs', \<lparr>gr_status = 200, gr_body = SseBody audio_speech_sse_stub\<rparr>)
   | (rs', Inl r) \<Rightarrow> (rs', r))"

section \<open>The router\<close>

datatype gateway_request =
    Healthz
  | ChatCompletions "int option" gateway_chat
  | Transcriptions "mp_read list"
  | SpeechReq speech_request
  | SpeechStreamReq speech_request

fun gateway_route :: "debug_fmt \<Rightarrow> ('e \<Rightarrow> 'p) \<Rightarrow> bool \<Rightarrow> gateway_request \<Rightarrow> 'e routes \<Rightarrow> 'e routes \<times> gateway_response" where
  "gateway_route f path answered Healthz rs = (rs, \<lparr>gr_status = 200, gr_body = PlainText ''ok''\<rparr>)"
| "gateway_route f path answered (ChatCompletions now req) rs = chat_completions f path answered now req rs"
| "gateway_route f path answered (Transcriptions reads) rs = audio_transcriptions f path answered reads rs"
| "gateway_route f path answered (SpeechReq req) rs = audio_speech f path answered req rs"
| "gateway_route f path answered (SpeechStreamReq req) rs = audio_speech_stream f path answered req rs"

fun gateway_serve :: "debug_fmt \<Rightarrow> ('e \<Rightarrow> 'p) \<Rightarrow> (bool \<times> gateway_request) list \<Rightarrow> 'e routes \<Rightarrow> 'e routes \<times> gateway_response list" where
  "gateway_serve f path [] rs = (rs, [])"
| "gateway_serve f path ((answered, q) # qs) rs =
     (let (rs1, r) = gateway_route f path answered q rs; (rs2, out) = gateway_serve f path qs rs1 in (rs2, r # out))"

section \<open>Sockets\<close>

datatype axum_message = AxText string | AxBinary "u8 list" | AxPing "u8 list" | AxPong "u8 list" | AxClose "(u16 \<times> string) option"

type_synonym axum_read = "string + axum_message option"

datatype gateway_frame = FinalTranscript bool string | ResponseText string | CloseNone

text \<open>Reading until the peer closes, the connection fails or ends; data is ignored.  False while the loop still waits.\<close>

fun drain_ended :: "axum_read list \<Rightarrow> bool" where
  "drain_ended [] = False"
| "drain_ended (Inl _ # _) = True"
| "drain_ended (Inr None # _) = True"
| "drain_ended (Inr (Some (AxClose _)) # _) = True"
| "drain_ended (Inr (Some _) # rs) = drain_ended rs"

definition audio_transcriptions_stream_inner :: "(nat \<Rightarrow> bool) \<Rightarrow> axum_read list \<Rightarrow> gateway_frame list" where
  "audio_transcriptions_stream_inner alive reads = (if drain_ended reads
     then snd (rt_send alive CloseNone (snd (rt_send alive (FinalTranscript True []) []))) else [])"

definition audio2face_session_inner :: "(nat \<Rightarrow> bool) \<Rightarrow> axum_read list \<Rightarrow> gateway_frame list" where
  "audio2face_session_inner alive reads = (if drain_ended reads then snd (rt_send alive CloseNone []) else [])"

fun realtime_loop :: "(nat \<Rightarrow> bool) \<Rightarrow> gateway_frame list \<Rightarrow> axum_read list \<Rightarrow> gateway_frame list" where
  "realtime_loop alive out [] = out"
| "realtime_loop alive out (Inl _ # _) = snd (rt_send alive CloseNone out)"
| "realtime_loop alive out (Inr None # _) = snd (rt_send alive CloseNone out)"
| "realtime_loop alive out (Inr (Some m) # rs) = (case m of
     AxText t \<Rightarrow> (case rt_send alive (ResponseText t) out of
         (True, out') \<Rightarrow> realtime_loop alive out' rs
       | (False, out') \<Rightarrow> snd (rt_send alive CloseNone out'))
   | AxClose _ \<Rightarrow> snd (rt_send alive CloseNone out)
   | _ \<Rightarrow> realtime_loop alive out rs)"

definition realtime_session_inner :: "(nat \<Rightarrow> bool) \<Rightarrow> axum_read list \<Rightarrow> gateway_frame list" where
  "realtime_session_inner alive reads = realtime_loop alive [] reads"

section \<open>Facts: sockets\<close>

fun echo_emit :: "axum_read \<Rightarrow> gateway_frame list" where
  "echo_emit (Inr (Some (AxText t))) = [ResponseText t]"
| "echo_emit (Inr (Some (AxClose _))) = [CloseNone]"
| "echo_emit (Inr (Some _)) = []"
| "echo_emit _ = [CloseNone]"

definition socket_ends :: "axum_read \<Rightarrow> bool" where
  "socket_ends r \<longleftrightarrow> drain_ended [r]"

lemma realtime_loop_out: "realtime_loop (\<lambda>_. True) out rs = out @ realtime_loop (\<lambda>_. True) [] rs"
proof (induction rs arbitrary: out)
  case (Cons r rs)
  show ?case
  proof (cases "echo_emit r = [] \<or> socket_ends r")
    case True
    with Cons [of out] show ?thesis by (cases r rule: echo_emit.cases) (auto simp: socket_ends_def)
  next
    case False
    then obtain t where "r = Inr (Some (AxText t))" by (cases r rule: echo_emit.cases) (auto simp: socket_ends_def)
    with Cons [of "out @ [ResponseText t]"] Cons [of "[ResponseText t]"] show ?thesis by simp
  qed
qed simp

interpretation echo: event_loop "realtime_loop (\<lambda>_. True) []" echo_emit socket_ends
proof
  fix e es
  show "realtime_loop (\<lambda>_. True) [] (e # es) = echo_emit e @ (if socket_ends e then [] else realtime_loop (\<lambda>_. True) [] es)"
    using realtime_loop_out [of "echo_emit e" es]
    by (cases e rule: echo_emit.cases) (simp_all add: socket_ends_def)
qed simp

lemma realtime_session_echoes:
  assumes "\<not> list_ex socket_ends rs" "socket_ends r"
  shows "realtime_session_inner (\<lambda>_. True) (rs @ r # rs') = concat (map echo_emit rs) @ [CloseNone]"
  using echo.run_until [OF assms] assms(2) unfolding realtime_session_inner_def
  by (cases r rule: echo_emit.cases) (auto simp: socket_ends_def)

lemma drain_ended_iff: "drain_ended rs \<longleftrightarrow> list_ex socket_ends rs"
  by (induction rs rule: drain_ended.induct) (simp_all add: socket_ends_def)

section \<open>Facts: the listener\<close>

text \<open>However the actor ends, the listener is told to stop once if it was started, and never otherwise.\<close>

lemma listener_stopped_once:
  assumes "gateway_pre_start bound (new_gateway b) = (g, fx)" "gateway_handle_stop g = (g1, fx1)" "gateway_post_stop g1 = (g2, fx2)"
  shows "count_list (fx1 @ fx2) SignalShutdown = length fx \<and> (fx = [] \<longleftrightarrow> isl bound)"
  using assms by (auto simp: gateway_pre_start_def gateway_handle_stop_def gateway_post_stop_def take_shutdown_def new_gateway_def split: sum.splits)

section \<open>Facts: routes\<close>

lemma resolve_route_targets:
  "resolve_route f path answered d rs = (rs, if \<not> answered then Inl (bad_request ''coordinator timeout'' ''internal_error'')
     else if targets rs d = [] then Inl (bad_request (''internal: no engine for deployment `'' @ d @ ''`'') ''no_route'') else Inr ())"
  by (auto simp: resolve_route_def ask_route_def pick_targets split: list.splits)

lemma chat_completions_resolve:
  "chat_completions f path answered now req rs = (case resolve_route f path answered (cr_model req) rs of
     (rs', Inr _) \<Rightarrow> (rs', \<lparr>gr_status = 200, gr_body = ChatEnvelope (request_id (chat_batch now req)) (cr_model req) ''chat.completion''
        [\<lparr>cc_index = 0, cc_role = ''assistant'', cc_content = [], cc_finish_reason = ''stop''\<rparr>]\<rparr>)
   | (rs', Inl r) \<Rightarrow> (rs', r))"
  by (auto simp: chat_completions_def resolve_route_def Let_def chat_batch_def split: prod.splits option.splits sum.splits)

text \<open>Whether a request is served, given which models have an engine and whether the coordinator answers in time.\<close>

fun served :: "(string \<Rightarrow> bool) \<Rightarrow> bool \<times> gateway_request \<Rightarrow> bool" where
  "served has (answered, Healthz) \<longleftrightarrow> True"
| "served has (answered, ChatCompletions _ req) \<longleftrightarrow> answered \<and> has (cr_model req)"
| "served has (answered, Transcriptions reads) \<longleftrightarrow> answered \<and>
     (case multipart_loop None None reads of (Some m, Some _) \<Rightarrow> has m | _ \<Rightarrow> False)"
| "served has (answered, SpeechReq req) \<longleftrightarrow> answered \<and> has (sr_model req)"
| "served has (answered, SpeechStreamReq req) \<longleftrightarrow> answered \<and> has (sr_model req)"

lemma gateway_route_status:
  "fst (gateway_route f path answered q rs) = rs \<and>
   gr_status (snd (gateway_route f path answered q rs)) = (if served (\<lambda>d. targets rs d \<noteq> []) (answered, q) then 200 else 400)"
  by (cases q) (simp_all add: chat_completions_resolve audio_transcriptions_def audio_speech_def audio_speech_stream_def
      resolve_route_targets bad_request_def split: prod.splits option.splits)

lemma gateway_serve_status:
  "fst (gateway_serve f path qs rs) = rs \<and>
   map gr_status (snd (gateway_serve f path qs rs)) = map (\<lambda>q. if served (\<lambda>d. targets rs d \<noteq> []) q then 200 else 400) qs"
proof (induction qs)
  case (Cons q qs)
  then show ?case using gateway_route_status [of f path "fst q" "snd q" rs]
    by (cases q) (simp add: split_beta)
qed simp

text \<open>The engines of a deployment, by path, as the history of the coordinator's messages gives them.\<close>

fun engine_after :: "('e \<Rightarrow> 'p) \<Rightarrow> string \<Rightarrow> ('e, 'p) dp_coordinator_msg \<Rightarrow> 'p list \<Rightarrow> 'p list" where
  "engine_after path d (Register d' t) ps = (if d' = d then ps @ [path (engine_ref t)] else ps)"
| "engine_after path d (Deregister d' p) ps = (if d' = d then removeAll p ps else ps)"
| "engine_after path d _ ps = ps"

lemma engine_after_handle:
  "map (path \<circ> engine_ref) (targets (fst (coordinator_handle path m rs)) d) = engine_after path d m (map (path \<circ> engine_ref) (targets rs d))"
  by (cases m) (auto simp: targets_simps removeAll_filter_not_eq filter_map comp_def intro!: arg_cong [where f = "map _"] filter_cong)

lemma engine_after_run:
  "map (path \<circ> engine_ref) (targets (fst (coordinator_run path rs ms)) d) = fold (engine_after path d) ms (map (path \<circ> engine_ref) (targets rs d))"
proof (induction ms arbitrary: rs)
  case (Cons m ms)
  show ?case using Cons [of "fst (coordinator_handle path m rs)"] by (simp add: engine_after_handle [unfolded comp_def] comp_def split_beta Let_def)
qed simp

section \<open>Facts: the silent answer\<close>

lemma silent_wav_stub_file:
  "silent_wav_stub = wav_file (le_bytes32 36) [(bytes_of ''fmt '', fmt_body 1 16 (le_bytes32 32000 @ le_bytes16 2) []), (bytes_of ''data'', [])] []"
  by (simp add: silent_wav_stub_def wav_file_def fmt_body_def le_bytes16_def le_bytes32_def)

text \<open>The body of the speech route is a well-formed file that the Whisper front end decodes to no samples.\<close>

lemma silent_wav_stub_decodes: "decode_wav lossy silent_wav_stub = Inr []"
proof -
  have "length silent_wav_stub = 44" by (simp add: silent_wav_stub_def bytes_of_def le_bytes16_def le_bytes32_def)
  then have "decode_wav lossy silent_wav_stub =
      wav_finish (foldl apply_chunk wav_start [(bytes_of ''fmt '', fmt_body 1 16 (le_bytes32 32000 @ le_bytes16 2) []), (bytes_of ''data'', [])])"
    unfolding silent_wav_stub_file by (intro decode_wav_file) (simp_all add: bytes_of_def fmt_body_def le_bytes16_def le_bytes32_def)
  then show ?thesis
    by (simp add: apply_chunk_def wav_chunk_fmt wav_chunk_data wav_start_def le_bytes16_def le_bytes32_def wav_finish_def decode_pcm16_def)
qed

section \<open>Properties\<close>


end
