(* ===== verification/Serve.thy ===== *)
theory Serve
  imports Gateway Vllm_Provision
begin

text \<open>
  The binary, \<^verbatim>\<open>inference-cli/src/main.rs\<close>, \<^verbatim>\<open>serve.rs\<close> and \<^verbatim>\<open>config.rs\<close>: the project file, the commands, and the start-up of the server, which
  creates the coordinator and the deployment manager, applies every deployment, provisions Gemma when
  built with that feature, and mounts the gateway.  Starting the actor system and its actors, reading and parsing the
  file and the debug printers are given.
\<close>

section \<open>Project file\<close>

record cluster_config =
  cl_name :: string
  cl_bind :: string
  cl_endpoint :: "string option"

record 'j project_file =
  pf_cluster :: cluster_config
  pf_deployments :: "'j deployment list"

definition default_bind :: string where
  "default_bind = ''127.0.0.1:8080''"

definition from_path :: "(string \<Rightarrow> string + string) \<Rightarrow> (string \<Rightarrow> string + 'j project_file) \<Rightarrow> string \<Rightarrow> string + 'j project_file" where
  "from_path read_to_string from_toml p = (case read_to_string p of Inl e \<Rightarrow> Inl e | Inr body \<Rightarrow> from_toml body)"

section \<open>The server\<close>

datatype serve_event =
    SystemStarted string
  | AppliedDeployment string
  | ValidationFailed string inference_error
  | ManagerDropped string
  | GemmaProvisioned string
  | GemmaSkipped string string
  | GemmaFailed inference_error
  | GatewayMounted string

record 'j serve_env =
  create_system :: "string \<Rightarrow> string + unit"
  actor_of :: "string \<Rightarrow> string + unit"
  gemma_default :: bool
  se_host :: host
  se_to_value :: "vllm_config \<Rightarrow> string + 'j"

record ('j, 'e) server =
  sv_catalog :: "'j catalog"
  sv_routes :: "'e routes"
  sv_log :: "serve_event list"

fun apply_all :: "'j catalog \<Rightarrow> 'j deployment list \<Rightarrow> 'j catalog \<times> serve_event list" where
  "apply_all rs [] = (rs, [])"
| "apply_all rs (d # ds) = (case ask_manager rs d of (rs1, answer) \<Rightarrow>
     (case apply_all rs1 ds of (rs2, evs) \<Rightarrow>
       (rs2, (case answer of
           Some (Inr _) \<Rightarrow> AppliedDeployment (dep_name d)
         | Some (Inl e) \<Rightarrow> ValidationFailed (dep_name d) e
         | None \<Rightarrow> ManagerDropped (dep_name d)) # evs)))"

definition provision_gemma :: "'j serve_env \<Rightarrow> 'j catalog \<Rightarrow> 'j catalog \<times> serve_event list" where
  "provision_gemma env rs =
     (let cfg = gemma_from_env (se_host env) in
      if gemma_default env \<and> auto_provision cfg
      then (case provision_if_ready (se_host env) (se_to_value env) ask_manager cfg rs of
          (rs', Inr (ProvisionReady n)) \<Rightarrow> (rs', [GemmaProvisioned n])
        | (rs', Inr (ProvisionSkipped reason hint)) \<Rightarrow> (rs', [GemmaSkipped reason hint])
        | (rs', Inl e) \<Rightarrow> (rs', [GemmaFailed e]))
      else (rs, []))"

definition spawn_actor :: "'j serve_env \<Rightarrow> string \<Rightarrow> string \<Rightarrow> string + unit" where
  "spawn_actor env what name = (case actor_of env name of
     Inl e \<Rightarrow> Inl (''spawn '' @ what @ '': '' @ e) | Inr _ \<Rightarrow> Inr ())"

definition run_server :: "'j serve_env \<Rightarrow> 'j project_file \<Rightarrow> string + ('j, 'e) server" where
  "run_server env p = (case create_system env (cl_name (pf_cluster p)) of
     Inl e \<Rightarrow> Inl (''create actor system: '' @ e)
   | Inr _ \<Rightarrow> (case spawn_actor env ''coordinator'' ''dp-coordinator'' of
       Inl e \<Rightarrow> Inl e
     | Inr _ \<Rightarrow> (case spawn_actor env ''manager'' ''deployment-manager'' of
         Inl e \<Rightarrow> Inl e
       | Inr _ \<Rightarrow> (case spawn_actor env ''metrics'' ''metrics'' of
           Inl e \<Rightarrow> Inl e
         | Inr _ \<Rightarrow>
             (let (rs1, log1) = apply_all [] (pf_deployments p);
                  (rs2, log2) = provision_gemma env rs1
              in case spawn_actor env ''gateway'' ''gateway'' of
                   Inl e \<Rightarrow> Inl e
                 | Inr _ \<Rightarrow> Inr \<lparr>sv_catalog = rs2, sv_routes = [],
                     sv_log = SystemStarted (cl_name (pf_cluster p)) # log1 @ log2 @ [GatewayMounted (cl_bind (pf_cluster p))]\<rparr>)))))"

section \<open>Commands\<close>

datatype cli_cmd = ServeCmd string | StatusCmd string | CostReport | RotateCredentials string

definition char_count :: "string \<Rightarrow> nat" where
  "char_count s = length (filter (\<lambda>c. \<not> (128 \<le> byte_of c \<and> byte_of c < 192)) s)"

text \<open>Formatting with \<^verbatim>\<open>{:<n}\<close>: spaces up to a width counted in characters.\<close>

definition pad_right :: "nat \<Rightarrow> string \<Rightarrow> string" where
  "pad_right n s = s @ replicate (n - char_count s) CHR '' ''"

definition status_line :: "debug_fmt \<Rightarrow> 'j deployment \<Rightarrow> string" where
  "status_line f d = pad_right 32 (dep_name d) @ '' model='' @ pad_right 48 (dep_model d) @ '' runtime='' @ dbg_runtime f (effective_runtime d) @
     '' replicas='' @ show_word (dep_replicas d)"

definition section_sign :: string where
  "section_sign = map char_of [194 :: nat, 167]"

definition cli_main :: "debug_fmt \<Rightarrow> (string \<Rightarrow> string + 'j project_file) \<Rightarrow> 'j serve_env \<Rightarrow> cli_cmd \<Rightarrow> string list \<times> (string + ('j, 'e) server option)" where
  "cli_main f load_project env cmd = (case cmd of
     ServeCmd config \<Rightarrow> (case load_project config of
         Inl e \<Rightarrow> ([], Inl e)
       | Inr p \<Rightarrow> (case run_server env p of Inl e \<Rightarrow> ([], Inl e) | Inr sv \<Rightarrow> ([], Inr (Some sv))))
   | StatusCmd config \<Rightarrow> (case load_project config of
         Inl e \<Rightarrow> ([], Inl e)
       | Inr p \<Rightarrow> (map (status_line f) (pf_deployments p), Inr None))
   | CostReport \<Rightarrow> ([''cost-report: not yet implemented (see doc '' @ section_sign @ ''13 Phase 6)''], Inr None)
   | RotateCredentials d \<Rightarrow> ([''rotate-credentials '' @ d @ '': not yet implemented (see doc '' @ section_sign @ ''13 Phase 6)''], Inr None))"

section \<open>Facts\<close>

lemma ask_manager_eq: "ask_manager rs d = (case validate d of
     Inr _ \<Rightarrow> (AList.update (dep_name d) \<lparr>dr_deployment = d, dr_state = Pending\<rparr> rs, Some (Inr ()))
   | Inl e \<Rightarrow> (rs, Some (Inl (Internal (show_validation_error e)))))"
  by (simp add: ask_manager_def split: sum.splits)

lemma fst_apply_all: "fst (apply_all rs (d # ds)) = fst (apply_all (fst (ask_manager rs d)) ds)"
  by (simp split: prod.splits)

text \<open>A catalog in which every deployment waits.\<close>

definition all_pending :: "'j catalog \<Rightarrow> bool" where
  "all_pending rs \<longleftrightarrow> catalog_ok rs \<and> list_all (\<lambda>(n, r). dr_state r = Pending) rs"

lemma all_pending_update:
  assumes "all_pending rs" "validate d = Inr ()"
  shows "all_pending (AList.update (dep_name d) \<lparr>dr_deployment = d, dr_state = Pending\<rparr> rs)"
proof -
  have "catalog_ok (AList.update (dep_name d) \<lparr>dr_deployment = d, dr_state = Pending\<rparr> rs)"
    using catalog_ok_handle [of rs "Apply d"] assms by (simp add: all_pending_def)
  moreover have "list_all (\<lambda>(n, r). dr_state r = Pending) xs \<Longrightarrow> dr_state v = Pending \<Longrightarrow>
      list_all (\<lambda>(n, r). dr_state r = Pending) (AList.update k v xs)" for k v and xs :: "'a catalog"
    by (induction xs) auto
  ultimately show ?thesis using assms by (simp add: all_pending_def)
qed

lemma apply_all_pending:
  "all_pending rs \<Longrightarrow> all_pending (fst (apply_all rs ds)) \<and>
     dom (map_of (fst (apply_all rs ds))) = dom (map_of rs) \<union> dep_name ` {d \<in> set ds. validate d = Inr ()}"
proof (induction ds arbitrary: rs)
  case (Cons d ds)
  show ?case
  proof (cases "validate d")
    case (Inl e)
    then show ?thesis using Cons.IH [OF Cons.prems] by (auto simp: fst_apply_all ask_manager_eq simp del: apply_all.simps)
  next
    case (Inr u)
    then have "all_pending (AList.update (dep_name d) \<lparr>dr_deployment = d, dr_state = Pending\<rparr> rs)"
      using Cons.prems by (intro all_pending_update) auto
    from Cons.IH [OF this] show ?thesis using Inr by (auto simp: fst_apply_all ask_manager_eq update_conv' simp del: apply_all.simps split: if_splits)
  qed
qed simp

lemma provision_pending:
  assumes "all_pending rs"
  shows "all_pending (fst (provision_gemma env rs)) \<and> dom (map_of rs) \<subseteq> dom (map_of (fst (provision_gemma env rs)))"
proof -
  let ?cfg = "gemma_from_env (se_host env)"
  have "all_pending rs' \<and> dom (map_of rs) \<subseteq> dom (map_of rs')"
    if "provision_if_ready (se_host env) (se_to_value env) ask_manager ?cfg rs = (rs', r)" for rs' r
    using that assms all_pending_update [OF assms]
    by (auto simp: provision_if_ready_def ask_manager_eq update_conv split: sum.splits probe_result.splits)
  then show ?thesis using assms
    by (auto simp: provision_gemma_def Let_def split: prod.splits sum.splits provision_outcome.splits)
qed

lemma no_engine_targets: "targets [] d = []"
  by (simp add: targets_def)

lemma served_nothing: "served (\<lambda>d. False) q \<longleftrightarrow> snd q = Healthz"
  by (cases q; cases "snd q") (auto split: prod.splits option.splits)

section \<open>Properties\<close>


definition demo_env :: "unit serve_env" where
  "demo_env = \<lparr>create_system = (\<lambda>_. Inr ()), actor_of = (\<lambda>_. Inr ()), gemma_default = False,
     se_host = \<lparr>env_var = Map.empty, home_dir = None, path_exists = (\<lambda>_. False), path_ancestors = (\<lambda>p. [p]), read_text = (\<lambda>_. Inl []),
       run_command = (\<lambda>_. Inl []), parse_f32 = (\<lambda>_. Inl []), int_error = (\<lambda>_. []), show_1 = (\<lambda>_. [])\<rparr>, se_to_value = (\<lambda>_. Inr ())\<rparr>"

definition demo_project :: "unit project_file" where
  "demo_project = \<lparr>pf_cluster = \<lparr>cl_name = ''demo'', cl_bind = default_bind, cl_endpoint = None\<rparr>,
     pf_deployments = [\<lparr>dep_name = ''chat'', dep_model = ''gpt-4o'', dep_runtime = None, dep_runtime_config = None, dep_gpus = None, dep_replicas = 1,
       dep_serving = default_serving, dep_budget = None, dep_idempotent = True\<rparr>]\<rparr>"

definition demo_server :: "(unit, unit) server" where
  "demo_server = \<lparr>sv_catalog = [(''chat'', \<lparr>dr_deployment = hd (pf_deployments demo_project), dr_state = Pending\<rparr>)], sv_routes = [],
     sv_log = [SystemStarted ''demo'', AppliedDeployment ''chat'', GatewayMounted default_bind]\<rparr>"

lemma demo_runs: "run_server demo_env demo_project = Inr demo_server"
  by (simp add: run_server_def demo_env_def demo_project_def demo_server_def spawn_actor_def provision_gemma_def ask_manager_eq validate_def)


end
