(* ===== verification/Ws_Client.thy ===== *)
theory Ws_Client
  imports Ws_Core
begin

text \<open>
  The WebSocket client, \<^verbatim>\<open>inference-runtime-ws-core/src/client.rs\<close>: opening a connection with headers under a timeout, and the
  sending half.  (The receiving half is \<open>ws_next\<close> of \<open>Ws_Core\<close>.)  The URL parser, the header types and the connection
  itself are fields of an environment; no outcome of connecting in time is \<open>None\<close>.
\<close>

record ('n, 'v, 's) ws_client_env =
  ws_url_parse :: "string \<Rightarrow> string + string"
  ws_client_request :: "string \<Rightarrow> string + ('n \<rightharpoonup> 'v)"
  ws_header_name :: "string \<Rightarrow> string + 'n"
  ws_header_value :: "string \<Rightarrow> string + 'v"
  ws_connect_async :: "string \<Rightarrow> ('n \<rightharpoonup> 'v) \<Rightarrow> duration \<Rightarrow> (tungstenite_error + 's) option"

fun insert_headers :: "('n, 'v, 's) ws_client_env \<Rightarrow> (string \<times> string) list \<Rightarrow> ('n \<rightharpoonup> 'v) \<Rightarrow> ws_error + ('n \<rightharpoonup> 'v)" where
  "insert_headers env [] h = Inr h"
| "insert_headers env ((name, value) # hs) h = (case ws_header_name env name of
     Inl e \<Rightarrow> Inl (BadUrl (''bad header name '' @ name @ '': '' @ e))
   | Inr n \<Rightarrow> (case ws_header_value env value of
       Inl e \<Rightarrow> Inl (BadUrl (''bad header value for '' @ name @ '': '' @ e))
     | Inr v \<Rightarrow> insert_headers env hs (h(n \<mapsto> v))))"

definition connect_with_headers :: "('n, 'v, 's) ws_client_env \<Rightarrow> string \<Rightarrow> (string \<times> string) list \<Rightarrow> duration \<Rightarrow> ws_error + 's" where
  "connect_with_headers env url headers connect_timeout = (case ws_url_parse env url of
     Inl e \<Rightarrow> Inl (BadUrl e)
   | Inr parsed \<Rightarrow> (case ws_client_request env parsed of
       Inl e \<Rightarrow> Inl (BadUrl (''ws request: '' @ e))
     | Inr req \<Rightarrow> (case insert_headers env headers req of
         Inl e \<Rightarrow> Inl e
       | Inr h \<Rightarrow> (case ws_connect_async env parsed h connect_timeout of
           None \<Rightarrow> Inl (ConnectTimeout (word_of_nat (as_secs connect_timeout)))
         | Some (Inl e) \<Rightarrow> Inl (ws_error_from e)
         | Some (Inr s) \<Rightarrow> Inr s))))"

definition ws_connect :: "('n, 'v, 's) ws_client_env \<Rightarrow> string \<Rightarrow> duration \<Rightarrow> ws_error + 's" where
  "ws_connect env url connect_timeout = connect_with_headers env url [] connect_timeout"

text \<open>A sink takes a message or fails; \<open>out\<close> is what it has taken.\<close>

record ('k, 'f) ws_sink =
  sk_send :: "nat \<Rightarrow> ('k, 'f) message \<Rightarrow> tungstenite_error + unit"
  sk_flush :: "tungstenite_error + unit"
  sk_close :: "tungstenite_error + unit"

definition ws_send :: "(u16 \<Rightarrow> 'k) \<Rightarrow> ('k, 'f) ws_sink \<Rightarrow> frame \<Rightarrow> ('k, 'f) message list \<Rightarrow> (ws_error + unit) \<times> ('k, 'f) message list" where
  "ws_send to_code sink fr out = (case sk_send sink (length out) (into_message to_code fr) of
     Inl e \<Rightarrow> (Inl (ws_error_from e), out)
   | Inr _ \<Rightarrow> (Inr (), out @ [into_message to_code fr]))"

definition ws_flush :: "('k, 'f) ws_sink \<Rightarrow> ws_error + unit" where
  "ws_flush sink = (case sk_flush sink of Inl e \<Rightarrow> Inl (ws_error_from e) | Inr _ \<Rightarrow> Inr ())"

definition ws_close :: "(u16 \<Rightarrow> 'k) \<Rightarrow> ('k, 'f) ws_sink \<Rightarrow> u16 \<Rightarrow> string \<Rightarrow> ('k, 'f) message list \<Rightarrow> (ws_error + unit) \<times> ('k, 'f) message list" where
  "ws_close to_code sink code reason out = (case ws_send to_code sink (Close code reason) out of
     (Inl e, out') \<Rightarrow> (Inl e, out')
   | (Inr _, out') \<Rightarrow> (case sk_close sink of Inl e \<Rightarrow> (Inl (ws_error_from e), out') | Inr _ \<Rightarrow> (Inr (), out')))"

section \<open>Facts\<close>

lemma insert_headers_error: "insert_headers env hs h = Inl e \<Longrightarrow> \<exists>m. e = BadUrl m"
  by (induction hs arbitrary: h) (auto split: sum.splits)

text \<open>The headers of the request: the last value given for a name, or what was there before.\<close>

lemma insert_headers_apply:
  "insert_headers env hs h = Inr h' \<Longrightarrow>
   h' n = (case map_of (rev (map (\<lambda>(k, v). (projr (ws_header_name env k), projr (ws_header_value env v))) hs)) n of Some v \<Rightarrow> Some v | None \<Rightarrow> h n)"
  by (induction hs arbitrary: h) (auto simp: map_add_def map_of_append split: sum.splits option.splits)

text \<open>What is wrong with the call is not retried; a connection that is late or lost is.\<close>

lemma connect_errors:
  assumes "connect_with_headers env url hs d = Inl e"
  shows "(\<exists>m. e = BadUrl m) \<or> (\<exists>n. e = ConnectTimeout n \<and> ws_is_retryable e) \<or>
    (\<exists>p h x. ws_connect_async env p h d = Some (Inl x) \<and> e = ws_error_from x)"
  using assms by (simp add: connect_with_headers_def split: sum.splits option.splits; metis insert_headers_error ws_is_retryable.simps)

lemma connect_bad_url_final: "ws_url_parse env url = Inl m \<Longrightarrow> connect_with_headers env url hs d = Inl (BadUrl m) \<and> \<not> ws_is_retryable (BadUrl m)"
  by (simp add: connect_with_headers_def)

text \<open>What is sent is what the receiving half reads.\<close>

lemma sent_is_received:
  assumes "ws_send to_code sink fr out = (Inr (), out')" "\<And>c. of_code (to_code c) = c"
  shows "\<exists>m. out' = out @ [m] \<and> from_message of_code m = Some fr"
  using assms by (cases fr) (auto simp: ws_send_def split: sum.splits)

end
