(* ===== verification/Python_Cluster.thy ===== *)
theory Python_Cluster
  imports Gateway Classify Control_Plane
begin

text \<open>
  The cluster of the Python bindings, \<^verbatim>\<open>inference-py-bindings/src/cluster.rs\<close> and \<^verbatim>\<open>errors.rs\<close>, with the runner it deploys,
  \<^verbatim>\<open>inference-testkit/src/mock_runner.rs\<close>: a registry of runners in the process itself.  A runner is a function from a batch to
  what its stream will yield.  The registry's lock is never poisoned, as nothing panics while it is held.  A future
  handed to Python is a function of the state it finds; a cancelled one leaves the state that is there when it is dropped.
\<close>

section \<open>Exceptions\<close>

datatype py_class =
    PyInferenceError | PyRateLimited | PyCircuitOpen | PyContentFiltered | PyContextLengthExceeded | PyBadRequest | PyUnauthorized
  | PyForbidden | PyBackpressure | PyBudgetExceeded | PyNetworkError | PyServerError | PyTimeout | PyCudaContextPoisoned | PyInternal

datatype py_error = PyErr py_class string | StopAsyncIteration

fun py_class_of :: "inference_error \<Rightarrow> py_class" where
  "py_class_of (RateLimited _ _) = PyRateLimited"
| "py_class_of (CircuitOpen _ _ _) = PyCircuitOpen"
| "py_class_of (ContentFiltered _) = PyContentFiltered"
| "py_class_of (ContextLengthExceeded _ _) = PyContextLengthExceeded"
| "py_class_of (BadRequest _) = PyBadRequest"
| "py_class_of (Unauthorized _) = PyUnauthorized"
| "py_class_of (Forbidden _) = PyForbidden"
| "py_class_of (Backpressure _) = PyBackpressure"
| "py_class_of (BudgetExceeded _) = PyBudgetExceeded"
| "py_class_of (NetworkError _) = PyNetworkError"
| "py_class_of (ServerError _ _) = PyServerError"
| "py_class_of (Timeout _) = PyTimeout"
| "py_class_of (CudaContextPoisoned _) = PyCudaContextPoisoned"
| "py_class_of (Internal _) = PyInternal"
| "py_class_of _ = PyInferenceError"

definition py_map :: "debug_fmt \<Rightarrow> inference_error \<Rightarrow> py_error" where
  "py_map f e = PyErr (py_class_of e) (display_error f e)"

definition py_map_str :: "string \<Rightarrow> py_error" where
  "py_map_str s = PyErr PyInferenceError s"

definition debug_string :: "string \<Rightarrow> string" where
  "debug_string s = [char_of (34::nat)] @ concat (map debug_char s) @ [char_of (34::nat)]"

section \<open>The mock runner\<close>

type_synonym 'j run_items = "(inference_error + 'j token_chunk) list"
type_synonym 'j py_runner = "execute_batch \<Rightarrow> 'j run_items inference_result"

record mock_script =
  ms_chunks :: "string list"
  inter_chunk_delay :: duration
  fail_with :: "inference_error option"

definition mock_chunk :: "string \<Rightarrow> nat \<Rightarrow> nat \<times> string \<Rightarrow> inference_error + 'j token_chunk" where
  "mock_chunk rid count ic = (case ic of (i, s) \<Rightarrow>
     let is_last = (i = count - 1)
     in Inr \<lparr>tc_request_id = rid, text_delta = s, tool_call_delta = None,
          tc_usage = (if is_last then Some (default_token_usage\<lparr>input_tokens := 1, output_tokens := word_of_nat count\<rparr>) else None),
          tc_finish_reason = (if is_last then Some finish_reason.Stop else None)\<rparr>)"

definition mock_execute :: "mock_script \<Rightarrow> 'j py_runner" where
  "mock_execute script b = (case fail_with script of
     Some err \<Rightarrow> Inl err
   | None \<Rightarrow> Inr (map (mock_chunk (request_id b) (length (ms_chunks script))) (enumerate 0 (ms_chunks script))))"

section \<open>The cluster\<close>

record mock_kind_config =
  mk_chunks :: "string list"
  inter_chunk_delay_ms :: u64

definition default_mock_kind :: mock_kind_config where
  "default_mock_kind = \<lparr>mk_chunks = [], inter_chunk_delay_ms = 0\<rparr>"

definition mock_script_of :: "mock_kind_config \<Rightarrow> mock_script" where
  "mock_script_of cfg = \<lparr>ms_chunks = (if mk_chunks cfg = [] then [''mock-response''] else mk_chunks cfg),
     inter_chunk_delay = from_millis (unat (inter_chunk_delay_ms cfg)), fail_with = None\<rparr>"

definition build_runner :: "debug_fmt \<Rightarrow> ('c \<Rightarrow> string + mock_kind_config) \<Rightarrow> 'c deployment \<Rightarrow> 'j py_runner inference_result" where
  "build_runner f from_value d = (let kind = effective_runtime d in case kind of
     runtime_kind.Custom s \<Rightarrow>
       if s = ''mock'' then
         (case (case dep_runtime_config d of
             Some (runtime_config.Custom _ config) \<Rightarrow> (case from_value config of
                 Inl e \<Rightarrow> Inl (BadRequest (''invalid mock config: '' @ e)) | Inr cfg \<Rightarrow> Inr cfg)
           | Some _ \<Rightarrow> Inr default_mock_kind
           | None \<Rightarrow> Inr default_mock_kind) of
           Inl e \<Rightarrow> Inl e
         | Inr cfg \<Rightarrow> Inr (mock_execute (mock_script_of cfg)))
       else Inl (BadRequest (''unknown custom runtime kind: '' @ debug_string s))
   | runtime_kind.Python _ \<Rightarrow> Inl (BadRequest ''Python-runtime variant requires the python-bridge crate'')
   | _ \<Rightarrow>
       if is_remote kind then Inl (BadRequest (''remote runtime '' @ dbg_runtime f kind @ '' not yet wired through Python bindings '' @ em_dash @
         '' use the Rust API for now (binding will land next parity wave)''))
       else if is_audio kind then Inl (BadRequest (''runtime kind '' @ dbg_runtime f kind @ '' is not handled''))
       else Inl (BadRequest (''local-GPU runtime '' @ dbg_runtime f kind @ '' not exposed via Python bindings'')))"

record 'j py_cluster =
  pc_endpoint :: string
  runners :: "string \<rightharpoonup> 'j py_runner"

definition cluster_connect :: "string \<Rightarrow> 'j py_cluster" where
  "cluster_connect ep = \<lparr>pc_endpoint = ep, runners = Map.empty\<rparr>"

definition cluster_deploy :: "debug_fmt \<Rightarrow> ('c \<Rightarrow> string + mock_kind_config) \<Rightarrow> 'c deployment \<Rightarrow> 'j py_cluster \<Rightarrow> 'j py_cluster \<times> (py_error + unit)" where
  "cluster_deploy f from_value d c = (case validate d of
     Inl e \<Rightarrow> (c, Inl (py_map_str (''validation error: '' @ show_validation_error e)))
   | Inr _ \<Rightarrow> (case build_runner f from_value d of
       Inl e \<Rightarrow> (c, Inl (py_map f e))
     | Inr r \<Rightarrow> (c\<lparr>runners := (runners c)(dep_name d \<mapsto> r)\<rparr>, Inr ())))"

definition cluster_deployments :: "'j py_cluster \<Rightarrow> string set" where
  "cluster_deployments c = dom (runners c)"

definition cluster_lookup :: "'j py_cluster \<Rightarrow> string \<Rightarrow> py_error + 'j py_runner" where
  "cluster_lookup c name = (case runners c name of
     None \<Rightarrow> Inl (py_map_str (''no deployment '' @ debug_string name)) | Some r \<Rightarrow> Inr r)"

definition collect_chunk :: "tokens \<Rightarrow> 'j token_chunk \<Rightarrow> tokens" where
  "collect_chunk t c = tokens_append (if tk_request_id t = [] then t\<lparr>tk_request_id := tc_request_id c\<rparr> else t) c"

fun drain :: "debug_fmt \<Rightarrow> tokens \<Rightarrow> 'j run_items \<Rightarrow> py_error + tokens" where
  "drain f t [] = Inr t"
| "drain f t (Inl e # _) = Inl (py_map f e)"
| "drain f t (Inr c # items) = drain f (collect_chunk t c) items"

definition cluster_execute :: "debug_fmt \<Rightarrow> 'j py_cluster \<Rightarrow> string \<Rightarrow> execute_batch \<Rightarrow> py_error + tokens" where
  "cluster_execute f c name b = (case cluster_lookup c name of
     Inl e \<Rightarrow> Inl e
   | Inr run \<Rightarrow> (case run b of Inl e \<Rightarrow> Inl (py_map f e) | Inr items \<Rightarrow> drain f default_tokens items))"

section \<open>The token stream\<close>

datatype 'j stream_state = StreamPending "'j py_runner" execute_batch | StreamActive "'j run_items" | StreamDone

definition cluster_execute_stream :: "'j py_cluster \<Rightarrow> string \<Rightarrow> execute_batch \<Rightarrow> py_error + 'j stream_state" where
  "cluster_execute_stream c name b = (case cluster_lookup c name of Inl e \<Rightarrow> Inl e | Inr run \<Rightarrow> Inr (StreamPending run b))"

definition stream_bootstrap :: "debug_fmt \<Rightarrow> 'j stream_state \<Rightarrow> 'j stream_state \<times> (py_error + unit)" where
  "stream_bootstrap f st = (case st of
     StreamPending run b \<Rightarrow> (case run b of Inl e \<Rightarrow> (StreamDone, Inl (py_map f e)) | Inr items \<Rightarrow> (StreamActive items, Inr ()))
   | other \<Rightarrow> (other, Inr ()))"

definition stream_pull :: "debug_fmt \<Rightarrow> 'j stream_state \<Rightarrow> 'j stream_state \<times> (py_error + 'j token_chunk)" where
  "stream_pull f st = (case st of
     StreamActive items \<Rightarrow> (case items of
       Inr c # rest \<Rightarrow> (StreamActive rest, Inr c)
     | Inl e # _ \<Rightarrow> (StreamDone, Inl (py_map f e))
     | [] \<Rightarrow> (StreamDone, Inl StopAsyncIteration))
   | _ \<Rightarrow> (st, Inl StopAsyncIteration))"

definition stream_anext :: "debug_fmt \<Rightarrow> 'j stream_state \<Rightarrow> 'j stream_state \<times> (py_error + 'j token_chunk)" where
  "stream_anext f st = (case stream_bootstrap f st of
     (st', Inl e) \<Rightarrow> (st', Inl e)
   | (st', Inr _) \<Rightarrow> stream_pull f st')"

text \<open>A call cancelled while it waits for the runner has already taken the state; one that waits for a chunk has not.\<close>

definition stream_cancelled :: "'j stream_state \<Rightarrow> 'j stream_state" where
  "stream_cancelled st = (case st of StreamPending _ _ \<Rightarrow> StreamDone | _ \<Rightarrow> st)"

section \<open>Facts\<close>

text \<open>\<^verbatim>\<open>async for\<close>: the chunks a Python loop sees and the exception that ends it.  Every call that yields a chunk leaves fewer
  items, so the loop ends.\<close>

fun items_left :: "'j stream_state \<Rightarrow> nat" where
  "items_left (StreamPending run b) = (case run b of Inl _ \<Rightarrow> 0 | Inr items \<Rightarrow> Suc (length items))"
| "items_left (StreamActive items) = length items"
| "items_left StreamDone = 0"

lemma anext_decreases: "stream_anext f st = (st', Inr c) \<Longrightarrow> items_left st' < items_left st"
  by (cases st) (auto simp: stream_anext_def stream_bootstrap_def stream_pull_def split: sum.splits list.splits prod.splits)

function async_for :: "debug_fmt \<Rightarrow> 'j stream_state \<Rightarrow> 'j token_chunk list \<times> py_error" where
  "async_for f st = (case stream_anext f st of
     (st', Inr c) \<Rightarrow> (case async_for f st' of (cs, e) \<Rightarrow> (c # cs, e))
   | (st', Inl e) \<Rightarrow> ([], e))"
  by pat_completeness auto
termination
  by (relation "measure (\<lambda>(f, st). items_left st)") (auto dest: anext_decreases [OF sym])

declare async_for.simps [simp del]

lemma async_for_active [simp]:
  "async_for f (StreamActive []) = ([], StopAsyncIteration)"
  "async_for f (StreamActive (Inl e # items)) = ([], py_map f e)"
  "async_for f (StreamActive (Inr c # items)) = (c # fst (async_for f (StreamActive items)), snd (async_for f (StreamActive items)))"
  "async_for f StreamDone = ([], StopAsyncIteration)"
  by (subst async_for.simps; simp add: stream_anext_def stream_bootstrap_def stream_pull_def split_beta)+

lemma async_for_pending [simp]:
  "async_for f (StreamPending run b) = (case run b of Inl e \<Rightarrow> ([], py_map f e) | Inr items \<Rightarrow> async_for f (StreamActive items))"
  by (subst async_for.simps, cases "run b"; subst (2) async_for.simps) (simp_all add: stream_anext_def stream_bootstrap_def)

lemma py_map_not_stop [simp]: "py_map f e \<noteq> StopAsyncIteration"
  by (simp add: py_map_def)

definition collected :: "tokens \<Rightarrow> 'j token_chunk list \<times> py_error \<Rightarrow> py_error + tokens" where
  "collected t r = (if snd r = StopAsyncIteration then Inr (foldl collect_chunk t (fst r)) else Inl (snd r))"

lemma drain_collected: "drain f t items = collected t (async_for f (StreamActive items))"
  by (induction f t items rule: drain.induct) (simp_all add: collected_def)

lemma drain_chunks: "drain f t (map Inr cs) = Inr (foldl collect_chunk t cs)"
  by (induction cs arbitrary: t) simp_all

lemma collect_fields:
  "tk_text (foldl collect_chunk t cs) = tk_text t @ concat (map text_delta cs)"
  "tk_usage (foldl collect_chunk t cs) = foldl usage_add (tk_usage t) (usages cs)"
  "tk_finish_reason (foldl collect_chunk t cs) = (if finish_reasons cs = [] then tk_finish_reason t else Some (last (finish_reasons cs)))"
  by (induction cs arbitrary: t) (simp_all add: collect_chunk_def tokens_append_fields split: option.splits)

lemma collect_id:
  assumes "\<forall>c \<in> set cs. tc_request_id c = rid" "tk_request_id t = rid \<or> tk_request_id t = [] \<and> cs \<noteq> []"
  shows "tk_request_id (foldl collect_chunk t cs) = rid"
  using assms
proof (induction cs arbitrary: t)
  case (Cons c cs)
  have "tk_request_id (collect_chunk t c) = rid" using Cons.prems by (auto simp: collect_chunk_def tokens_append_fields)
  with Cons.IH [of "collect_chunk t c"] Cons.prems show ?case by simp
qed simp

text \<open>What a mock answers: its texts, one token in, one token out for each text, and a stop.\<close>

definition mock_data :: "string \<Rightarrow> nat \<Rightarrow> nat \<times> string \<Rightarrow> 'j token_chunk" where
  "mock_data rid count ic = (case mock_chunk rid count ic of Inr c \<Rightarrow> c)"

lemma mock_execute_chunks:
  "fail_with s = None \<Longrightarrow> mock_execute s b = Inr (map Inr (map (mock_data (request_id b) (length (ms_chunks s))) (enumerate 0 (ms_chunks s))))"
  by (simp add: mock_execute_def mock_data_def mock_chunk_def Let_def split_beta)

text \<open>A first read that is cancelled ends the stream: the next one stops as if the answer had been empty.\<close>

lemma cancelled_first_read_ends_stream: "async_for f (stream_cancelled (StreamPending run b)) = ([], StopAsyncIteration)"
  by (simp add: stream_cancelled_def)

lemma cancelled_later_read_harmless: "stream_cancelled (StreamActive items) = StreamActive items"
  by (simp add: stream_cancelled_def)

text \<open>Only mock deployments can be made, and a deployment that cannot be made changes nothing.\<close>

lemma deploy_only_mock:
  assumes "cluster_deploy f from_value d c = (c', Inr ())"
  shows "effective_runtime d = runtime_kind.Custom ''mock'' \<and> validate d = Inr () \<and> (\<exists>cfg. runners c' = (runners c)(dep_name d \<mapsto> mock_execute (mock_script_of cfg)))"
  using assms by (cases "effective_runtime d") (auto simp: cluster_deploy_def build_runner_def Let_def split: sum.splits if_splits)

lemma deploy_failed: "snd (cluster_deploy f from_value d c) = Inl e \<Longrightarrow> fst (cluster_deploy f from_value d c) = c"
  by (auto simp: cluster_deploy_def split: sum.splits)

section \<open>Properties\<close>


text \<open>C25: Python and the gateway see the same answer.  When a runner answers with data chunks of the batch's id of which the last and only
  the last gives a finish reason, \<^verbatim>\<open>execute\<close> returns the very aggregate that the request actor hands to the gateway
  for the same chunks.\<close>

theorem python_and_gateway_agree:
  assumes "runners c name = Some run" and "run b = Inr (map Inr (cs @ [t]))"
    and "\<forall>x \<in> set (cs @ [t]). tc_request_id x = request_id b"
    and "\<forall>x \<in> set cs. tc_finish_reason x = None" and "tc_finish_reason t = Some reason"
  shows "\<exists>T. cluster_execute f c name b = Inr T \<and>
    snd (request_run Routed new_request_actor (ReqDispatch d b # map (\<lambda>x. ReqChunk (Inr x)) (cs @ [t]) @ rest)) =
      BridgeSpawned # map (\<lambda>x. Mirror (Inr x)) (cs @ [t]) @ [DoneTokens T, StopActor]"
proof -
  obtain T where T: "snd (request_run Routed new_request_actor (ReqDispatch d b # map (\<lambda>x. ReqChunk (Inr x)) (cs @ [t]) @ rest)) =
      BridgeSpawned # map (\<lambda>x. Mirror (Inr x)) (cs @ [t]) @ [DoneTokens T, StopActor]"
    "tk_request_id T = request_id b" "tk_text T = concat (map text_delta (cs @ [t]))"
    "tk_usage T = foldl usage_add default_token_usage (usages (cs @ [t]))" "tk_finish_reason T = Some reason"
    using request_run_aggregate [OF assms(4,5), of d b rest] by blast
  have run: "cluster_execute f c name b = Inr (foldl collect_chunk default_tokens (cs @ [t]))"
    unfolding cluster_execute_def cluster_lookup_def using assms(1,2) by (simp only: option.case sum.case drain_chunks)
  have last: "finish_reasons (cs @ [t]) \<noteq> [] \<and> last (finish_reasons (cs @ [t])) = reason" using assms(4,5) by (induction cs) auto
  have "tk_request_id (foldl collect_chunk default_tokens (cs @ [t])) = request_id b"
    by (rule collect_id [OF assms(3)]) (simp add: default_tokens_def)
  then have "foldl collect_chunk default_tokens (cs @ [t]) = T"
    using T(2-5) last collect_fields [of default_tokens "cs @ [t]"] by (intro tokens.equality) (simp_all add: default_tokens_def)
  with run T(1) show ?thesis by blast
qed

definition demo_mock :: "unit deployment" where
  "demo_mock = \<lparr>dep_name = ''m'', dep_model = ''x'', dep_runtime = None, dep_runtime_config = Some (runtime_config.Custom ''mock'' ()),
     dep_gpus = None, dep_replicas = 1, dep_serving = default_serving, dep_budget = None, dep_idempotent = True\<rparr>"

definition demo_cluster :: "debug_fmt \<Rightarrow> unit py_cluster" where
  "demo_cluster f = fst (cluster_deploy f (\<lambda>_. Inr \<lparr>mk_chunks = [''he'', ''y''], inter_chunk_delay_ms = 0\<rparr>) demo_mock (cluster_connect ''local''))"

definition demo_data :: "string \<Rightarrow> bool \<Rightarrow> unit token_chunk" where
  "demo_data s is_last = \<lparr>tc_request_id = ''r'', text_delta = s, tool_call_delta = None,
     tc_usage = (if is_last then Some (default_token_usage\<lparr>input_tokens := 1, output_tokens := 2\<rparr>) else None),
     tc_finish_reason = (if is_last then Some finish_reason.Stop else None)\<rparr>"

lemma demo_runner: "runners (demo_cluster f) ''m'' = Some (mock_execute (mock_script_of \<lparr>mk_chunks = [''he'', ''y''], inter_chunk_delay_ms = 0\<rparr>))"
  by (simp add: demo_cluster_def cluster_deploy_def demo_mock_def validate_def build_runner_def effective_runtime_def)

lemma demo_mock_answer: "mock_execute (mock_script_of \<lparr>mk_chunks = [''he'', ''y''], inter_chunk_delay_ms = 0\<rparr>) plain_batch =
    Inr (map Inr ([demo_data ''he'' False] @ [demo_data ''y'' True]))"
  by (simp add: mock_execute_def mock_script_of_def mock_chunk_def demo_data_def plain_batch_def)

definition demo_fmt :: debug_fmt where
  "demo_fmt = \<lparr>dbg_duration = (\<lambda>_. []), dbg_provider = (\<lambda>_. []), dbg_runtime = (\<lambda>_. [])\<rparr>"

theorem python_and_gateway_agree_witness:
  "\<exists>T. cluster_execute demo_fmt (demo_cluster demo_fmt) ''m'' plain_batch = Inr T \<and>
    DoneTokens T \<in> set (snd (request_run Routed new_request_actor
      (ReqDispatch ''m'' plain_batch # map (\<lambda>x. ReqChunk (Inr x)) ([demo_data ''he'' False] @ [demo_data ''y'' True]) @ [])))"
proof -
  have ids: "\<forall>x \<in> set ([demo_data ''he'' False] @ [demo_data ''y'' True]). tc_request_id x = request_id plain_batch"
    "\<forall>x \<in> set [demo_data ''he'' False]. tc_finish_reason x = None" "tc_finish_reason (demo_data ''y'' True) = Some finish_reason.Stop"
    by (simp_all add: demo_data_def plain_batch_def)
  from python_and_gateway_agree [OF demo_runner demo_mock_answer ids, of demo_fmt demo_fmt "''m''" "[]"] show ?thesis by fastforce
qed

end
