(* ===== verification/Python_Types.thy ===== *)
theory Python_Types
  imports Python_Cluster
begin

text \<open>
  The Python classes around the core types, \<^verbatim>\<open>inference-py-bindings/src/core.rs\<close>, \<^verbatim>\<open>runtime.rs\<close> and \<^verbatim>\<open>config.rs\<close>, as far as they
  do more than hand a field through: the enums that Python names by a tag, the constructors with their defaults, the coercion of
  message contents.  A constructor's missing arguments are those of its signature; a \<^verbatim>\<open>ValueError\<close> is its text.  The locale
  \<open>tagged_enum\<close> is the contract of an enum named by a tag.
\<close>

section \<open>Enums\<close>

definition unknown_tag :: "string \<Rightarrow> string \<Rightarrow> string" where
  "unknown_tag what s = ''unknown '' @ what @ '': '' @ debug_string s"

definition py_role_new :: "string \<Rightarrow> string + role" where
  "py_role_new s = (if s = ''system'' then Inr System else if s = ''user'' then Inr User else if s = ''assistant'' then Inr Assistant
     else if s = ''tool'' then Inr Tool else Inl (unknown_tag ''role'' s))"

fun py_role_name :: "role \<Rightarrow> string" where
  "py_role_name System = ''system''"
| "py_role_name User = ''user''"
| "py_role_name Assistant = ''assistant''"
| "py_role_name Tool = ''tool''"

definition py_finish_reason_new :: "string \<Rightarrow> string + finish_reason" where
  "py_finish_reason_new s = (if s = ''stop'' then Inr finish_reason.Stop else if s = ''length'' then Inr finish_reason.Length
     else if s = ''tool_calls'' then Inr finish_reason.ToolCalls else if s = ''content_filter'' then Inr finish_reason.ContentFilter
     else if s = ''error'' then Inr finish_reason.Error else Inl (unknown_tag ''finish reason'' s))"

fun py_finish_reason_name :: "finish_reason \<Rightarrow> string" where
  "py_finish_reason_name finish_reason.Stop = ''stop''"
| "py_finish_reason_name finish_reason.Length = ''length''"
| "py_finish_reason_name finish_reason.ToolCalls = ''tool_calls''"
| "py_finish_reason_name finish_reason.ContentFilter = ''content_filter''"
| "py_finish_reason_name finish_reason.Error = ''error''"

definition py_jitter_new :: "string \<Rightarrow> string + jitter_kind" where
  "py_jitter_new s = (if s = ''none'' then Inr NoJitter else if s = ''equal'' then Inr jitter_kind.Equal else if s = ''full'' then Inr jitter_kind.Full
     else Inl (unknown_tag ''jitter kind'' s))"

fun py_jitter_name :: "jitter_kind \<Rightarrow> string" where
  "py_jitter_name NoJitter = ''none''"
| "py_jitter_name jitter_kind.Equal = ''equal''"
| "py_jitter_name jitter_kind.Full = ''full''"

definition py_capacity_policy_new :: "string \<Rightarrow> string + capacity_policy" where
  "py_capacity_policy_new s = (if s = ''reject'' then Inr capacity_policy.Reject else if s = ''queue'' then Inr capacity_policy.Queue
     else if s = ''fallback'' then Inr capacity_policy.Fallback else Inl (unknown_tag ''capacity policy'' s))"

fun py_capacity_policy_name :: "capacity_policy \<Rightarrow> string" where
  "py_capacity_policy_name capacity_policy.Reject = ''reject''"
| "py_capacity_policy_name capacity_policy.Queue = ''queue''"
| "py_capacity_policy_name capacity_policy.Fallback = ''fallback''"

definition py_budget_action_new :: "string \<Rightarrow> string + budget_action" where
  "py_budget_action_new s = (if s = ''reject'' then Inr budget_action.Reject else if s = ''warn'' then Inr budget_action.Warn
     else if s = ''throttle'' then Inr budget_action.Throttle else Inl (unknown_tag ''budget action'' s))"

fun py_budget_action_name :: "budget_action \<Rightarrow> string" where
  "py_budget_action_name budget_action.Reject = ''reject''"
| "py_budget_action_name budget_action.Warn = ''warn''"
| "py_budget_action_name budget_action.Throttle = ''throttle''"

fun py_runtime_name :: "runtime_kind \<Rightarrow> string" where
  "py_runtime_name runtime_kind.Vllm = ''vllm''"
| "py_runtime_name runtime_kind.TensorRt = ''tensorrt''"
| "py_runtime_name runtime_kind.Ort = ''ort''"
| "py_runtime_name runtime_kind.Candle = ''candle''"
| "py_runtime_name runtime_kind.Cudarc = ''cudarc''"
| "py_runtime_name runtime_kind.MistralRs = ''mistralrs''"
| "py_runtime_name (runtime_kind.Python _) = ''python''"
| "py_runtime_name runtime_kind.OpenAi = ''openai''"
| "py_runtime_name runtime_kind.Anthropic = ''anthropic''"
| "py_runtime_name runtime_kind.Gemini = ''gemini''"
| "py_runtime_name runtime_kind.LiteLlm = ''litellm''"
| "py_runtime_name (runtime_kind.Custom _) = ''custom''"
| "py_runtime_name _ = ''unknown''"

fun py_runtime_tag :: "runtime_kind \<Rightarrow> string option" where
  "py_runtime_tag (runtime_kind.Python s) = Some s"
| "py_runtime_tag (runtime_kind.Custom s) = Some s"
| "py_runtime_tag _ = None"

definition py_runtime_repr :: "runtime_kind \<Rightarrow> string" where
  "py_runtime_repr k = (case py_runtime_tag k of
     Some s \<Rightarrow> ''RuntimeKind.'' @ py_runtime_name k @ ''('' @ debug_string s @ '')''
   | None \<Rightarrow> ''RuntimeKind.'' @ py_runtime_name k)"

fun py_provider_name :: "provider_kind \<Rightarrow> string" where
  "py_provider_name provider_kind.OpenAi = ''openai''"
| "py_provider_name provider_kind.Anthropic = ''anthropic''"
| "py_provider_name provider_kind.Gemini = ''gemini''"
| "py_provider_name provider_kind.LiteLlm = ''litellm''"
| "py_provider_name (provider_kind.Custom _) = ''custom''"
| "py_provider_name _ = ''unknown''"

fun py_transport_name :: "transport_kind \<Rightarrow> string" where
  "py_transport_name LocalGpu = ''local_gpu''"
| "py_transport_name (RemoteNetwork _) = ''remote_network''"
| "py_transport_name _ = ''unknown''"

fun py_transport_provider :: "transport_kind \<Rightarrow> provider_kind option" where
  "py_transport_provider (RemoteNetwork p) = Some p"
| "py_transport_provider _ = None"

section \<open>Contents and batches\<close>

fun py_content_part_kind :: "content_part \<Rightarrow> string" where
  "py_content_part_kind (content_part.Text _) = ''text''"
| "py_content_part_kind (ImageBase64 _ _) = ''image_base64''"
| "py_content_part_kind (ImageUrl _) = ''image_url''"

fun py_content_kind :: "message_content \<Rightarrow> string" where
  "py_content_kind (message_content.Text _) = ''text''"
| "py_content_kind (Parts _) = ''parts''"

text \<open>What a Python value can be extracted as.\<close>

datatype py_object = PyStr string | PyContent message_content | PyPartList "content_part list" | PyOther

fun coerce_content :: "py_object \<Rightarrow> string + message_content" where
  "coerce_content (PyStr s) = Inr (message_content.Text s)"
| "coerce_content (PyContent mc) = Inr mc"
| "coerce_content (PyPartList ps) = Inr (Parts ps)"
| "coerce_content PyOther = Inl ''content must be str, MessageContent, or list[ContentPart]''"

definition py_message_new :: "role \<Rightarrow> py_object \<Rightarrow> string + Core_Types.message" where
  "py_message_new r ob = (case coerce_content ob of Inl e \<Rightarrow> Inl e | Inr c \<Rightarrow> Inr \<lparr>role = r, content = c\<rparr>)"

definition py_sampling_new :: "f32 option \<Rightarrow> f32 option \<Rightarrow> u32 option \<Rightarrow> u32 option \<Rightarrow> string list option \<Rightarrow> f32 option \<Rightarrow> f32 option \<Rightarrow> u64 option \<Rightarrow> sampling_params" where
  "py_sampling_new temp p k n st pp fp sd = \<lparr>temperature = temp, top_p = p, top_k = k, max_tokens = n,
     stop = (case st of Some xs \<Rightarrow> xs | None \<Rightarrow> []), presence_penalty = pp, frequency_penalty = fp, seed = sd\<rparr>"

definition py_batch_new :: "string \<Rightarrow> string \<Rightarrow> Core_Types.message list \<Rightarrow> sampling_params option \<Rightarrow> bool option \<Rightarrow> u32 option \<Rightarrow> execute_batch" where
  "py_batch_new rid m ms samp str est = \<lparr>request_id = rid, model = m, messages = ms,
     sampling = (case samp of Some s \<Rightarrow> s | None \<Rightarrow> default_sampling_params), stream = (case str of Some b \<Rightarrow> b | None \<Rightarrow> False),
     estimated_tokens_field = (case est of Some n \<Rightarrow> n | None \<Rightarrow> 1)\<rparr>"

section \<open>Configuration\<close>

definition or_else :: "'x option \<Rightarrow> 'x \<Rightarrow> 'x" where
  "or_else o1 d = (case o1 of Some v \<Rightarrow> v | None \<Rightarrow> d)"

definition py_serving_new :: "u32 option \<Rightarrow> capacity_policy option \<Rightarrow> serving" where
  "py_serving_new n p = \<lparr>max_concurrent = or_else n 32, on_capacity_exhausted = or_else p capacity_policy.Queue\<rparr>"

definition py_rate_limits_new :: "u64 option \<Rightarrow> u64 option \<Rightarrow> u32 option \<Rightarrow> bool option \<Rightarrow> rate_limits" where
  "py_rate_limits_new rpm tpm conc st = \<lparr>requests_per_minute = rpm, tokens_per_minute = tpm, concurrent_requests = conc, strict = or_else st False\<rparr>"

definition py_retry_policy_new :: "u32 option \<Rightarrow> u64 option \<Rightarrow> u64 option \<Rightarrow> f64 option \<Rightarrow> jitter_kind option \<Rightarrow> bool option \<Rightarrow> retry_policy" where
  "py_retry_policy_new n i m f j r = \<lparr>max_retries = or_else n 3, initial_backoff = from_millis (unat (or_else i 1000)),
     max_backoff = from_millis (unat (or_else m 60000)), backoff_multiplier = or_else f (Fin 2), jitter = or_else j jitter_kind.Equal,
     respect_retry_after = or_else r True\<rparr>"

definition py_timeouts_new :: "u64 option \<Rightarrow> u64 option \<Rightarrow> timeouts" where
  "py_timeouts_new a b = \<lparr>request_timeout = from_millis (unat (or_else a 30000)), read_timeout = from_millis (unat (or_else b 10000))\<rparr>"

definition py_duration_ms :: "duration \<Rightarrow> u64" where
  "py_duration_ms d = u64_of_nat (as_millis d)"

definition py_circuit_breaker_new :: "u32 option \<Rightarrow> u64 option \<Rightarrow> u32 option \<Rightarrow> circuit_breaker_config" where
  "py_circuit_breaker_new n d p = \<lparr>failure_threshold = or_else n 10, open_duration = from_millis (unat (or_else d 30000)), half_open_max_probes = or_else p 1\<rparr>"

definition py_budget_new :: "f64 option \<Rightarrow> f64 option \<Rightarrow> budget_action option \<Rightarrow> budget" where
  "py_budget_new h d a = \<lparr>max_spend_per_hour_usd = h, max_spend_per_day_usd = d, on_exceeded = or_else a budget_action.Reject\<rparr>"

definition py_usage_new :: "u32 option \<Rightarrow> u32 option \<Rightarrow> u32 option \<Rightarrow> u32 option \<Rightarrow> token_usage" where
  "py_usage_new i ou r c = \<lparr>input_tokens = or_else i 0, output_tokens = or_else ou 0, reasoning_tokens = or_else r 0, cached_tokens = or_else c 0\<rparr>"

definition py_replica_new :: "string \<Rightarrow> u32 option \<Rightarrow> string option \<Rightarrow> u32 list option \<Rightarrow> replica" where
  "py_replica_new d i n g = \<lparr>rep_deployment = d, replica_index = or_else i 0, rep_node = n, gpu_indices = or_else g []\<rparr>"

definition py_deployment_new :: "string \<Rightarrow> string \<Rightarrow> u32 option \<Rightarrow> u32 option \<Rightarrow> runtime_kind option \<Rightarrow> 'j runtime_config option \<Rightarrow> serving option \<Rightarrow>
    budget option \<Rightarrow> bool option \<Rightarrow> 'j deployment" where
  "py_deployment_new n m reps g rt rc sv bu idem = \<lparr>dep_name = n, dep_model = m, dep_runtime = rt, dep_runtime_config = rc, dep_gpus = g,
     dep_replicas = or_else reps 1, dep_serving = or_else sv default_serving, dep_budget = bu, dep_idempotent = or_else idem True\<rparr>"

definition py_validate :: "'j deployment \<Rightarrow> py_error + unit" where
  "py_validate d = (case validate d of Inl e \<Rightarrow> Inl (py_map_str (''validation error: '' @ show_validation_error e)) | Inr _ \<Rightarrow> Inr ())"

section \<open>Facts\<close>

text \<open>An enum that Python names by a tag: every value has a tag that makes it again, and nothing else makes a value.\<close>

locale tagged_enum =
  fixes make :: "string \<Rightarrow> string + 'v" and tag :: "'v \<Rightarrow> string" and what :: string
  assumes make_tag: "make (tag v) = Inr v"
    and make_known: "make s = Inr v \<Longrightarrow> s = tag v"
    and make_unknown: "make s = Inl e \<Longrightarrow> e = unknown_tag what s"
begin

lemma make_iff: "make s = Inr v \<longleftrightarrow> s = tag v"
  using make_known make_tag by blast

lemma tag_inj: "tag v = tag w \<longleftrightarrow> v = w"
  by (metis make_tag sum.inject(2))

lemma exact: "(make s = Inr v \<longleftrightarrow> s = tag v) \<and> ((\<nexists>w. s = tag w) \<longleftrightarrow> make s = Inl (unknown_tag what s))"
proof (cases "make s")
  case (Inl e)
  then have "make s = Inl (unknown_tag what s)" using make_unknown by blast
  then show ?thesis by (metis make_iff sum.distinct(1))
next
  case (Inr w)
  then show ?thesis by (metis make_iff sum.distinct(1))
qed

end

interpretation role_tag: tagged_enum py_role_new py_role_name "''role''"
  by unfold_locales (case_tac v, auto simp: py_role_new_def split: if_splits)

interpretation finish_tag: tagged_enum py_finish_reason_new py_finish_reason_name "''finish reason''"
  by unfold_locales (case_tac v, auto simp: py_finish_reason_new_def split: if_splits)

interpretation jitter_tag: tagged_enum py_jitter_new py_jitter_name "''jitter kind''"
  by unfold_locales (case_tac v, auto simp: py_jitter_new_def split: if_splits)

interpretation capacity_tag: tagged_enum py_capacity_policy_new py_capacity_policy_name "''capacity policy''"
  by unfold_locales (case_tac v, auto simp: py_capacity_policy_new_def split: if_splits)

interpretation budget_tag: tagged_enum py_budget_action_new py_budget_action_name "''budget action''"
  by unfold_locales (case_tac v, auto simp: py_budget_action_new_def split: if_splits)

text \<open>The defaults of the Python signatures are those of the core.\<close>

lemma python_defaults:
  "py_serving_new None None = default_serving" "py_retry_policy_new None None None None None None = default_retry_policy"
  "py_timeouts_new None None = default_timeouts" "py_circuit_breaker_new None None None = default_circuit_breaker_config"
  "py_sampling_new None None None None None None None None = default_sampling_params" "py_usage_new None None None None = default_token_usage"
  by (simp_all add: py_serving_new_def default_serving_def py_retry_policy_new_def default_retry_policy_def py_timeouts_new_def default_timeouts_def
    py_circuit_breaker_new_def default_circuit_breaker_config_def py_sampling_new_def default_sampling_params_def py_usage_new_def
    default_token_usage_def or_else_def from_millis_def from_secs_def)

lemma durations_read_back: "py_duration_ms (from_millis (unat ms)) = ms"
  using duration_ms_roundtrip [of ms] by (simp add: py_duration_ms_def duration_to_ms_def duration_of_ms_def)

text \<open>A deployment that does not validate raises the base class, which a handler for \<^verbatim>\<open>BadRequest\<close> does not catch.\<close>

lemma validation_raises_base: "validate d = Inl e \<Longrightarrow> \<exists>s. py_validate d = Inl (PyErr PyInferenceError s)"
  by (simp add: py_validate_def py_map_str_def)

text \<open>Audio runtimes, audio providers and the local CPU have no name of their own.\<close>

lemma audio_kinds_unknown: "py_runtime_name k = ''unknown'' \<longleftrightarrow> is_audio k"
  by (cases k) simp_all

lemma audio_kinds_indistinct: "is_audio k \<Longrightarrow> is_audio k' \<Longrightarrow> py_runtime_repr k = py_runtime_repr k'"
  by (cases k; cases k') (simp_all add: py_runtime_repr_def)

section \<open>Properties\<close>

text \<open>The tags of the Python enums are exact.  Roles, finish reasons, jitter kinds, capacity policies and budget actions are
  made from exactly the tags they report, each value from its own, and any other text is refused.\<close>

theorem python_tags_exact:
  "((py_role_new s = Inr r \<longleftrightarrow> s = py_role_name r) \<and> ((\<nexists>w. s = py_role_name w) \<longleftrightarrow> py_role_new s = Inl (unknown_tag ''role'' s))) \<and>
   ((py_finish_reason_new s = Inr f \<longleftrightarrow> s = py_finish_reason_name f) \<and>
     ((\<nexists>w. s = py_finish_reason_name w) \<longleftrightarrow> py_finish_reason_new s = Inl (unknown_tag ''finish reason'' s))) \<and>
   ((py_jitter_new s = Inr j \<longleftrightarrow> s = py_jitter_name j) \<and> ((\<nexists>w. s = py_jitter_name w) \<longleftrightarrow> py_jitter_new s = Inl (unknown_tag ''jitter kind'' s))) \<and>
   ((py_capacity_policy_new s = Inr p \<longleftrightarrow> s = py_capacity_policy_name p) \<and>
     ((\<nexists>w. s = py_capacity_policy_name w) \<longleftrightarrow> py_capacity_policy_new s = Inl (unknown_tag ''capacity policy'' s))) \<and>
   ((py_budget_action_new s = Inr a \<longleftrightarrow> s = py_budget_action_name a) \<and>
     ((\<nexists>w. s = py_budget_action_name w) \<longleftrightarrow> py_budget_action_new s = Inl (unknown_tag ''budget action'' s)))"
  using role_tag.exact finish_tag.exact jitter_tag.exact capacity_tag.exact budget_tag.exact by simp

end
