(* ===== verification/Spec2Isabelle.thy ===== *)
theory Spec2Isabelle
  imports Prelude Binary_Float Core_Runtime Core_Types Audio_Types Base64
    Backoff Circuit_Breaker Rate_Limit Classify Request_Queue Remote_Engine Remote_Worker Session
    Local_Engines Local_Worker Routing Control_Plane Ws_Core Whisper_Decode
    Provider_Http Provider_OpenAi Provider_Anthropic Provider_Gemini Ort_Model Ort_Sampling Ort_Generate Event_Loop Realtime_Adapters
    Speech_Synthesis Transcription Local_Speech Provider_LiteLlm Local_Runners Vllm_Engine Avatar_Speech Vllm_Provision Gateway Serve
    Ws_Client Python_Cluster Python_Types
begin

text \<open>
  \<^bold>\<open>rakka-inference: a verification library.\<close>
  The program is an inference-serving system made of actors.  A gateway turns a client request into a
  \<^verbatim>\<open>RequestActor\<close>, which asks the coordinator for an engine of the deployment; the engine admits or
  refuses the request and feeds it to a worker; the worker drives a runner (a provider's HTTP or
  WebSocket API, or a local model) under retry, circuit-breaker and rate-limit policies; chunks flow back
  to the request actor, which mirrors and accumulates them.

  \<^bold>\<open>Theories and the code they model.\<close>
  \<^item> \<open>Prelude\<close>: machine words with Rust's saturating and checked operations, instants and durations
    (nanoseconds as naturals), decimal printing, ASCII strings.  \<open>Binary_Float\<close>: \<^verbatim>\<open>f32\<close> and
    \<^verbatim>\<open>f64\<close> as rationals with rounding to nearest even; the locale \<open>rounding_mode\<close> states the laws
    of rounding the clients use.
  \<^item> \<open>Core_Runtime\<close>, \<open>Core_Types\<close>, \<open>Audio_Types\<close>, \<open>Base64\<close>: \<^verbatim>\<open>crates/inference-core\<close>, its enums as
    datatypes and its structs as records.
  \<^item> \<open>Backoff\<close>, \<open>Circuit_Breaker\<close>, \<open>Rate_Limit\<close>, \<open>Classify\<close>, \<open>Request_Queue\<close>, \<open>Remote_Engine\<close>,
    \<open>Remote_Worker\<close>, \<open>Session\<close>: \<^verbatim>\<open>crates/inference-remote-core\<close> and the error mappings of
    the OpenAI, Anthropic and Gemini crates.  An actor is a record, a message handler a
    function from message and state to state and effects (messages sent, replies, spawned tasks).
  \<^item> \<open>Local_Engines\<close>, \<open>Local_Worker\<close>, \<open>Routing\<close>, \<open>Control_Plane\<close>: \<^verbatim>\<open>crates/inference-runtime\<close>.  Where
    an actor spawns tasks that share state with it, the tasks are part of the state and a list of
    events is one interleaving of messages and task steps.
  \<^item> \<open>Ws_Core\<close>: \<^verbatim>\<open>crates/inference-runtime-ws-core\<close>.  \<open>Whisper_Decode\<close>: the audio front end of
    \<^verbatim>\<open>crates/inference-runtime-whisper-local\<close>.
  \<^item> \<open>Provider_Http\<close>, \<open>Provider_OpenAi\<close>, \<open>Provider_Anthropic\<close>, \<open>Provider_Gemini\<close>: the runners of the three text
    providers (URLs, wire types, translation of batches, events and answers, \<^verbatim>\<open>execute\<close>, price tables).  Transport,
    event-stream parser and JSON decoder are fields of one environment record; the locale \<open>event_lifter\<close> is the
    contract of the translation of one event, and each provider interprets it.
  \<^item> \<open>Ort_Model\<close>, \<open>Ort_Sampling\<close>, \<open>Ort_Generate\<close>: \<^verbatim>\<open>crates/inference-runtime-ort\<close>, from probing a model to the sampled
    token and the streamed text.  The ONNX session and the tokenizer are fields of an environment record; what is
    relied on of them are the predicates \<open>sampling_laws\<close>, \<open>decoder_laws\<close> and \<open>session_ok\<close>.
  \<^item> \<open>Event_Loop\<close>, \<open>Realtime_Adapters\<close>: the realtime speech providers \<^verbatim>\<open>crates/inference-runtime-openai-realtime\<close> and
    \<^verbatim>\<open>crates/inference-runtime-gemini-live\<close>.  A task that reads a WebSocket is a function of the reads; the locale
    \<open>event_loop\<close> is the shape of these loops.  \<open>Speech_Synthesis\<close>: the text-to-speech crates \<^verbatim>\<open>openai-tts\<close> and \<^verbatim>\<open>elevenlabs\<close>.
    \<open>Transcription\<close>: the speech-to-text crates \<^verbatim>\<open>deepgram\<close>, \<^verbatim>\<open>assemblyai\<close> and \<^verbatim>\<open>openai-stt\<close>; the locale \<open>transcript_task\<close>
    is the contract of a task that collects a transcript.
  \<^item> \<open>Local_Speech\<close>: the runners of \<^verbatim>\<open>inference-runtime-piper\<close> and \<^verbatim>\<open>inference-runtime-whisper-local\<close>, from text to PCM chunks and from a
    payload to the segments of the model.  \<open>Avatar_Speech\<close>: the placeholders XTTS, Kokoro and MOSS, whose contract is the locale
    \<open>silent_speech\<close>, and the Audio2Face generator.  \<open>Local_Runners\<close>: mistral.rs, TensorRT, Candle and cudarc; \<open>Provider_LiteLlm\<close>:
    the LiteLLM runner over that of OpenAI.  All with their cargo features on unless a feature is an argument.
  \<^item> \<open>Vllm_Engine\<close>, \<open>Vllm_Provision\<close>: \<^verbatim>\<open>crates/inference-runtime-vllm\<close>, the tasks that poll the Python engine and the
    automatic Gemma deployment with its probe of the host.  \<open>Gateway\<close>: \<^verbatim>\<open>inference-runtime/src/gateway.rs\<close>.  \<open>Serve\<close>:
    \<^verbatim>\<open>crates/inference-cli\<close>, the commands and the start-up that puts manager, coordinator and gateway together.
  \<^item> \<open>Ws_Client\<close>: opening and sending of the WebSocket client.  \<open>Python_Cluster\<close>, \<open>Python_Types\<close>: \<^verbatim>\<open>crates/inference-py-bindings\<close>, the
    registry of runners inside a Python process with its two ways to call a deployment, the exceptions, and the enums and
    constructors; the locale \<open>tagged_enum\<close> is the contract of an enum that Python names by a tag.

  \<^bold>\<open>What the lemmas show.\<close>
  The queue refines a bounded FIFO per priority; the remote engine neither loses nor duplicates an
  admitted request and keeps exact gauges; workers retry within their budget, give up only for a reason,
  and fail fast behind an open breaker; the breaker opens at its threshold; the limiter keeps its
  per-window limits; backoff stays below its maximum in spite of float rounding; the speech, audio and
  realtime engines keep their concurrency limits in every interleaving and can always drain;
  a local worker has at most one living context and its runner one user; routing picks the first least-loaded
  engine and placement is balanced; catalog, metrics and request aggregation are exact; base64, WAV and
  retry-after values are read back as written; coalescing and keepalive preserve the stream and detect
  silence.  A streamed answer of a text provider is complete and in order, and an Anthropic answer is followed from
  its events through worker and request actor to the gateway; ONNX generation streams exactly the text it
  decodes, feeds every token at its position, obeys \<^verbatim>\<open>top_k\<close> and always closes its stream.
  Realtime and synthesised streams end with exactly one last message, a whole body is handed out in chunks that
  are the body, what is transcribed is what was given, and chunks carry valid parameters and timings.
  A vLLM request that has the engine to itself is answered completely; provisioning is all or nothing; the gateway serves a model
  exactly when an engine is registered for it, and the server as it is started registers none.
  Speech synthesised by Piper is heard by the Whisper front end with an error of at most 1/32000; a local
  transcription is the segments of the model; generated face frames are complete and within range; from Python, collecting and
  streaming agree, and agree with what the gateway's request actor accumulates.
  Several properties state behaviour that differs from the documentation.

  \<^bold>\<open>Bounds and fuel.\<close>
  Counters are words of the source's width; a property that needs a sum not to wrap says so.
  The worker's retry loop recurses on the attempts it has left, so its termination is part of the definition;
  the WAV walker terminates because the position grows, the generation loop because the token count nears its
  limit.  No definition uses fuel.

  \<^bold>\<open>Not modelled.\<close>
  Network and file I/O, JSON decoding and the calls into model libraries are parameters or outside.  Of the Python bindings the
  getters, setters and audio wrappers that hand a field through, of the test kit all mocks but the one the Python cluster
  deploys, and the examples, benchmarks and build tasks are left out: they add no behaviour of the program.
\<close>

section \<open>From the provider's events to the gateway\<close>

definition anthropic_runner_of :: "('n messages_request, anthropic_event, 'n messages_response, anthropic_error_body) http_env \<Rightarrow>
    anthropic_runner \<Rightarrow> string \<Rightarrow> nat \<Rightarrow> execute_batch \<Rightarrow> (inference_error + 'n json token_chunk) list inference_result" where
  "anthropic_runner_of env r token n b = anthropic_execute env r token b"


definition demo_anthropic_usage :: anthropic_usage where
  "demo_anthropic_usage = \<lparr>au_input_tokens = 0, au_output_tokens = 2, au_cache_creation = 0, au_cache_read = 0\<rparr>"

definition demo_anthropic_env :: "(unit messages_request, anthropic_event, unit messages_response, anthropic_error_body) http_env" where
  "demo_anthropic_env = \<lparr>send = (\<lambda>_. Inr \<lparr>hs_status = 200, hs_retry_after = None, hs_text = None, hs_bytes = []\<rparr>),
     eventsource = (\<lambda>_. [Inr ([], ''b''), Inr ([], ''he''), Inr ([], ''llo''), Inr ([], ''d''), Inr ([], ''s'')]),
     event_json = (\<lambda>s. Inr (if s = ''b'' then ContentBlockStart 0 else if s = ''s'' then MessageStop
       else if s = ''d'' then MessageDelta (Some ''max_tokens'') (Some demo_anthropic_usage) else ContentBlockDelta 0 (TextDelta s))),
     answer_json = (\<lambda>_. Inl ''none''), error_json = (\<lambda>_. None), lower = (\<lambda>s. s), rfc2822 = (\<lambda>_. None), unix_now = 0,
     header_value = Inr, url_join = (\<lambda>a b. Inr (a @ b)), url_parse = Inr, append_pair = (\<lambda>u k v. u)\<rparr>"

definition demo_anthropic_slot :: "unit json worker_slot" where
  "demo_anthropic_slot = \<lparr>runner = anthropic_runner_of demo_anthropic_env \<lparr>an_messages_url = ''u'', an_version = ''v''\<rparr> ''k'',
     breaker_view = (\<lambda>_. (new_circuit_breaker provider_kind.Anthropic default_circuit_breaker_config 0, 0, 0)),
     limiter_view = (0, 0), receiver_alive = (\<lambda>_. True), ws_retry_engine = new_retry_engine default_retry_policy True\<rparr>"

definition demo_anthropic_request :: "unit priority_request" where
  "demo_anthropic_request = \<lparr>pr_priority = Normal, arrival_seq = 0, pr_batch = streaming_batch, pr_output = ()\<rparr>"


end
